(* ===== verification/Prelude.thy ===== *)
theory Prelude
  imports "HOL-Library.AList" "HOL-Library.State_Monad" "HOL-Library.Multiset"
begin

text \<open>
  Shared vocabulary of the development: the state-monad combinators in which the stateful Go code
  is written, the relational rules by which invariants and frame conditions are proved for them,
  Go maps as association lists with an arbitrary iteration order, and the collections of
  lemmas that the component theories extend.
\<close>

named_theorems go_eval \<open>equations that evaluate Go library functions on ASCII text\<close>
named_theorems frame_rules \<open>rules that decompose a frame or invariant goal over monadic code\<close>
named_theorems record_defs \<open>definitions of the small setters and constructors\<close>

section \<open>Monadic code\<close>

abbreviation return :: "'a \<Rightarrow> ('s, 'a) state" where
  "return \<equiv> State_Monad.return"

text \<open>\<open>for _, x := range xs { body }\<close>: the body runs for every element in order. A Go
  \<open>continue\<close> is the end of the body, so the body returns nothing.\<close>

fun for_each :: "'a list \<Rightarrow> ('a \<Rightarrow> ('s, 'b) state) \<Rightarrow> ('s, unit) state" where
  "for_each [] body = return ()"
| "for_each (x # xs) body = do { body x; for_each xs body }"

text \<open>A relation that every piece of code can be checked against: reflexive and transitive, so
  that it survives sequencing and loops. Invariants are the instance \<open>\<lambda>s t. P s \<longrightarrow> P t\<close>,
  frame conditions the instance \<open>\<lambda>s t. f t = f s\<close>.\<close>

definition frame :: "('s \<Rightarrow> 's \<Rightarrow> bool) \<Rightarrow> bool" where
  "frame R \<longleftrightarrow> reflp R \<and> transp R"

definition keeps :: "('s \<Rightarrow> bool) \<Rightarrow> 's \<Rightarrow> 's \<Rightarrow> bool" where
  "keeps P s t \<longleftrightarrow> (P s \<longrightarrow> P t)"

definition same :: "('s \<Rightarrow> 'a) \<Rightarrow> 's \<Rightarrow> 's \<Rightarrow> bool" where
  "same f s t \<longleftrightarrow> f t = f s"

lemma frame_keeps [simp, intro]: "frame (keeps P)"
  by (auto simp: frame_def keeps_def intro: reflpI transpI)

lemma frame_same [simp, intro]: "frame (same f)"
  by (auto simp: frame_def same_def intro: reflpI transpI)

lemma frame_refl: "frame R \<Longrightarrow> R s s"
  by (auto simp: frame_def reflp_def)

lemma frame_trans: "frame R \<Longrightarrow> R s t \<Longrightarrow> R t u \<Longrightarrow> R s u"
  by (auto simp: frame_def transp_def)

lemma io_run: "state_io_rel R m \<Longrightarrow> R s (snd (run_state m s))"
  by (simp add: state_io_rel_def)

lemma io_return [frame_rules]: "frame R \<Longrightarrow> state_io_rel R (return x)"
  by (auto simp: state_io_rel_def frame_refl)

lemma io_bind [frame_rules]:
  "frame R \<Longrightarrow> state_io_rel R m \<Longrightarrow> (\<And>x. state_io_rel R (f x)) \<Longrightarrow> state_io_rel R (m \<bind> f)"
  by (auto simp: state_io_rel_def frame_def transp_def split: prod.splits) (metis snd_conv)

text \<open>Sequencing when the continuation relies on a fact about every result of the first part.\<close>

lemma io_bind_post:
  assumes "frame R" and "state_io_rel R m" and "\<And>s. Q (fst (run_state m s))"
    and "\<And>x. Q x \<Longrightarrow> state_io_rel R (f x)"
  shows "state_io_rel R (m \<bind> f)"
  unfolding state_io_rel_def
proof
  fix s
  obtain x t where run: "run_state m s = (x, t)"
    by fastforce
  then have "R s t" "Q x"
    using io_run [OF assms(2), of s] assms(3) [of s] by simp_all
  moreover from \<open>Q x\<close> have "R t (snd (run_state (f x) t))"
    by (rule io_run [OF assms(4)])
  ultimately show "R s (snd (run_state (m \<bind> f) s))"
    using run frame_trans [OF assms(1)] by (simp add: State_Monad.bind_def)
qed

lemma io_if [frame_rules]:
  "(b \<Longrightarrow> state_io_rel R m) \<Longrightarrow> (\<not> b \<Longrightarrow> state_io_rel R n) \<Longrightarrow> state_io_rel R (if b then m else n)"
  by simp

lemma io_case_option [frame_rules]:
  "(x = None \<Longrightarrow> state_io_rel R m) \<Longrightarrow> (\<And>y. x = Some y \<Longrightarrow> state_io_rel R (f y)) \<Longrightarrow>
   state_io_rel R (case x of None \<Rightarrow> m | Some y \<Rightarrow> f y)"
  by (cases x) auto

lemma io_case_sum [frame_rules]:
  "(\<And>y. x = Inl y \<Longrightarrow> state_io_rel R (f y)) \<Longrightarrow> (\<And>y. x = Inr y \<Longrightarrow> state_io_rel R (g y)) \<Longrightarrow>
   state_io_rel R (case x of Inl y \<Rightarrow> f y | Inr y \<Rightarrow> g y)"
  by (cases x) auto

lemma io_case_prod [frame_rules]:
  "(\<And>a b. x = (a, b) \<Longrightarrow> state_io_rel R (f a b)) \<Longrightarrow> state_io_rel R (case x of (a, b) \<Rightarrow> f a b)"
  by (cases x) auto

lemma io_let [frame_rules]:
  "(\<And>y. y = x \<Longrightarrow> state_io_rel R (f y)) \<Longrightarrow> state_io_rel R (Let x f)"
  by simp

lemma io_for_each [frame_rules]:
  assumes "frame R" and "\<And>x. x \<in> set xs \<Longrightarrow> state_io_rel R (body x)"
  shows "state_io_rel R (for_each xs body)"
  using assms(2) by (induction xs) (auto intro!: io_bind io_return assms(1))

lemma io_keepsD: "state_io_rel (keeps P) m \<Longrightarrow> P s \<Longrightarrow> P (snd (run_state m s))"
  by (simp add: state_io_rel_def keeps_def)

lemma io_sameD: "state_io_rel (same f) m \<Longrightarrow> f (snd (run_state m s)) = f s"
  by (simp add: state_io_rel_def same_def)

lemma for_each_append: "for_each (xs @ ys) f = do { for_each xs f; for_each ys f }"
  by (induction xs) simp_all

section \<open>Go maps\<close>

text \<open>
  A Go map that is only looked up and updated is a HOL map. A map that the code ranges over is an
  association list with distinct keys (\<open>AList.update\<close>, \<open>AList.delete\<close>): Go visits
  the entries in an unspecified order, which is the choice of the \<open>rank\<close> function, an argument
  of every ranging operation, so a theorem holds for every order.
\<close>

definition go_range :: "('k \<Rightarrow> nat) \<Rightarrow> ('k \<times> 'v) list \<Rightarrow> ('k \<times> 'v) list" where
  "go_range rank m = sort_key (\<lambda>e. rank (fst e)) m"

lemma set_go_range [simp]: "set (go_range rank m) = set m"
  by (simp add: go_range_def)

lemma mset_go_range [simp]: "mset (go_range rank m) = mset m"
  by (simp add: go_range_def)

lemma length_go_range [simp]: "length (go_range rank m) = length m"
  by (simp add: go_range_def)

lemma distinct_go_range: "distinct (map fst m) \<Longrightarrow> distinct (map fst (go_range rank m))"
  by (metis mset_eq_imp_distinct_iff mset_go_range mset_map)

lemma map_of_update: "map_of (AList.update k v m) = (map_of m)(k \<mapsto> v)"
  by (rule ext) (simp add: update_conv)

lemma map_of_delete: "map_of (AList.delete k m) = (map_of m)(k := None)"
  by (rule ext) (simp add: delete_conv)

lemma map_of_filter_keys:
  "distinct (map fst m) \<Longrightarrow> map_of (filter (\<lambda>e. P (fst e)) m) k = (if P k then map_of m k else None)"
  by (induction m) auto

section \<open>Lists and options\<close>

lemma takeWhile_append_stop: "(\<And>x. x \<in> set xs \<Longrightarrow> P x) \<Longrightarrow> \<not> P y \<Longrightarrow> takeWhile P (xs @ y # ys) = xs"
  by (induction xs) auto

lemma dropWhile_append_stop: "(\<And>x. x \<in> set xs \<Longrightarrow> P x) \<Longrightarrow> \<not> P y \<Longrightarrow> dropWhile P (xs @ y # ys) = y # ys"
  by (induction xs) auto

text \<open>Cutting a list at the last occurrence of an element is unambiguous, and every list has such a
  cut or does not contain the element.\<close>

lemma first_cut_unique:
  "x \<notin> set xs \<Longrightarrow> x \<notin> set xs' \<Longrightarrow> xs @ x # ys = xs' @ x # ys' \<longleftrightarrow> xs = xs' \<and> ys = ys'"
proof (induction xs arbitrary: xs')
  case Nil
  then show ?case by (cases xs') auto
next
  case (Cons a xs)
  then show ?case by (cases xs') auto
qed

lemma last_cut_unique:
  "x \<notin> set ys \<Longrightarrow> x \<notin> set ys' \<Longrightarrow> xs @ x # ys = xs' @ x # ys' \<longleftrightarrow> xs = xs' \<and> ys = ys'"
proof -
  assume "x \<notin> set ys" "x \<notin> set ys'"
  then have "rev ys @ x # rev xs = rev ys' @ x # rev xs' \<longleftrightarrow> rev ys = rev ys' \<and> rev xs = rev xs'"
    by (intro first_cut_unique) auto
  moreover have "xs @ x # ys = xs' @ x # ys' \<longleftrightarrow> rev (xs @ x # ys) = rev (xs' @ x # ys')"
    by (simp only: rev_is_rev_conv)
  ultimately show ?thesis
    by auto
qed

lemma nth_absent: "x \<notin> set v \<Longrightarrow> i < length v \<Longrightarrow> v ! i \<noteq> x"
  by auto

lemma last_cut_cases:
  obtains (absent) "x \<notin> set v" | (cut) xs ys where "v = xs @ x # ys" and "x \<notin> set ys"
  by (metis split_list_last)

lemma list_ex_upto: "list_ex P [0..<Suc n] \<longleftrightarrow> (\<exists>k. k \<le> n \<and> P k)"
  by (auto simp: list_ex_iff less_Suc_eq_le simp del: upt_Suc)

end
