(* ===== verification/Go_Strings.thy ===== *)
theory Go_Strings
  imports Prelude
begin

text \<open>
  Go strings and the functions of the packages \<open>strings\<close> and \<open>unicode/utf8\<close> that the
  program uses. A Go string is a sequence of bytes, which is what a HOL \<open>string\<close> is (a
  \<open>char\<close> is a byte); \<open>for _, c := range s\<close> and \<open>strings.TrimSpace\<close> read it as
  UTF-8, so runes are decoded here the way the language does, an invalid byte being the rune
  U+FFFD of width one.
\<close>

type_synonym rune = nat

section \<open>UTF-8\<close>

definition rune_error :: rune where
  "rune_error = 65533"

text \<open>Whether a byte may follow the first byte \<open>b\<close> of a multi-byte sequence.\<close>

definition second_ok :: "nat \<Rightarrow> nat \<Rightarrow> bool" where
  "second_ok b x =
     (if b = 224 then 160 \<le> x \<and> x \<le> 191
      else if b = 237 then 128 \<le> x \<and> x \<le> 159
      else if b = 240 then 144 \<le> x \<and> x \<le> 191
      else if b = 244 then 128 \<le> x \<and> x \<le> 143
      else 128 \<le> x \<and> x \<le> 191)"

definition cont_ok :: "nat \<Rightarrow> bool" where
  "cont_ok x \<longleftrightarrow> 128 \<le> x \<and> x \<le> 191"

text \<open>\<open>utf8.DecodeRuneInString\<close> on a non-empty string: the rune and its width.\<close>

definition decode_rune :: "nat \<Rightarrow> nat list \<Rightarrow> rune \<times> nat" where
  "decode_rune b rest =
     (if b < 128 then (b, 1)
      else if 194 \<le> b \<and> b \<le> 223 then
        (case rest of x # _ \<Rightarrow> if cont_ok x then ((b - 192) * 64 + (x - 128), 2) else (rune_error, 1)
         | [] \<Rightarrow> (rune_error, 1))
      else if 224 \<le> b \<and> b \<le> 239 then
        (case rest of x # y # _ \<Rightarrow>
           if second_ok b x \<and> cont_ok y
           then ((b - 224) * 4096 + (x - 128) * 64 + (y - 128), 3) else (rune_error, 1)
         | _ \<Rightarrow> (rune_error, 1))
      else if 240 \<le> b \<and> b \<le> 244 then
        (case rest of x # y # z # _ \<Rightarrow>
           if second_ok b x \<and> cont_ok y \<and> cont_ok z
           then ((b - 240) * 262144 + (x - 128) * 4096 + (y - 128) * 64 + (z - 128), 4)
           else (rune_error, 1)
         | _ \<Rightarrow> (rune_error, 1))
      else (rune_error, 1))"

text \<open>A string cut into its runes, each with the bytes it was decoded from.\<close>

function segments :: "string \<Rightarrow> (rune \<times> string) list" where
  "segments [] = []"
| "segments (c # s) =
     (let (r, n) = decode_rune (of_char c) (map of_char s)
      in (r, c # take (n - 1) s) # segments (drop (n - 1) s))"
  by pat_completeness auto
termination
  by (relation "measure length") auto

definition runes :: "string \<Rightarrow> rune list" where
  "runes s = map fst (segments s)"

text \<open>\<open>string(r)\<close> for a rune: its UTF-8 encoding, U+FFFD for what is no code point.\<close>

definition encode_rune :: "rune \<Rightarrow> string" where
  "encode_rune r0 =
     (let r = (if (55296 \<le> r0 \<and> r0 \<le> 57343) \<or> 1114111 < r0 then rune_error else r0)
      in if r < 128 then [char_of r]
         else if r < 2048 then [char_of (192 + r div 64), char_of (128 + r mod 64)]
         else if r < 65536 then
           [char_of (224 + r div 4096), char_of (128 + r div 64 mod 64), char_of (128 + r mod 64)]
         else [char_of (240 + r div 262144), char_of (128 + r div 4096 mod 64),
               char_of (128 + r div 64 mod 64), char_of (128 + r mod 64)])"

definition ascii :: "string \<Rightarrow> bool" where
  "ascii s \<longleftrightarrow> (\<forall>c \<in> set s. of_char c < (128 :: nat))"

lemma ascii_simps [simp, go_eval]:
  "ascii []" "ascii (c # s) \<longleftrightarrow> of_char c < (128 :: nat) \<and> ascii s" "ascii (s @ t) \<longleftrightarrow> ascii s \<and> ascii t"
  by (auto simp: ascii_def)

lemma segments_ascii [go_eval]:
  "ascii s \<Longrightarrow> segments s = map (\<lambda>c. (of_char c, [c])) s"
  by (induction s) (simp_all add: decode_rune_def)

declare segments.simps(2) [simp del]

lemma runes_ascii [go_eval]: "ascii s \<Longrightarrow> runes s = map of_char s"
  by (simp add: runes_def segments_ascii comp_def)

lemma concat_segments: "concat (map snd (segments s)) = s"
  by (induction s rule: segments.induct) (auto simp: Let_def segments.simps(2) split: prod.splits)

section \<open>Package strings\<close>

text \<open>\<open>unicode.IsSpace\<close>.\<close>

definition unicode_IsSpace :: "rune \<Rightarrow> bool" where
  "unicode_IsSpace r \<longleftrightarrow>
     (9 \<le> r \<and> r \<le> 13) \<or> r = 32 \<or> r = 133 \<or> r = 160 \<or> r = 5760 \<or> (8192 \<le> r \<and> r \<le> 8202) \<or>
     r = 8232 \<or> r = 8233 \<or> r = 8239 \<or> r = 8287 \<or> r = 12288"

definition trim_both :: "('a \<Rightarrow> bool) \<Rightarrow> 'a list \<Rightarrow> 'a list" where
  "trim_both P xs = rev (dropWhile P (rev (dropWhile P xs)))"

definition strings_TrimSpace :: "string \<Rightarrow> string" where
  "strings_TrimSpace s = concat (map snd (trim_both (\<lambda>seg. unicode_IsSpace (fst seg)) (segments s)))"

text \<open>\<open>strings.Split(s, sep)\<close> for a separator of one byte.\<close>

fun strings_Split :: "string \<Rightarrow> char \<Rightarrow> string list" where
  "strings_Split [] sep = [[]]"
| "strings_Split (c # s) sep =
     (if c = sep then [] # strings_Split s sep
      else (case strings_Split s sep of [] \<Rightarrow> [[c]] | p # ps \<Rightarrow> (c # p) # ps))"

definition strings_HasPrefix :: "string \<Rightarrow> string \<Rightarrow> bool" where
  "strings_HasPrefix s p \<longleftrightarrow> take (length p) s = p"

definition strings_HasSuffix :: "string \<Rightarrow> string \<Rightarrow> bool" where
  "strings_HasSuffix s p \<longleftrightarrow> length p \<le> length s \<and> drop (length s - length p) s = p"

text \<open>\<open>strings.Replace(s, old, new, n)\<close> for a non-empty \<open>old\<close>; \<open>None\<close> is no limit.\<close>

function strings_Replace :: "string \<Rightarrow> string \<Rightarrow> string \<Rightarrow> nat option \<Rightarrow> string" where
  "strings_Replace [] old new n = []"
| "strings_Replace (c # s) old new n =
     (if n = Some 0 \<or> old = [] then c # s
      else if strings_HasPrefix (c # s) old
      then new @ strings_Replace (drop (length old - 1) s) old new (map_option (\<lambda>k. k - 1) n)
      else c # strings_Replace s old new n)"
  by pat_completeness auto
termination
  by (relation "measure (\<lambda>(s, _). length s)") auto

definition strings_ReplaceAll :: "string \<Rightarrow> string \<Rightarrow> string \<Rightarrow> string" where
  "strings_ReplaceAll s old new = strings_Replace s old new None"

lemma strings_ReplaceAll_char [go_eval]:
  "strings_ReplaceAll s [d] new = concat (map (\<lambda>c. if c = d then new else [c]) s)"
  unfolding strings_ReplaceAll_def
  by (induction s) (auto simp: strings_HasPrefix_def)

text \<open>Joining with a separator, the inverse of \<open>strings_Split\<close>.\<close>

fun strings_Join :: "string list \<Rightarrow> string \<Rightarrow> string" where
  "strings_Join [] sep = []"
| "strings_Join [p] sep = p"
| "strings_Join (p # q # ps) sep = p @ sep @ strings_Join (q # ps) sep"

lemma strings_Split_nonempty [simp]: "strings_Split s sep \<noteq> []"
  by (induction s) (auto split: list.splits)

lemma strings_Split_no_sep: "sep \<notin> set s \<Longrightarrow> strings_Split s sep = [s]"
  by (induction s) auto

lemma strings_Split_append:
  "sep \<notin> set p \<Longrightarrow> strings_Split (p @ sep # s) sep = p # strings_Split s sep"
  by (induction p) auto

lemma strings_Split_Join:
  "ps \<noteq> [] \<Longrightarrow> (\<And>p. p \<in> set ps \<Longrightarrow> sep \<notin> set p) \<Longrightarrow> strings_Split (strings_Join ps [sep]) sep = ps"
  by (induction ps "[sep]" rule: strings_Join.induct)
    (auto simp: strings_Split_no_sep strings_Split_append)

lemma strings_Split_pieces: "p \<in> set (strings_Split s sep) \<Longrightarrow> sep \<notin> set p \<and> set p \<subseteq> set s"
  by (induction s arbitrary: p) (fastforce split: list.splits if_splits)+

text \<open>Text without white space at either end is untouched by \<open>TrimSpace\<close>.\<close>

definition trimmed :: "string \<Rightarrow> bool" where
  "trimmed s \<longleftrightarrow> strings_TrimSpace s = s"

lemma trim_both_id:
  "(xs \<noteq> [] \<Longrightarrow> \<not> P (hd xs) \<and> \<not> P (last xs)) \<Longrightarrow> trim_both P xs = xs"
proof (cases "xs = []")
  case False
  moreover assume "xs \<noteq> [] \<Longrightarrow> \<not> P (hd xs) \<and> \<not> P (last xs)"
  ultimately have "dropWhile P xs = xs" "dropWhile P (rev xs) = rev xs"
    by (simp_all add: dropWhile_eq_self_iff hd_rev)
  then show ?thesis by (simp add: trim_both_def)
qed (simp add: trim_both_def)

lemma strings_TrimSpace_ascii [go_eval]:
  "ascii s \<Longrightarrow> strings_TrimSpace s = trim_both (\<lambda>c. unicode_IsSpace (of_char c)) s"
  by (simp add: strings_TrimSpace_def segments_ascii trim_both_def dropWhile_map rev_map comp_def
      map_replicate_const concat_map_singleton)

lemma trim_both_idem: "trim_both P (trim_both P xs) = trim_both P xs"
proof (rule trim_both_id)
  assume ne: "trim_both P xs \<noteq> []"
  let ?d = "dropWhile P xs"
  from ne have d: "dropWhile P (rev ?d) \<noteq> []"
    by (simp add: trim_both_def)
  have l: "\<not> P (last (trim_both P xs))"
    using hd_dropWhile [OF d] d by (simp add: trim_both_def last_rev)
  have "\<exists>ys. ?d = trim_both P xs @ ys"
    unfolding trim_both_def by (metis rev_append rev_rev_ident takeWhile_dropWhile_id)
  then have h: "hd (trim_both P xs) = hd ?d"
    using ne by (metis hd_append2)
  have "?d \<noteq> []"
    using d by fastforce
  then have "\<not> P (hd (trim_both P xs))"
    unfolding h by (rule hd_dropWhile)
  with l show "\<not> P (hd (trim_both P xs)) \<and> \<not> P (last (trim_both P xs))" by simp
qed

end
