(* ===== verification/Go_Regexp.thy ===== *)
theory Go_Regexp
  imports Go_Strings
begin

text \<open>
  Package \<open>regexp\<close>: the parser of \<open>regexp.Compile\<close> (RE2 syntax with the Perl flags, one
  token of the pattern per step, as \<open>regexp/syntax\<close> has it) and the leftmost-first matcher of
  \<open>MatchString\<close> and \<open>FindStringSubmatch\<close>. Patterns and texts are rune lists.
  Not modelled: Unicode class tables (\<open>\p{..}\<close>) and case folding (\<open>(?i)\<close>), for which
  compilation yields the code \<open>NotModelled\<close>, and the limits on the size and nesting of an
  expression.
\<close>

section \<open>Syntax trees\<close>

text \<open>A character class is a list of items, each a list of ranges or its complement.\<close>

type_synonym class_item = "bool \<times> (rune \<times> rune) list"

datatype regex =
    REmpty
  | RChar rune
  | RAnyNotNL
  | RAny
  | RClass bool "class_item list"
  | RBeginText
  | REndText
  | RBeginLine
  | REndLine
  | RWordBoundary
  | RNoWordBoundary
  | RCapture nat regex
  | RCat regex regex
  | RAlt regex regex
  | RStar bool regex
  | RPlus bool regex
  | RQuest bool regex
  | RRepeat nat "nat option" bool regex

datatype re_code =
    ErrInternalError | ErrInvalidCharRange | ErrInvalidEscape | ErrInvalidNamedCapture
  | ErrInvalidPerlOp | ErrInvalidRepeatOp | ErrInvalidRepeatSize | ErrInvalidUTF8
  | ErrMissingBracket | ErrMissingParen | ErrMissingRepeatArgument | ErrTrailingBackslash
  | ErrUnexpectedParen | NotModelled

type_synonym re_error = "re_code \<times> rune list"

fun cat_list :: "regex list \<Rightarrow> regex" where
  "cat_list [] = REmpty"
| "cat_list [r] = r"
| "cat_list (r # s # rs) = RCat r (cat_list (s # rs))"

fun alt_list :: "regex list \<Rightarrow> regex" where
  "alt_list [] = REmpty"
| "alt_list [r] = r"
| "alt_list (r # s # rs) = RAlt r (alt_list (s # rs))"

section \<open>The parser\<close>

text \<open>Flags that \<open>(?flags)\<close> can change: \<open>m\<close> (the negation of \<open>OneLine\<close>), \<open>s\<close>
  (\<open>DotNL\<close>), \<open>U\<close> (\<open>NonGreedy\<close>) and \<open>i\<close> (\<open>FoldCase\<close>).\<close>

record re_flags =
  multiLine :: bool
  dotNL :: bool
  nonGreedy :: bool
  foldCase :: bool

record pframe =
  savedAlts :: "regex list"
  savedCat :: "regex list"
  savedCap :: "nat option"
  savedFlags :: re_flags

text \<open>The parser's stack, split at its pseudo operators: the open parentheses, the alternatives
  of the innermost one that are complete, and the operands of the current concatenation, both with
  the last one first. \<open>lastRepeat\<close> is the text at the preceding repetition operator.\<close>

record pstate =
  frames :: "pframe list"
  alts :: "regex list"
  cats :: "regex list"
  flags :: re_flags
  numCap :: nat
  lastRepeat :: "rune list option"

definition perl_flags :: re_flags where
  "perl_flags = \<lparr>multiLine = False, dotNL = False, nonGreedy = False, foldCase = False\<rparr>"

definition init_pstate :: pstate where
  "init_pstate = \<lparr>frames = [], alts = [], cats = [], flags = perl_flags, numCap = 0, lastRepeat = None\<rparr>"

definition push_re :: "regex \<Rightarrow> pstate \<Rightarrow> pstate" where
  "push_re r st = st\<lparr>cats := r # cats st, lastRepeat := None\<rparr>"

definition collapse :: "pstate \<Rightarrow> regex" where
  "collapse st = alt_list (rev (cat_list (rev (cats st)) # alts st))"

abbreviation rc :: "char \<Rightarrow> rune" where
  "rc c \<equiv> of_char c"

definition is_digit :: "rune \<Rightarrow> bool" where
  "is_digit c \<longleftrightarrow> 48 \<le> c \<and> c \<le> 57"

definition is_alnum :: "rune \<Rightarrow> bool" where
  "is_alnum c \<longleftrightarrow> is_digit c \<or> (65 \<le> c \<and> c \<le> 90) \<or> (97 \<le> c \<and> c \<le> 122)"

definition is_word :: "rune \<Rightarrow> bool" where
  "is_word c \<longleftrightarrow> is_alnum c \<or> c = 95"

definition unhex :: "rune \<Rightarrow> nat option" where
  "unhex c =
     (if is_digit c then Some (c - 48)
      else if 97 \<le> c \<and> c \<le> 102 then Some (c - 97 + 10)
      else if 65 \<le> c \<and> c \<le> 70 then Some (c - 65 + 10)
      else None)"

text \<open>The text consumed between two suffixes of the pattern.\<close>

definition consumed :: "rune list \<Rightarrow> rune list \<Rightarrow> rune list" where
  "consumed btext after = take (length btext - length after) btext"

subsection \<open>Repetition\<close>

fun digits_val :: "nat \<Rightarrow> rune list \<Rightarrow> nat" where
  "digits_val n [] = n"
| "digits_val n (d # ds) = digits_val (10 * n + (d - 48)) ds"

definition parse_int :: "rune list \<Rightarrow> (nat \<times> rune list) option" where
  "parse_int t =
     (let ds = takeWhile is_digit t in
      if ds = [] \<or> (length ds \<ge> 2 \<and> hd ds = 48) then None
      else Some (digits_val 0 ds, dropWhile is_digit t))"

text \<open>\<open>{n}\<close>, \<open>{n,}\<close> and \<open>{n,m}\<close>, read from the text after the brace.\<close>

definition parse_repeat :: "rune list \<Rightarrow> (nat \<times> nat option \<times> rune list) option" where
  "parse_repeat t =
     (case parse_int t of
        None \<Rightarrow> None
      | Some (mn, []) \<Rightarrow> None
      | Some (mn, d # s) \<Rightarrow>
          if d = 125 then Some (mn, Some mn, s)
          else if d \<noteq> 44 then None
          else (case s of
              [] \<Rightarrow> None
            | d' # s' \<Rightarrow>
                if d' = 125 then Some (mn, None, s')
                else (case parse_int s of
                    Some (mx, d'' # s'') \<Rightarrow> if d'' = 125 then Some (mn, Some mx, s'') else None
                  | _ \<Rightarrow> None)))"

fun repeat_valid :: "regex \<Rightarrow> nat \<Rightarrow> bool" where
  "repeat_valid (RRepeat mn mx g r) n =
     (let m = (case mx of None \<Rightarrow> mn | Some m \<Rightarrow> m) in
      if mx = Some 0 then True
      else if m > n then False
      else repeat_valid r (if m > 0 then n div m else n))"
| "repeat_valid (RCapture k r) n = repeat_valid r n"
| "repeat_valid (RCat r s) n = (repeat_valid r n \<and> repeat_valid s n)"
| "repeat_valid (RAlt r s) n = (repeat_valid r n \<and> repeat_valid s n)"
| "repeat_valid (RStar g r) n = repeat_valid r n"
| "repeat_valid (RPlus g r) n = repeat_valid r n"
| "repeat_valid (RQuest g r) n = repeat_valid r n"
| "repeat_valid _ n = True"

definition parse_op ::
  "(bool \<Rightarrow> regex \<Rightarrow> regex) \<Rightarrow> bool \<Rightarrow> pstate \<Rightarrow> rune list \<Rightarrow> rune list \<Rightarrow> re_error + (pstate \<times> rune list)"
where
  "parse_op mk counted st btext after0 =
     (let lazy = (after0 \<noteq> [] \<and> hd after0 = 63);
          after = (if lazy then tl after0 else after0);
          greedy = (lazy = nonGreedy (flags st))
      in case lastRepeat st of
           Some lr \<Rightarrow> Inl (ErrInvalidRepeatOp, consumed lr after)
         | None \<Rightarrow>
             (case cats st of
                [] \<Rightarrow> Inl (ErrMissingRepeatArgument, consumed btext after)
              | r # rs \<Rightarrow>
                  if counted \<and> \<not> repeat_valid (mk greedy r) 1000
                  then Inl (ErrInvalidRepeatSize, consumed btext after)
                  else Inr (st\<lparr>cats := mk greedy r # rs, lastRepeat := Some btext\<rparr>, after)))"

subsection \<open>Escapes and classes\<close>

text \<open>\<open>parseEscape\<close> on the text after the backslash; \<open>s\<close> is the text from the backslash on.\<close>

fun octal_more :: "nat \<Rightarrow> nat \<Rightarrow> rune list \<Rightarrow> nat \<times> rune list" where
  "octal_more 0 r t = (r, t)"
| "octal_more (Suc k) r [] = (r, [])"
| "octal_more (Suc k) r (d # t) =
     (if 48 \<le> d \<and> d \<le> 55 then octal_more k (r * 8 + (d - 48)) t else (r, d # t))"

fun hex_braces :: "nat \<Rightarrow> nat \<Rightarrow> rune list \<Rightarrow> (nat \<times> rune list) + rune list" where
  "hex_braces nhex r [] = Inr []"
| "hex_braces nhex r (c # t) =
     (if c = 125 then (if nhex = 0 then Inr t else Inl (r, t))
      else (case unhex c of
          None \<Rightarrow> Inr t
        | Some v \<Rightarrow> if r * 16 + v > 1114111 then Inr t else hex_braces (Suc nhex) (r * 16 + v) t))"

definition parse_escape :: "rune list \<Rightarrow> re_error + (rune \<times> rune list)" where
  "parse_escape s =
     (case tl s of
        [] \<Rightarrow> Inl (ErrTrailingBackslash, [])
      | c # t \<Rightarrow>
          let bad = (\<lambda>t'. Inl (ErrInvalidEscape, consumed s t')) in
          if c = 48 \<or> (49 \<le> c \<and> c \<le> 55 \<and> t \<noteq> [] \<and> 48 \<le> hd t \<and> hd t \<le> 55)
          then Inr (octal_more 2 (c - 48) t)
          else if c = rc (CHR ''x'') then
            (case t of
               [] \<Rightarrow> bad t
             | d # t' \<Rightarrow>
                 if d = 123 then
                   (case hex_braces 0 0 t' of Inl (r, u) \<Rightarrow> Inr (r, u) | Inr u \<Rightarrow> bad u)
                 else
                   (case t' of
                      [] \<Rightarrow> bad []
                    | e # u \<Rightarrow>
                        (case (unhex d, unhex e) of
                           (Some x, Some y) \<Rightarrow> Inr (x * 16 + y, u)
                         | _ \<Rightarrow> bad u)))
          else if c = rc (CHR ''a'') then Inr (7, t)
          else if c = rc (CHR ''f'') then Inr (12, t)
          else if c = rc (CHR ''n'') then Inr (10, t)
          else if c = rc (CHR ''r'') then Inr (13, t)
          else if c = rc (CHR ''t'') then Inr (9, t)
          else if c = rc (CHR ''v'') then Inr (11, t)
          else if c < 128 \<and> \<not> is_alnum c then Inr (c, t)
          else bad t)"

definition digit_ranges :: "(rune \<times> rune) list" where
  "digit_ranges = [(48, 57)]"

definition space_ranges :: "(rune \<times> rune) list" where
  "space_ranges = [(9, 10), (12, 13), (32, 32)]"

definition word_ranges :: "(rune \<times> rune) list" where
  "word_ranges = [(48, 57), (65, 90), (95, 95), (97, 122)]"

text \<open>\<open>\d\<close>, \<open>\s\<close>, \<open>\w\<close> and their complements, by the letter after the backslash.\<close>

definition perl_class :: "rune \<Rightarrow> class_item option" where
  "perl_class c =
     (if c = rc (CHR ''d'') then Some (False, digit_ranges)
      else if c = rc (CHR ''D'') then Some (True, digit_ranges)
      else if c = rc (CHR ''s'') then Some (False, space_ranges)
      else if c = rc (CHR ''S'') then Some (True, space_ranges)
      else if c = rc (CHR ''w'') then Some (False, word_ranges)
      else if c = rc (CHR ''W'') then Some (True, word_ranges)
      else None)"

definition posix_classes :: "(string \<times> (rune \<times> rune) list) list" where
  "posix_classes =
     [(''alnum'', [(48, 57), (65, 90), (97, 122)]), (''alpha'', [(65, 90), (97, 122)]),
      (''ascii'', [(0, 127)]), (''blank'', [(9, 9), (32, 32)]), (''cntrl'', [(0, 31), (127, 127)]),
      (''digit'', digit_ranges), (''graph'', [(33, 126)]), (''lower'', [(97, 122)]),
      (''print'', [(32, 126)]), (''punct'', [(33, 47), (58, 64), (91, 96), (123, 126)]),
      (''space'', [(9, 13), (32, 32)]), (''upper'', [(65, 90)]), (''word'', word_ranges),
      (''xdigit'', [(48, 57), (65, 70), (97, 102)])]"

definition posix_class :: "rune list \<Rightarrow> class_item option" where
  "posix_class name =
     (let neg = (name \<noteq> [] \<and> hd name = 94); n = (if neg then tl name else name)
      in map_option (Pair neg) (map_of (map (\<lambda>(k, v). (map of_char k, v)) posix_classes) n))"

text \<open>\<open>strings.Index(t, ":]")\<close>, as the text up to it.\<close>

fun upto_colon_bracket :: "rune list \<Rightarrow> rune list option" where
  "upto_colon_bracket (c # d # t) =
     (if c = 58 \<and> d = 93 then Some []
      else map_option ((#) c) (upto_colon_bracket (d # t)))"
| "upto_colon_bracket _ = None"

definition class_char :: "rune list \<Rightarrow> rune list \<Rightarrow> re_error + (rune \<times> rune list)" where
  "class_char whole t =
     (case t of
        [] \<Rightarrow> Inl (ErrMissingBracket, whole)
      | c # t' \<Rightarrow> if c = 92 then parse_escape t else Inr (c, t'))"

text \<open>One item of a bracket expression: a POSIX class, a Perl class, a character or a range.\<close>

definition class_item :: "rune list \<Rightarrow> rune list \<Rightarrow> re_error + (class_item \<times> rune list)" where
  "class_item whole t =
     (let single =
        (case class_char whole t of
           Inl e \<Rightarrow> Inl e
         | Inr (lo, t1) \<Rightarrow>
             if length t1 \<ge> 2 \<and> hd t1 = 45 \<and> hd (tl t1) \<noteq> 93 then
               (case class_char whole (tl t1) of
                  Inl e \<Rightarrow> Inl e
                | Inr (hi, t2) \<Rightarrow>
                    if hi < lo then Inl (ErrInvalidCharRange, consumed t t2)
                    else Inr ((False, [(lo, hi)]), t2))
             else Inr ((False, [(lo, lo)]), t1))
      in if length t > 2 \<and> hd t = 91 \<and> hd (tl t) = 58 then
           (case upto_colon_bracket (tl (tl t)) of
              Some name \<Rightarrow>
                (case posix_class name of
                   Some it \<Rightarrow> Inr (it, drop (length name + 4) t)
                 | None \<Rightarrow> Inl (ErrInvalidCharRange, take (length name + 4) t))
            | None \<Rightarrow> single)
         else if length t \<ge> 2 \<and> hd t = 92 \<and> (hd (tl t) = rc (CHR ''p'') \<or> hd (tl t) = rc (CHR ''P''))
         then Inl (NotModelled, take 2 t)
         else if length t \<ge> 2 \<and> hd t = 92 then
           (case perl_class (hd (tl t)) of Some it \<Rightarrow> Inr (it, drop 2 t) | None \<Rightarrow> single)
         else single)"

fun class_items ::
  "nat \<Rightarrow> rune list \<Rightarrow> bool \<Rightarrow> class_item list \<Rightarrow> rune list \<Rightarrow> re_error + (class_item list \<times> rune list)"
where
  "class_items 0 whole first acc t = Inl (ErrInternalError, whole)"
| "class_items (Suc k) whole first acc t =
     (if t \<noteq> [] \<and> hd t = 93 \<and> \<not> first then Inr (rev acc, tl t)
      else (case class_item whole t of
          Inl e \<Rightarrow> Inl e
        | Inr (it, t') \<Rightarrow> class_items k whole False (it # acc) t'))"

definition parse_class :: "rune list \<Rightarrow> re_error + (regex \<times> rune list)" where
  "parse_class s =
     (let t = tl s; neg = (t \<noteq> [] \<and> hd t = 94); t' = (if neg then tl t else t)
      in case class_items (length s + 1) s True [] t' of
           Inl e \<Rightarrow> Inl e
         | Inr (its, rest) \<Rightarrow> Inr (RClass neg its, rest))"

subsection \<open>Groups\<close>

text \<open>The letters of \<open>(?flags)\<close> and \<open>(?flags:\<close>: the flags set, the sign, whether a flag
  was seen after the sign, and the rest of the text.\<close>

fun perl_group ::
  "re_flags \<Rightarrow> bool \<Rightarrow> bool \<Rightarrow> rune list \<Rightarrow> rune list + (re_flags \<times> bool \<times> rune list)"
where
  "perl_group f neg saw [] = Inl []"
| "perl_group f neg saw (c # t) =
     (if c = rc (CHR ''i'') then perl_group (f\<lparr>foldCase := \<not> neg\<rparr>) neg True t
      else if c = rc (CHR ''m'') then perl_group (f\<lparr>multiLine := \<not> neg\<rparr>) neg True t
      else if c = rc (CHR ''s'') then perl_group (f\<lparr>dotNL := \<not> neg\<rparr>) neg True t
      else if c = rc (CHR ''U'') then perl_group (f\<lparr>nonGreedy := \<not> neg\<rparr>) neg True t
      else if c = 45 then (if neg then Inl t else perl_group f True False t)
      else if c = 58 \<or> c = 41 then
        (if neg \<and> \<not> saw then Inl t else Inr (f, c = 58, t))
      else Inl t)"

definition open_group :: "nat option \<Rightarrow> re_flags \<Rightarrow> pstate \<Rightarrow> pstate" where
  "open_group cap f st =
     st\<lparr>frames := \<lparr>savedAlts = alts st, savedCat = cats st, savedCap = cap, savedFlags = flags st\<rparr> # frames st,
        alts := [], cats := [], flags := f, lastRepeat := None\<rparr>"

definition open_capture :: "pstate \<Rightarrow> pstate" where
  "open_capture st = open_group (Some (numCap st + 1)) (flags st) (st\<lparr>numCap := numCap st + 1\<rparr>)"

definition valid_capture_name :: "rune list \<Rightarrow> bool" where
  "valid_capture_name n \<longleftrightarrow> n \<noteq> [] \<and> list_all is_word n"

definition named_group :: "pstate \<Rightarrow> rune list \<Rightarrow> nat \<Rightarrow> re_error + (pstate \<times> rune list)" where
  "named_group st s k =
     (let (pre, post) = (takeWhile (\<lambda>c. c \<noteq> 62) s, dropWhile (\<lambda>c. c \<noteq> 62) s)
      in case post of
           [] \<Rightarrow> Inl (ErrInvalidNamedCapture, s)
         | _ # rest \<Rightarrow>
             if valid_capture_name (drop k pre) then Inr (open_capture st, rest)
             else Inl (ErrInvalidNamedCapture, pre @ [62]))"

text \<open>\<open>parsePerlFlags\<close>, on a text that starts with \<open>(?\<close>.\<close>

definition parse_perl_flags :: "pstate \<Rightarrow> rune list \<Rightarrow> re_error + (pstate \<times> rune list)" where
  "parse_perl_flags st s =
     (if length s > 4 \<and> s ! 2 = rc (CHR ''P'') \<and> s ! 3 = 60 then named_group st s 4
      else if length s > 3 \<and> s ! 2 = 60 then named_group st s 3
      else (case perl_group (flags st) False False (drop 2 s) of
          Inl t \<Rightarrow> Inl (ErrInvalidPerlOp, consumed s t)
        | Inr (f, colon, t) \<Rightarrow>
            if foldCase f then Inl (NotModelled, consumed s t)
            else if colon then Inr (open_group None f st, t)
            else Inr (st\<lparr>flags := f, lastRepeat := None\<rparr>, t)))"

definition close_group :: "rune list \<Rightarrow> pstate \<Rightarrow> re_error + pstate" where
  "close_group whole st =
     (case frames st of
        [] \<Rightarrow> Inl (ErrUnexpectedParen, whole)
      | f # fs \<Rightarrow>
          let r = collapse st;
              r' = (case savedCap f of None \<Rightarrow> r | Some k \<Rightarrow> RCapture k r)
          in Inr (st\<lparr>frames := fs, alts := savedAlts f, cats := r' # savedCat f,
                     flags := savedFlags f, lastRepeat := None\<rparr>))"

fun cut_E :: "rune list \<Rightarrow> rune list \<times> rune list" where
  "cut_E (c # d # t) =
     (if c = 92 \<and> d = rc (CHR ''E'') then ([], t)
      else (let (a, b) = cut_E (d # t) in (c # a, b)))"
| "cut_E t = (t, [])"

subsection \<open>One token, and the loop\<close>

definition parse_backslash :: "pstate \<Rightarrow> rune list \<Rightarrow> re_error + (pstate \<times> rune list)" where
  "parse_backslash st s =
     (let single =
        (case parse_escape s of
           Inl e \<Rightarrow> Inl e
         | Inr (c, t) \<Rightarrow> Inr (push_re (RChar c) st, t))
      in case tl s of
           [] \<Rightarrow> single
         | d # t \<Rightarrow>
             if d = rc (CHR ''A'') then Inr (push_re RBeginText st, t)
             else if d = rc (CHR ''b'') then Inr (push_re RWordBoundary st, t)
             else if d = rc (CHR ''B'') then Inr (push_re RNoWordBoundary st, t)
             else if d = rc (CHR ''C'') then Inl (ErrInvalidEscape, take 2 s)
             else if d = rc (CHR ''Q'') then
               (let (lit, rest) = cut_E t
                in Inr (st\<lparr>cats := rev (map RChar lit) @ cats st, lastRepeat := None\<rparr>, rest))
             else if d = rc (CHR ''z'') then Inr (push_re REndText st, t)
             else if d = rc (CHR ''p'') \<or> d = rc (CHR ''P'') then Inl (NotModelled, take 2 s)
             else (case perl_class d of
                 Some it \<Rightarrow> Inr (push_re (RClass False [it]) st, t)
               | None \<Rightarrow> single))"

definition parse_step :: "rune list \<Rightarrow> pstate \<Rightarrow> rune \<Rightarrow> rune list \<Rightarrow> re_error + (pstate \<times> rune list)" where
  "parse_step whole st c t =
     (if c = 40 then
        (if t \<noteq> [] \<and> hd t = 63 then parse_perl_flags st (c # t) else Inr (open_capture st, t))
      else if c = 124 then
        Inr (st\<lparr>alts := cat_list (rev (cats st)) # alts st, cats := [], lastRepeat := None\<rparr>, t)
      else if c = 41 then
        (case close_group whole st of Inl e \<Rightarrow> Inl e | Inr st' \<Rightarrow> Inr (st', t))
      else if c = 94 then Inr (push_re (if multiLine (flags st) then RBeginLine else RBeginText) st, t)
      else if c = 36 then Inr (push_re (if multiLine (flags st) then REndLine else REndText) st, t)
      else if c = 46 then Inr (push_re (if dotNL (flags st) then RAny else RAnyNotNL) st, t)
      else if c = 91 then
        (case parse_class (c # t) of Inl e \<Rightarrow> Inl e | Inr (r, t') \<Rightarrow> Inr (push_re r st, t'))
      else if c = 42 then parse_op RStar False st (c # t) t
      else if c = 43 then parse_op RPlus False st (c # t) t
      else if c = 63 then parse_op RQuest False st (c # t) t
      else if c = 123 then
        (case parse_repeat t of
           None \<Rightarrow> Inr (push_re (RChar c) st, t)
         | Some (mn, mx, after) \<Rightarrow>
             if mn > 1000 \<or> (case mx of None \<Rightarrow> False | Some m \<Rightarrow> m > 1000 \<or> mn > m)
             then Inl (ErrInvalidRepeatSize, consumed (c # t) after)
             else parse_op (RRepeat mn mx) (mn \<ge> 2 \<or> (case mx of None \<Rightarrow> False | Some m \<Rightarrow> m \<ge> 2))
                    st (c # t) after)
      else if c = 92 then parse_backslash st (c # t)
      else Inr (push_re (RChar c) st, t))"

text \<open>Every token takes at least one rune, so the guard of the loop always holds
  (\<open>parse_step_consumes\<close> below).\<close>

function parse_loop :: "rune list \<Rightarrow> pstate \<Rightarrow> rune list \<Rightarrow> re_error + (regex \<times> nat)" where
  "parse_loop whole st [] =
     (if frames st = [] then Inr (collapse st, numCap st) else Inl (ErrMissingParen, whole))"
| "parse_loop whole st (c # t) =
     (case parse_step whole st c t of
        Inl e \<Rightarrow> Inl e
      | Inr (st', t') \<Rightarrow>
          if length t' \<le> length t then parse_loop whole st' t' else Inl (ErrInternalError, whole))"
  by pat_completeness auto
termination
  by (relation "measure (\<lambda>(_, _, t). length t)") auto

text \<open>A compiled expression and its number of capture groups.\<close>

type_synonym regexp = "regex \<times> nat"

definition valid_utf8 :: "string \<Rightarrow> bool" where
  "valid_utf8 s \<longleftrightarrow> list_all (\<lambda>(r, bs). \<not> (r = rune_error \<and> length bs = 1)) (segments s)"

definition regexp_Compile :: "string \<Rightarrow> re_error + regexp" where
  "regexp_Compile s =
     (if valid_utf8 s then parse_loop (runes s) init_pstate (runes s)
      else Inl (ErrInvalidUTF8, runes s))"

section \<open>Every token consumes\<close>

lemma octal_more_length: "octal_more k r t = (r', t') \<Longrightarrow> length t' \<le> length t"
  by (induction k r t rule: octal_more.induct) (auto split: if_splits)

lemma hex_braces_length: "hex_braces k r t = Inl (r', t') \<Longrightarrow> length t' \<le> length t"
  by (induction k r t rule: hex_braces.induct) (fastforce split: if_splits option.splits)+

lemma parse_escape_length: "parse_escape (b # u) = Inr (c, t) \<Longrightarrow> length t < length u"
  by (auto simp: parse_escape_def Let_def split: list.splits if_splits sum.splits option.splits
      dest!: octal_more_length hex_braces_length)

lemma class_char_length: "class_char w t = Inr (c, t') \<Longrightarrow> length t' < length t"
  by (auto simp: class_char_def split: list.splits if_splits dest: parse_escape_length)

lemma class_item_length: "class_item w t = Inr (it, t') \<Longrightarrow> length t' < length t"
proof -
  have "length t2 < length t" if "class_char w t = Inr (lo, t1)" "class_char w (tl t1) = Inr (hi, t2)" for lo hi t1 t2
    using class_char_length [OF that(1)] class_char_length [OF that(2)] by simp
  moreover assume "class_item w t = Inr (it, t')"
  ultimately show ?thesis
    by (auto simp: class_item_def Let_def split: if_splits option.splits sum.splits prod.splits dest: class_char_length)
qed

lemma class_items_length: "class_items k w first acc t = Inr (its, t') \<Longrightarrow> length t' < length t"
proof (induction k arbitrary: first acc t)
  case (Suc k)
  then show ?case
    by (fastforce split: if_splits sum.splits prod.splits dest: class_item_length)
qed simp

lemma perl_group_length: "perl_group f neg saw t = Inr (f', colon, t') \<Longrightarrow> length t' < length t"
proof (induction t arbitrary: f neg saw)
  case (Cons c t)
  then show ?case
    by (auto split: if_splits intro: less_SucI)
qed simp

lemma parse_int_length: "parse_int t = Some (n, t') \<Longrightarrow> length t' \<le> length t"
  by (auto simp: parse_int_def Let_def length_dropWhile_le split: if_splits)

lemma parse_repeat_length:
  assumes "parse_repeat t = Some (mn, mx, t')"
  shows "length t' \<le> length t"
proof -
  obtain n d s where first: "parse_int t = Some (n, d # s)"
    using assms by (auto simp: parse_repeat_def split: option.splits list.splits)
  then have "length s < length t"
    using parse_int_length by fastforce
  moreover have "length t' \<le> length s"
  proof (cases "parse_int s")
    case None
    with assms first show ?thesis
      by (auto simp: parse_repeat_def split: if_splits list.splits)
  next
    case (Some r)
    obtain m u where "r = (m, u)" by fastforce
    with Some have "parse_int s = Some (m, u)" "length u \<le> length s"
      using parse_int_length by auto
    with assms first show ?thesis
      by (cases s; cases u) (auto simp: parse_repeat_def split: if_splits)
  qed
  ultimately show ?thesis by simp
qed

lemma cut_E_length: "cut_E t = (a, b) \<Longrightarrow> length b \<le> length t"
  by (induction t arbitrary: a b rule: cut_E.induct) (fastforce split: if_splits prod.splits)+

lemma parse_op_length: "parse_op mk counted st btext t = Inr (st', t') \<Longrightarrow> length t' \<le> length t"
  by (auto simp: parse_op_def Let_def split: option.splits list.splits if_splits)

lemma parse_backslash_length: "parse_backslash st (c # t) = Inr (st', t') \<Longrightarrow> length t' \<le> length t"
  by (auto simp: parse_backslash_def Let_def split: list.splits if_splits option.splits sum.splits prod.splits
      dest: cut_E_length dest!: parse_escape_length)

lemma named_group_length: "named_group st s k = Inr (st', t') \<Longrightarrow> length t' < length s"
proof -
  assume "named_group st s k = Inr (st', t')"
  then obtain c where "dropWhile (\<lambda>c. c \<noteq> 62) s = c # t'"
    by (auto simp: named_group_def split: list.splits if_splits)
  then have "length (c # t') \<le> length s"
    by (metis length_dropWhile_le)
  then show ?thesis by simp
qed

lemma parse_perl_flags_length:
  assumes "parse_perl_flags st (c # t) = Inr (st', t')"
  shows "length t' \<le> length t"
proof -
  have "length u < length t" if "perl_group f neg saw (drop 1 t) = Inr (f', colon, u)" for f neg saw f' colon u
    using perl_group_length [OF that] by simp
  then show ?thesis
    using assms named_group_length [of st "c # t" 4 st' t'] named_group_length [of st "c # t" 3 st' t']
    by (auto simp: parse_perl_flags_def split: if_splits sum.splits prod.splits) (metis less_imp_le)+
qed

lemma parse_class_length:
  assumes "parse_class (c # t) = Inr (r, t')"
  shows "length t' \<le> length t"
proof -
  define u where "u = (if t \<noteq> [] \<and> hd t = 94 then tl t else t)"
  obtain its where "class_items (length (c # t) + 1) (c # t) True [] u = Inr (its, t')"
    using assms by (auto simp: parse_class_def u_def Let_def simp del: class_items.simps split: sum.splits prod.splits)
  from class_items_length [OF this] show ?thesis
    by (auto simp: u_def split: if_splits)
qed

lemma parse_step_consumes:
  assumes "parse_step w st c t = Inr (st', t')"
  shows "length t' \<le> length t"
proof -
  have repeat: "length u \<le> length t" if "parse_repeat t = Some (mn, mx, v)" "parse_op mk counted st s v = Inr (st'', u)"
    for mn mx v mk counted s st'' u
    using parse_repeat_length [OF that(1)] parse_op_length [OF that(2)] by simp
  show ?thesis
    using assms
    by (auto simp: parse_step_def split: if_splits sum.splits option.splits prod.splits
        dest: parse_perl_flags_length parse_class_length parse_op_length parse_backslash_length repeat)
qed

end
