(* ===== verification/Regexp_Match.thy ===== *)
theory Regexp_Match
  imports Go_Regexp
begin

text \<open>
  The matcher of package \<open>regexp\<close>, and the meaning of the expressions that the namespace
  patterns compile to: an anchored sequence of characters and \<open>.*\<close> is exactly a glob.
\<close>

section \<open>Matching\<close>

text \<open>A matching state is a position in the text and the captures made so far, the last first. The
  matcher returns the states after the expression in order of preference.\<close>

type_synonym mstate = "nat \<times> (nat \<times> nat \<times> nat) list"

definition in_ranges :: "rune \<Rightarrow> (rune \<times> rune) list \<Rightarrow> bool" where
  "in_ranges c rs \<longleftrightarrow> list_ex (\<lambda>(lo, hi). lo \<le> c \<and> c \<le> hi) rs"

definition in_class :: "rune \<Rightarrow> class_item list \<Rightarrow> bool" where
  "in_class c its \<longleftrightarrow> list_ex (\<lambda>(neg, rs). in_ranges c rs \<noteq> neg) its"

definition one_rune :: "(rune \<Rightarrow> bool) \<Rightarrow> rune list \<Rightarrow> mstate \<Rightarrow> mstate list" where
  "one_rune P inp s = (if fst s < length inp \<and> P (inp ! fst s) then [(fst s + 1, snd s)] else [])"

definition empty_if :: "bool \<Rightarrow> mstate \<Rightarrow> mstate list" where
  "empty_if b s = (if b then [s] else [])"

definition word_boundary :: "rune list \<Rightarrow> nat \<Rightarrow> bool" where
  "word_boundary inp i \<longleftrightarrow>
     (0 < i \<and> i \<le> length inp \<and> is_word (inp ! (i - 1))) \<noteq> (i < length inp \<and> is_word (inp ! i))"

text \<open>A loop after its first iteration: an iteration that consumes nothing is dropped, as the
  matcher never visits an instruction twice at one position.\<close>

fun match_loop :: "nat \<Rightarrow> bool \<Rightarrow> (mstate \<Rightarrow> mstate list) \<Rightarrow> mstate \<Rightarrow> mstate list" where
  "match_loop 0 greedy f s = [s]"
| "match_loop (Suc n) greedy f s =
     (let more = concat (map (\<lambda>t. if fst s < fst t then match_loop n greedy f t else []) (f s))
      in if greedy then more @ [s] else s # more)"

definition match_plus :: "nat \<Rightarrow> bool \<Rightarrow> (mstate \<Rightarrow> mstate list) \<Rightarrow> mstate \<Rightarrow> mstate list" where
  "match_plus n greedy f s =
     concat (map (\<lambda>t. if fst s < fst t then match_loop n greedy f t else [t]) (f s))"

definition match_quest :: "bool \<Rightarrow> (mstate \<Rightarrow> mstate list) \<Rightarrow> mstate \<Rightarrow> mstate list" where
  "match_quest greedy f s = (if greedy then f s @ [s] else s # f s)"

fun match_times :: "nat \<Rightarrow> (mstate \<Rightarrow> mstate list) \<Rightarrow> mstate \<Rightarrow> mstate list" where
  "match_times 0 f s = [s]"
| "match_times (Suc n) f s = concat (map (match_times n f) (f s))"

fun match_opts :: "nat \<Rightarrow> bool \<Rightarrow> (mstate \<Rightarrow> mstate list) \<Rightarrow> mstate \<Rightarrow> mstate list" where
  "match_opts 0 greedy f s = [s]"
| "match_opts (Suc n) greedy f s =
     match_quest greedy (\<lambda>s. concat (map (match_opts n greedy f) (f s))) s"

fun nullable :: "regex \<Rightarrow> bool" where
  "nullable (RChar c) = False"
| "nullable RAnyNotNL = False"
| "nullable RAny = False"
| "nullable (RClass neg its) = False"
| "nullable (RCapture k r) = nullable r"
| "nullable (RCat r s) = (nullable r \<and> nullable s)"
| "nullable (RAlt r s) = (nullable r \<or> nullable s)"
| "nullable (RPlus g r) = nullable r"
| "nullable (RRepeat mn mx g r) = (mn = 0 \<or> nullable r)"
| "nullable _ = True"

definition match_star :: "bool \<Rightarrow> nat \<Rightarrow> bool \<Rightarrow> (mstate \<Rightarrow> mstate list) \<Rightarrow> mstate \<Rightarrow> mstate list" where
  "match_star null n greedy f s =
     (if null then match_quest greedy (match_plus n greedy f) s else match_loop n greedy f s)"

fun re_match :: "regex \<Rightarrow> rune list \<Rightarrow> mstate \<Rightarrow> mstate list" where
  "re_match REmpty inp s = [s]"
| "re_match (RChar c) inp s = one_rune (\<lambda>x. x = c) inp s"
| "re_match RAnyNotNL inp s = one_rune (\<lambda>x. x \<noteq> 10) inp s"
| "re_match RAny inp s = one_rune (\<lambda>x. True) inp s"
| "re_match (RClass neg its) inp s = one_rune (\<lambda>x. in_class x its \<noteq> neg) inp s"
| "re_match RBeginText inp s = empty_if (fst s = 0) s"
| "re_match REndText inp s = empty_if (fst s = length inp) s"
| "re_match RBeginLine inp s = empty_if (fst s = 0 \<or> inp ! (fst s - 1) = 10) s"
| "re_match REndLine inp s = empty_if (fst s = length inp \<or> inp ! fst s = 10) s"
| "re_match RWordBoundary inp s = empty_if (word_boundary inp (fst s)) s"
| "re_match RNoWordBoundary inp s = empty_if (\<not> word_boundary inp (fst s)) s"
| "re_match (RCapture k r) inp s =
     map (\<lambda>t. (fst t, (k, fst s, fst t) # snd t)) (re_match r inp s)"
| "re_match (RCat q r) inp s = concat (map (re_match r inp) (re_match q inp s))"
| "re_match (RAlt q r) inp s = re_match q inp s @ re_match r inp s"
| "re_match (RStar g r) inp s = match_star (nullable r) (length inp) g (re_match r inp) s"
| "re_match (RPlus g r) inp s = match_plus (length inp) g (re_match r inp) s"
| "re_match (RQuest g r) inp s = match_quest g (re_match r inp) s"
| "re_match (RRepeat mn mx g r) inp s =
     (let f = re_match r inp in
      case mx of
        Some m \<Rightarrow> concat (map (match_opts (m - mn) g f) (match_times mn f s))
      | None \<Rightarrow>
          if mn = 0 then match_star (nullable r) (length inp) g f s
          else concat (map (match_plus (length inp) g f) (match_times (mn - 1) f s)))"

text \<open>\<open>re.MatchString(s)\<close>: a match may start at any position.\<close>

definition regexp_MatchString :: "regexp \<Rightarrow> string \<Rightarrow> bool" where
  "regexp_MatchString re s =
     (let inp = runes s in list_ex (\<lambda>i. re_match (fst re) inp (i, []) \<noteq> []) [0..<Suc (length inp)])"

text \<open>\<open>re.FindStringSubmatch(s)\<close>: nil without a match, else the text of the leftmost match
  and of every group, the empty text for a group that took no part.\<close>

definition sub_text :: "string \<Rightarrow> nat \<Rightarrow> nat \<Rightarrow> string" where
  "sub_text s i j = concat (map snd (take (j - i) (drop i (segments s))))"

definition group_text :: "string \<Rightarrow> (nat \<times> nat \<times> nat) list \<Rightarrow> nat \<Rightarrow> string" where
  "group_text s caps k = (case map_of caps k of Some (i, j) \<Rightarrow> sub_text s i j | None \<Rightarrow> [])"

definition regexp_FindStringSubmatch :: "regexp \<Rightarrow> string \<Rightarrow> string list option" where
  "regexp_FindStringSubmatch re s =
     (let inp = runes s in
      case List.find (\<lambda>i. re_match (fst re) inp (i, []) \<noteq> []) [0..<Suc (length inp)] of
        None \<Rightarrow> None
      | Some i \<Rightarrow>
          let (j, caps) = hd (re_match (fst re) inp (i, []))
          in Some (sub_text s i j # map (group_text s caps) [1..<Suc (snd re)]))"

section \<open>Globs\<close>

text \<open>The reference meaning of a pattern: \<open>*\<close> stands for any text, every other character for
  itself.\<close>

fun glob :: "string \<Rightarrow> string \<Rightarrow> bool" where
  "glob [] s \<longleftrightarrow> s = []"
| "glob (c # p) s \<longleftrightarrow>
     (if c = CHR ''*'' then list_ex (\<lambda>k. glob p (drop k s)) [0..<Suc (length s)]
      else s \<noteq> [] \<and> hd s = c \<and> glob p (tl s))"

text \<open>The expression that a pattern character stands for.\<close>

definition glob_atom :: "char \<Rightarrow> regex" where
  "glob_atom c = (if c = CHR ''*'' then RStar True RAnyNotNL else RChar (of_char c))"

definition glob_regex :: "string \<Rightarrow> regex" where
  "glob_regex p = cat_list (RBeginText # map glob_atom p @ [REndText])"

lemma re_match_REmpty: "re_match REmpty inp = (\<lambda>s. [s])"
  by (rule ext) simp

lemma re_match_cat_list:
  "re_match (cat_list (r # rs)) inp s = concat (map (re_match (cat_list rs) inp) (re_match r inp s))"
  by (cases rs) (simp_all add: re_match_REmpty)

lemma all_from_split:
  "(\<forall>k. i \<le> k \<longrightarrow> k < j \<longrightarrow> P k) \<longleftrightarrow> (i < j \<longrightarrow> P i) \<and> (\<forall>k. Suc i \<le> k \<longrightarrow> k < j \<longrightarrow> P k)"
  by (metis Suc_leD Suc_leI le_neq_implies_less order_refl)

lemma set_match_loop_any:
  "(j, c') \<in> set (match_loop n True (one_rune (\<lambda>x. x \<noteq> 10) inp) (i, c)) \<longleftrightarrow>
     c' = c \<and> i \<le> j \<and> j \<le> i + n \<and> (j \<le> length inp \<or> j = i) \<and> (\<forall>k. i \<le> k \<longrightarrow> k < j \<longrightarrow> inp ! k \<noteq> 10)"
proof (induction n arbitrary: i)
  case (Suc n)
  show ?case
  proof (cases "i < length inp \<and> inp ! i \<noteq> 10")
    case True
    then have "(j, c') \<in> set (match_loop (Suc n) True (one_rune (\<lambda>x. x \<noteq> 10) inp) (i, c)) \<longleftrightarrow>
        (j, c') \<in> set (match_loop n True (one_rune (\<lambda>x. x \<noteq> 10) inp) (i + 1, c)) \<or> (j = i \<and> c' = c)"
      by (auto simp: one_rune_def)
    also have "\<dots> \<longleftrightarrow> c' = c \<and> i \<le> j \<and> j \<le> i + Suc n \<and> (j \<le> length inp \<or> j = i) \<and>
        (\<forall>k. i \<le> k \<longrightarrow> k < j \<longrightarrow> inp ! k \<noteq> 10)"
      unfolding Suc.IH all_from_split [of i j "\<lambda>k. inp ! k \<noteq> 10"] using True by auto
    finally show ?thesis .
  next
    case False
    then show ?thesis by (auto simp: one_rune_def)
  qed
qed auto

text \<open>From position \<open>i\<close> on, the atoms of a pattern match a text without newlines exactly as the
  glob does. The captures are never touched.\<close>

lemma re_match_glob_atoms:
  assumes "\<And>k. k < length s \<Longrightarrow> s ! k \<noteq> CHR 0x0A"
  shows "i \<le> length s \<Longrightarrow>
     re_match (cat_list (map glob_atom p @ [REndText])) (map of_char s) (i, c) \<noteq> [] \<longleftrightarrow> glob p (drop i s)"
proof (induction p arbitrary: i)
  case Nil
  then show ?case by (simp add: empty_if_def)
next
  case (Cons a p)
  let ?inp = "map of_char s :: rune list"
  let ?rest = "re_match (cat_list (map glob_atom p @ [REndText])) ?inp"
  have nonl: "?inp ! k \<noteq> 10" if "k < length s" for k
  proof -
    have "of_char (CHR 0x0A) = (10 :: nat)" by simp
    then show ?thesis using assms [OF that] that by (metis nth_map of_char_eq_iff)
  qed
  have any: "re_match RAnyNotNL ?inp = one_rune (\<lambda>x. x \<noteq> 10) ?inp"
    by (rule ext) simp
  show ?case
  proof (cases "a = CHR ''*''")
    case True
    have "re_match (cat_list (map glob_atom (a # p) @ [REndText])) ?inp (i, c) \<noteq> [] \<longleftrightarrow>
        (\<exists>t \<in> set (match_loop (length s) True (one_rune (\<lambda>x. x \<noteq> 10) ?inp) (i, c)). ?rest t \<noteq> [])"
      using True by (simp add: glob_atom_def re_match_cat_list match_star_def any del: cat_list.simps)
    also have "\<dots> \<longleftrightarrow> (\<exists>j. i \<le> j \<and> j \<le> length s \<and> ?rest (j, c) \<noteq> [])"
      using Cons.prems nonl by (auto simp: Bex_def set_match_loop_any)
    also have "\<dots> \<longleftrightarrow> (\<exists>j. i \<le> j \<and> j \<le> length s \<and> glob p (drop j s))"
      using Cons.IH by blast
    also have "\<dots> \<longleftrightarrow> (\<exists>k. k \<le> length s - i \<and> glob p (drop (k + i) s))"
      using Cons.prems by (metis add.commute add_le_cancel_left le_add1 le_add_diff_inverse)
    also have "\<dots> \<longleftrightarrow> glob (a # p) (drop i s)"
      using True by (simp add: list_ex_upto del: upt_Suc)
    finally show ?thesis .
  next
    case False
    then show ?thesis
    proof (cases "i < length s")
      case True
      with False show ?thesis
        using Cons.IH [of "i + 1"]
        by (auto simp: glob_atom_def re_match_cat_list one_rune_def hd_drop_conv_nth drop_Suc tl_drop
            simp del: cat_list.simps)
    next
      case False
      with \<open>a \<noteq> CHR ''*''\<close> Cons.prems show ?thesis
        by (auto simp: glob_atom_def re_match_cat_list one_rune_def simp del: cat_list.simps)
    qed
  qed
qed

lemma regexp_MatchString_glob:
  assumes "ascii s" and "CHR 0x0A \<notin> set s"
  shows "regexp_MatchString (glob_regex p, n) s \<longleftrightarrow> glob p s"
proof -
  let ?inp = "map of_char s :: rune list"
  have start: "re_match (glob_regex p) ?inp (i, []) \<noteq> [] \<longleftrightarrow>
      i = 0 \<and> re_match (cat_list (map glob_atom p @ [REndText])) ?inp (0, []) \<noteq> []" for i
    by (auto simp: glob_regex_def re_match_cat_list empty_if_def simp del: cat_list.simps)
  have "\<And>k. k < length s \<Longrightarrow> s ! k \<noteq> CHR 0x0A"
    using assms(2) by (metis nth_mem)
  then have "re_match (cat_list (map glob_atom p @ [REndText])) ?inp (0, []) \<noteq> [] \<longleftrightarrow> glob p s"
    using re_match_glob_atoms [of s 0 p "[]"] by simp
  moreover have "regexp_MatchString (glob_regex p, n) s \<longleftrightarrow>
      (\<exists>i. i \<le> length s \<and> re_match (glob_regex p) ?inp (i, []) \<noteq> [])"
    using assms(1) by (simp add: regexp_MatchString_def runes_ascii list_ex_upto Let_def del: upt_Suc)
  ultimately show ?thesis
    unfolding start by blast
qed

section \<open>The expressions that patterns compile to\<close>

text \<open>Patterns over letters, digits, \<open>-\<close>, \<open>.\<close> and the wildcard, which is what a namespace
  pattern is made of, and the regular expression text each character is translated to.\<close>

definition plain_char :: "char \<Rightarrow> bool" where
  "plain_char c \<longleftrightarrow> is_alnum (of_char c) \<or> c = CHR ''-'' \<or> c = CHR ''.'' \<or> c = CHR ''*''"

definition plain_pattern :: "string \<Rightarrow> bool" where
  "plain_pattern p \<longleftrightarrow> list_all plain_char p"

definition glob_text :: "char \<Rightarrow> string" where
  "glob_text c =
     (if c = CHR ''.'' then [CHR 0x5C, CHR ''.'']
      else if c = CHR ''*'' then [CHR ''.'', CHR ''*'']
      else [c])"

lemma of_char_consts:
  "of_char (CHR ''.'') = (46 :: nat)" "of_char (CHR ''*'') = (42 :: nat)" "of_char (CHR ''-'') = (45 :: nat)"
  "of_char (CHR 0x5C) = (92 :: nat)" "of_char (CHR ''^'') = (94 :: nat)" "of_char (CHR ''$'') = (36 :: nat)"
  by simp_all

lemma plain_char_ascii: "plain_char c \<Longrightarrow> of_char c < (128 :: nat)"
  by (auto simp: plain_char_def is_alnum_def is_digit_def)

lemma glob_text_ascii: "plain_pattern p \<Longrightarrow> ascii (concat (map glob_text p))"
  by (induction p) (auto simp: plain_pattern_def glob_text_def plain_char_ascii)

text \<open>One pattern character is read as its atom; the rest of the text follows.\<close>

lemma parse_step_plain:
  assumes "is_alnum c \<or> c = 45"
  shows "parse_step w st c t = Inr (push_re (RChar c) st, t)"
  using assms by (auto simp: parse_step_def is_alnum_def is_digit_def)

lemma parse_step_dot: "\<not> dotNL (flags st) \<Longrightarrow> parse_step w st 46 t = Inr (push_re RAnyNotNL st, t)"
  by (simp add: parse_step_def)

lemma parse_step_escaped_dot: "parse_step w st 92 (46 # t) = Inr (push_re (RChar 46) st, t)"
  by (simp add: parse_step_def parse_backslash_def parse_escape_def perl_class_def is_alnum_def is_digit_def)

lemma parse_step_star:
  assumes "\<not> nonGreedy (flags st)" and "lastRepeat st = None" and "cats st = r # rs" and "t = [] \<or> hd t \<noteq> 63"
  shows "parse_step w st 42 t = Inr (st\<lparr>cats := RStar True r # rs, lastRepeat := Some (42 # t)\<rparr>, t)"
  using assms by (auto simp: parse_step_def parse_op_def)

lemma parse_loop_glob_text:
  assumes "plain_char c" and "\<not> nonGreedy (flags st)" and "\<not> dotNL (flags st)"
    and "t = [] \<or> hd t \<noteq> 63"
  shows "\<exists>lr. parse_loop w st (map of_char (glob_text c) @ t) =
     parse_loop w (st\<lparr>cats := glob_atom c # cats st, lastRepeat := lr\<rparr>) t"
proof -
  consider "c = CHR ''.''" | "c = CHR ''*''" | "is_alnum (of_char c) \<or> c = CHR ''-''" "c \<noteq> CHR ''.''" "c \<noteq> CHR ''*''"
    using assms(1) by (auto simp: plain_char_def)
  then show ?thesis
  proof cases
    case 1
    then show ?thesis
      by (auto simp: glob_text_def glob_atom_def parse_step_escaped_dot push_re_def intro: exI [of _ None])
  next
    case 2
    then show ?thesis
      using assms(2-4)
      by (auto simp: glob_text_def glob_atom_def parse_step_dot parse_step_star push_re_def)
  next
    case 3
    then show ?thesis
      by (auto simp: glob_text_def glob_atom_def parse_step_plain push_re_def)
  qed
qed

lemma parse_loop_glob:
  assumes "plain_pattern p" and "\<not> nonGreedy (flags st)" and "\<not> dotNL (flags st)" and "\<not> multiLine (flags st)"
  shows "parse_loop w st (map of_char (concat (map glob_text p)) @ [36]) =
     (if frames st = []
      then Inr (collapse (st\<lparr>cats := REndText # rev (map glob_atom p) @ cats st\<rparr>), numCap st)
      else Inl (ErrMissingParen, w))"
  using assms
proof (induction p arbitrary: st)
  case Nil
  then show ?case by (simp add: parse_step_def push_re_def collapse_def)
next
  case (Cons c p)
  let ?t = "map of_char (concat (map glob_text p)) @ [36] :: rune list"
  have hd: "hd ?t \<noteq> 63"
    using Cons.prems(1)
    by (cases p) (auto simp: plain_pattern_def plain_char_def glob_text_def is_alnum_def is_digit_def)
  obtain lr where "parse_loop w st (map of_char (glob_text c) @ ?t) =
      parse_loop w (st\<lparr>cats := glob_atom c # cats st, lastRepeat := lr\<rparr>) ?t"
    using parse_loop_glob_text [of c st ?t w] Cons.prems hd by (auto simp: plain_pattern_def)
  then show ?case
    using Cons.IH [of "st\<lparr>cats := glob_atom c # cats st, lastRepeat := lr\<rparr>"] Cons.prems
    by (simp add: plain_pattern_def collapse_def)
qed

lemma valid_utf8_ascii: "ascii s \<Longrightarrow> valid_utf8 s"
  by (auto simp: valid_utf8_def segments_ascii list_all_iff rune_error_def ascii_def)

lemma regexp_Compile_glob:
  assumes "plain_pattern p"
  shows "regexp_Compile (''^'' @ concat (map glob_text p) @ ''$'') = Inr (glob_regex p, 0)"
proof -
  let ?s = "''^'' @ concat (map glob_text p) @ ''$''"
  have asc: "ascii ?s"
    using glob_text_ascii [OF assms] by simp
  then have utf: "valid_utf8 ?s"
    by (rule valid_utf8_ascii)
  have "regexp_Compile ?s =
      parse_loop (runes ?s) (push_re RBeginText init_pstate) (map of_char (concat (map glob_text p)) @ [36])"
    using asc utf by (simp add: regexp_Compile_def runes_ascii parse_step_def init_pstate_def perl_flags_def)
  also have "\<dots> = Inr (glob_regex p, 0)"
    using assms by (simp add: parse_loop_glob push_re_def init_pstate_def perl_flags_def collapse_def glob_regex_def)
  finally show ?thesis .
qed

section \<open>All matches\<close>

text \<open>A match does not end before it starts.\<close>

definition forward :: "(mstate \<Rightarrow> mstate list) \<Rightarrow> bool" where
  "forward f \<longleftrightarrow> (\<forall>s. list_all (\<lambda>t. fst s \<le> fst t) (f s))"

lemma forwardI: "(\<And>s. list_all (\<lambda>t. fst s \<le> fst t) (f s)) \<Longrightarrow> forward f"
  by (simp add: forward_def)

lemma forwardD: "forward f \<Longrightarrow> t \<in> set (f s) \<Longrightarrow> fst s \<le> fst t"
  unfolding forward_def list_all_iff by blast

lemma forward_pos: "forward f \<Longrightarrow> k \<le> fst s \<Longrightarrow> list_all (\<lambda>t. k \<le> fst t) (f s)"
  unfolding list_all_iff using forwardD le_trans by blast

lemma list_all_concat_map:
  "list_all (\<lambda>t. list_all P (g t)) xs \<Longrightarrow> list_all P (concat (map g xs))"
  by (induction xs) auto

lemma forward_seq:
  assumes "forward f" "forward g"
  shows "forward (\<lambda>s. concat (map g (f s)))"
proof (intro forwardI list_all_concat_map)
  fix s
  show "list_all (\<lambda>t. list_all (\<lambda>u. fst s \<le> fst u) (g t)) (f s)"
    unfolding list_all_iff [of _ "f s"] using forward_pos [OF assms(2)] forwardD [OF assms(1)] by blast
qed

lemma forward_quest: "forward f \<Longrightarrow> forward (match_quest g f)"
  by (auto intro!: forwardI simp: match_quest_def forward_pos)

lemma forward_loop: "forward f \<Longrightarrow> forward (match_loop n g f)"
proof (induction n)
  case (Suc n)
  let ?next = "\<lambda>s t. if fst s < fst t then match_loop n g f t else []"
  have "list_all (\<lambda>u. fst s \<le> fst u) (concat (map (?next s) (f s)))" for s
  proof (intro list_all_concat_map)
    show "list_all (\<lambda>t. list_all (\<lambda>u. fst s \<le> fst u) (?next s t)) (f s)"
      unfolding list_all_iff [of _ "f s"] using forward_pos [OF Suc.IH [OF Suc.prems]] by auto
  qed
  then show ?case
    by (intro forwardI) (simp add: Let_def)
qed (simp add: forward_def)

lemma forward_plus:
  assumes "forward f"
  shows "forward (match_plus n g f)"
  unfolding match_plus_def
proof (intro forwardI list_all_concat_map)
  fix s
  show "list_all (\<lambda>t. list_all (\<lambda>u. fst s \<le> fst u) (if fst s < fst t then match_loop n g f t else [t])) (f s)"
    unfolding list_all_iff [of _ "f s"]
    using forward_pos [OF forward_loop [OF assms]] forwardD [OF assms] by auto
qed

lemma forward_star: "forward f \<Longrightarrow> forward (match_star b n g f)"
  unfolding match_star_def using forward_quest [OF forward_plus] forward_loop by (simp add: forward_def)

lemma forward_times: "forward f \<Longrightarrow> forward (match_times n f)"
proof (induction n)
  case (Suc n)
  then show ?case
    using forward_seq [of f "match_times n f"] by (simp add: forward_def)
qed (simp add: forward_def)

lemma forward_opts: "forward f \<Longrightarrow> forward (match_opts n g f)"
proof (induction n)
  case (Suc n)
  then show ?case
    using forward_quest [OF forward_seq [of f "match_opts n g f"], of g] by (simp add: forward_def)
qed (simp add: forward_def)

lemma forward_re_match: "forward (re_match r inp)"
proof (induction r)
  case (RCat q r)
  then show ?case using forward_seq [of "re_match q inp" "re_match r inp"] by (simp add: forward_def)
next
  case (RAlt q r)
  then show ?case by (simp add: forward_def)
next
  case (RStar g r)
  then show ?case using forward_star by (simp add: forward_def)
next
  case (RPlus g r)
  then show ?case using forward_plus by (simp add: forward_def)
next
  case (RQuest g r)
  then show ?case using forward_quest by (simp add: forward_def)
next
  case (RRepeat mn mx g r)
  let ?f = "re_match r inp"
  note f = RRepeat.IH
  show ?case
  proof (cases mx)
    case None
    then show ?thesis
      using forward_star [OF f] forward_seq [OF forward_times [OF f] forward_plus [OF f]]
      by (intro forwardI) (auto simp: Let_def forward_def)
  next
    case (Some m)
    then show ?thesis
      using forward_seq [OF forward_times [OF f] forward_opts [OF f]] by (simp add: Let_def forward_def)
  qed
qed (simp_all add: forward_def one_rune_def empty_if_def list_all_length)

text \<open>The leftmost match at or after a position, as its start and end.\<close>

definition find_from :: "regex \<Rightarrow> rune list \<Rightarrow> nat \<Rightarrow> (nat \<times> nat) option" where
  "find_from r inp pos =
     (case List.find (\<lambda>i. re_match r inp (i, []) \<noteq> []) [pos..<Suc (length inp)] of
        None \<Rightarrow> None
      | Some i \<Rightarrow> Some (i, fst (hd (re_match r inp (i, [])))))"

lemma find_from_bounds:
  assumes "find_from r inp pos = Some (i, j)"
  shows "pos \<le> i \<and> i \<le> j \<and> i \<le> length inp"
proof -
  have found: "List.find (\<lambda>i. re_match r inp (i, []) \<noteq> []) [pos..<Suc (length inp)] = Some i"
    and j: "j = fst (hd (re_match r inp (i, [])))"
    using assms by (auto simp: find_from_def simp del: upt_Suc split: option.splits)
  obtain k where "k < length [pos..<Suc (length inp)]" "i = [pos..<Suc (length inp)] ! k" "re_match r inp (i, []) \<noteq> []"
    using found unfolding find_Some_iff by blast
  then have "i \<in> set [pos..<Suc (length inp)]" "re_match r inp (i, []) \<noteq> []"
    by (metis nth_mem, blast)
  moreover from this(2) have "i \<le> j"
    using forwardD [OF forward_re_match, of _ r inp "(i, [])"] j by (metis fst_conv hd_in_set)
  ultimately show ?thesis
    by auto
qed
text \<open>The loop of \<open>re.FindAllString(s, -1)\<close>: an empty match directly after the previous match is
  dropped, and the search goes on after the match, one rune further after an empty one.\<close>

function all_matches :: "regex \<Rightarrow> rune list \<Rightarrow> nat \<Rightarrow> nat option \<Rightarrow> (nat \<times> nat) list" where
  "all_matches r inp pos prevEnd =
     (if length inp < pos then []
      else (case find_from r inp pos of
          None \<Rightarrow> []
        | Some (i, j) \<Rightarrow>
            if j = pos
            then (if Some i = prevEnd then [] else [(i, j)]) @ all_matches r inp (pos + 1) (Some j)
            else (i, j) # all_matches r inp j (Some j)))"
  by pat_completeness auto
termination
  by (relation "measure (\<lambda>(r, inp, pos, _). Suc (length inp) - pos)") (auto dest!: find_from_bounds)

declare all_matches.simps [simp del]

definition regexp_FindAllString :: "regexp \<Rightarrow> string \<Rightarrow> string list" where
  "regexp_FindAllString re s = map (\<lambda>(i, j). sub_text s i j) (all_matches (fst re) (runes s) 0 None)"

end
