(* ===== verification/Identifiers.thy ===== *)
theory Identifiers
  imports Regexp_Match
begin

text \<open>
  Package \<open>valueobject\<close> (internal/domain/valueobject/identifiers.go): the identities of
  sources and mirrors, and the sets of namespaces that replication annotations and rules describe.
\<close>

section \<open>Identities\<close>

record SourceID =
  sourceNamespace :: string
  sourceName :: string

definition NewSourceID :: "string \<Rightarrow> string \<Rightarrow> SourceID" where
  "NewSourceID namespace name = \<lparr>sourceNamespace = namespace, sourceName = name\<rparr>"

definition SourceID_String :: "SourceID \<Rightarrow> string" where
  "SourceID_String s = sourceNamespace s @ ''/'' @ sourceName s"

definition SourceID_Equals :: "SourceID \<Rightarrow> SourceID \<Rightarrow> bool" where
  "SourceID_Equals s other \<longleftrightarrow> sourceNamespace s = sourceNamespace other \<and> sourceName s = sourceName other"

record MirrorID =
  mirrorIDNamespace :: string
  mirrorIDName :: string

definition NewMirrorID :: "string \<Rightarrow> string \<Rightarrow> MirrorID" where
  "NewMirrorID namespace name = \<lparr>mirrorIDNamespace = namespace, mirrorIDName = name\<rparr>"

definition MirrorID_String :: "MirrorID \<Rightarrow> string" where
  "MirrorID_String m = mirrorIDNamespace m @ ''/'' @ mirrorIDName m"

definition MirrorID_Equals :: "MirrorID \<Rightarrow> MirrorID \<Rightarrow> bool" where
  "MirrorID_Equals m other \<longleftrightarrow>
     mirrorIDNamespace m = mirrorIDNamespace other \<and> mirrorIDName m = mirrorIDName other"

lemma SourceID_Equals_iff [simp]: "SourceID_Equals a b \<longleftrightarrow> a = b"
  by (auto simp: SourceID_Equals_def)

lemma MirrorID_Equals_iff [simp]: "MirrorID_Equals a b \<longleftrightarrow> a = b"
  by (auto simp: MirrorID_Equals_def)

lemma NewSourceID_sel [simp]:
  "sourceNamespace (NewSourceID ns n) = ns" "sourceName (NewSourceID ns n) = n"
  "NewSourceID ns n = NewSourceID ns' n' \<longleftrightarrow> ns = ns' \<and> n = n'"
  by (simp_all add: NewSourceID_def)

lemma NewSourceID_collapse [simp]: "NewSourceID (sourceNamespace sid) (sourceName sid) = sid"
  by (simp add: NewSourceID_def)

lemma NewMirrorID_sel [simp]:
  "mirrorIDNamespace (NewMirrorID ns n) = ns" "mirrorIDName (NewMirrorID ns n) = n"
  "NewMirrorID ns n = NewMirrorID ns' n' \<longleftrightarrow> ns = ns' \<and> n = n'"
  by (simp_all add: NewMirrorID_def)

lemma NewMirrorID_eq_iff [simp]:
  "NewMirrorID ns n = (i :: MirrorID) \<longleftrightarrow> ns = mirrorIDNamespace i \<and> n = mirrorIDName i"
  "(i :: MirrorID) = NewMirrorID ns n \<longleftrightarrow> mirrorIDNamespace i = ns \<and> mirrorIDName i = n"
  by (auto simp: NewMirrorID_def)

section \<open>Namespace patterns\<close>

record AllowedNamespaces =
  patterns :: "string list"
  regexes :: "regexp list"
  isAll :: bool

text \<open>The zero value \<open>AllowedNamespaces{}\<close>.\<close>

definition AllowedNamespaces_zero :: AllowedNamespaces where
  "AllowedNamespaces_zero = \<lparr>patterns = [], regexes = [], isAll = False\<rparr>"

definition pattern_regex :: "string \<Rightarrow> string" where
  "pattern_regex pattern =
     (let r1 = strings_ReplaceAll pattern ''.'' [CHR 0x5C, CHR ''.''];
          r2 = strings_ReplaceAll r1 ''*'' ''.*'';
          r3 = strings_ReplaceAll r2 ''['' ''('';
          r4 = strings_ReplaceAll r3 '']'' '')''
      in ''^'' @ r4 @ ''$'')"

fun add_patterns :: "string list \<Rightarrow> AllowedNamespaces \<Rightarrow> (string \<times> re_error) + AllowedNamespaces" where
  "add_patterns [] an = Inr an"
| "add_patterns (p # ps) an =
     (let pattern = strings_TrimSpace p in
      if pattern = [] then add_patterns ps an
      else if pattern = ''*'' then Inr (an\<lparr>isAll := True\<rparr>)
      else (case regexp_Compile (pattern_regex pattern) of
          Inl e \<Rightarrow> Inl (pattern, e)
        | Inr re \<Rightarrow>
            add_patterns ps (an\<lparr>patterns := patterns an @ [pattern], regexes := regexes an @ [re]\<rparr>)))"

text \<open>The constructor and its error. Every caller drops the error and keeps the value returned
  with it, which is the zero value: \<open>AllowedNamespaces_or_zero\<close> is \<open>an, _ := New(..)\<close>.\<close>

definition NewAllowedNamespaces :: "string list \<Rightarrow> (string \<times> re_error) + AllowedNamespaces" where
  "NewAllowedNamespaces ps = add_patterns ps AllowedNamespaces_zero"

definition AllowedNamespaces_or_zero :: "string list \<Rightarrow> AllowedNamespaces" where
  "AllowedNamespaces_or_zero ps =
     (case NewAllowedNamespaces ps of Inl _ \<Rightarrow> AllowedNamespaces_zero | Inr an \<Rightarrow> an)"

definition Matches :: "AllowedNamespaces \<Rightarrow> string \<Rightarrow> bool" where
  "Matches an namespace \<longleftrightarrow>
     (if isAll an then True else list_ex (\<lambda>re. regexp_MatchString re namespace) (regexes an))"

definition IsEmpty :: "AllowedNamespaces \<Rightarrow> bool" where
  "IsEmpty an \<longleftrightarrow> length (patterns an) = 0 \<and> \<not> isAll an"

definition ParseAllowedNamespacesAnnotation :: "string \<Rightarrow> string list" where
  "ParseAllowedNamespacesAnnotation value =
     (if value = [] \<or> value = ''*'' then [''*'']
      else filter (\<lambda>p. p \<noteq> []) (map strings_TrimSpace (strings_Split value (CHR '',''))))"

section \<open>What the constructor builds\<close>

text \<open>A set is well formed when every pattern has its expression.\<close>

definition wf_allowed :: "AllowedNamespaces \<Rightarrow> bool" where
  "wf_allowed an \<longleftrightarrow> list_all2 (\<lambda>p re. regexp_Compile (pattern_regex p) = Inr re) (patterns an) (regexes an)"

lemma add_patterns_wf:
  "wf_allowed an \<Longrightarrow> add_patterns ps an = Inr an' \<Longrightarrow> wf_allowed an'"
  by (induction ps an rule: add_patterns.induct)
    (auto simp: wf_allowed_def Let_def list_all2_appendI split: if_splits sum.splits)

lemma NewAllowedNamespaces_wf: "NewAllowedNamespaces ps = Inr an \<Longrightarrow> wf_allowed an"
  unfolding NewAllowedNamespaces_def
  by (rule add_patterns_wf) (auto simp: wf_allowed_def AllowedNamespaces_zero_def)

lemma Matches_zero [simp]: "\<not> Matches AllowedNamespaces_zero ns" "IsEmpty AllowedNamespaces_zero"
  by (auto simp: Matches_def IsEmpty_def AllowedNamespaces_zero_def)

lemma IsEmpty_no_match: "wf_allowed an \<Longrightarrow> IsEmpty an \<Longrightarrow> \<not> Matches an ns"
  by (auto simp: Matches_def IsEmpty_def wf_allowed_def)

lemma pattern_regex_plain:
  "plain_pattern p \<Longrightarrow> pattern_regex p = ''^'' @ concat (map glob_text p) @ ''$''"
proof -
  assume p: "plain_pattern p"
  have "concat (map (\<lambda>c. if c = d then new else [c]) q) = q" if "d \<notin> set q" for d new and q :: string
    using that by (induction q) auto
  then have brackets: "strings_ReplaceAll q [d] new = q" if "d \<notin> set q" for d new and q :: string
    using that by (simp add: strings_ReplaceAll_char)
  have dots: "strings_ReplaceAll (strings_ReplaceAll p ''.'' [CHR 0x5C, CHR ''.'']) ''*'' ''.*'' =
      concat (map glob_text p)"
    by (induction p) (auto simp: strings_ReplaceAll_char glob_text_def)
  have "CHR ''['' \<notin> set (concat (map glob_text p))" "CHR '']'' \<notin> set (concat (map glob_text p))"
    using p by (induction p) (auto simp: plain_pattern_def plain_char_def glob_text_def is_alnum_def is_digit_def)
  then show ?thesis
    by (simp add: pattern_regex_def dots brackets)
qed

text \<open>What a Kubernetes namespace name is made of (an RFC 1123 label).\<close>

definition dns_label :: "string \<Rightarrow> bool" where
  "dns_label s \<longleftrightarrow> s \<noteq> [] \<and> list_all (\<lambda>c. is_alnum (of_char c) \<or> c = CHR ''-'') s"

lemma dns_label_text: "dns_label s \<Longrightarrow> ascii s \<and> CHR 0x0A \<notin> set s \<and> CHR ''/'' \<notin> set s"
  by (auto simp: dns_label_def list_all_iff ascii_def is_alnum_def is_digit_def)

lemma glob_star: "glob ''*'' s"
  by (simp add: list_ex_upto del: upt_Suc) blast

lemma plain_pattern_match:
  assumes "plain_pattern p" and "dns_label ns"
  obtains re where "regexp_Compile (pattern_regex p) = Inr re" and "regexp_MatchString re ns \<longleftrightarrow> glob p ns"
  using assms regexp_Compile_glob [of p] regexp_MatchString_glob [of ns p 0]
  by (auto simp: pattern_regex_plain dest: dns_label_text)

lemma add_patterns_glob:
  assumes "\<forall>p \<in> set ps. plain_pattern (strings_TrimSpace p)" and "dns_label ns"
  shows "\<exists>an'. add_patterns ps an = Inr an' \<and>
     (Matches an' ns \<longleftrightarrow>
        Matches an ns \<or> (\<exists>p \<in> set ps. strings_TrimSpace p \<noteq> [] \<and> glob (strings_TrimSpace p) ns))"
  using assms(1)
proof (induction ps arbitrary: an)
  case (Cons p ps)
  let ?p = "strings_TrimSpace p"
  consider "?p = []" | "?p = ''*''" | "?p \<noteq> []" "?p \<noteq> ''*''" by blast
  then show ?case
  proof cases
    case 1
    with Cons show ?thesis by simp
  next
    case 2
    then show ?thesis
      using glob_star [of ns] by (auto simp: Matches_def)
  next
    case 3
    from Cons.prems have "plain_pattern ?p" by simp
    then obtain re where re: "regexp_Compile (pattern_regex ?p) = Inr re" "regexp_MatchString re ns \<longleftrightarrow> glob ?p ns"
      using assms(2) by (rule plain_pattern_match)
    let ?an = "an\<lparr>patterns := patterns an @ [?p], regexes := regexes an @ [re]\<rparr>"
    have "Matches ?an ns \<longleftrightarrow> Matches an ns \<or> glob ?p ns"
      using re(2) by (auto simp: Matches_def)
    moreover have "add_patterns (p # ps) an = add_patterns ps ?an"
      using 3 re(1) by (simp add: Let_def)
    ultimately show ?thesis
      using Cons.IH [of ?an] Cons.prems 3(1) by auto
  qed
qed simp

text \<open>The first element of a list with a property, all before it having another.\<close>

definition first_bad :: "('a \<Rightarrow> bool) \<Rightarrow> ('a \<Rightarrow> bool) \<Rightarrow> 'a list \<Rightarrow> bool" where
  "first_bad good bad xs \<longleftrightarrow> (\<exists>ys x zs. xs = ys @ x # zs \<and> bad x \<and> list_all good ys)"

lemma first_bad_Nil [simp]: "\<not> first_bad good bad []"
  by (simp add: first_bad_def)

lemma first_bad_Cons [simp]:
  "first_bad good bad (x # xs) \<longleftrightarrow> bad x \<or> good x \<and> first_bad good bad xs"
proof
  assume "first_bad good bad (x # xs)"
  then obtain ys y zs where *: "x # xs = ys @ y # zs" "bad y" "list_all good ys"
    unfolding first_bad_def by blast
  then show "bad x \<or> good x \<and> first_bad good bad xs"
    by (cases ys) (auto simp: first_bad_def)
next
  assume "bad x \<or> good x \<and> first_bad good bad xs"
  then consider "bad x" | ys y zs where "good x" "xs = ys @ y # zs" "bad y" "list_all good ys"
    unfolding first_bad_def by blast
  then show "first_bad good bad (x # xs)"
  proof cases
    case 1
    then show ?thesis unfolding first_bad_def by (intro exI [of _ "[]"]) auto
  next
    case 2
    then show ?thesis unfolding first_bad_def by (intro exI [of _ "x # ys"]) auto
  qed
qed

definition skipped_pattern :: "string \<Rightarrow> bool" where
  "skipped_pattern x \<longleftrightarrow> strings_TrimSpace x = [] \<or>
     strings_TrimSpace x \<noteq> ''*'' \<and> \<not> isl (regexp_Compile (pattern_regex (strings_TrimSpace x)))"

definition failing_pattern :: "string \<times> re_error \<Rightarrow> string \<Rightarrow> bool" where
  "failing_pattern err x \<longleftrightarrow> fst err = strings_TrimSpace x \<and> fst err \<noteq> [] \<and> fst err \<noteq> ''*'' \<and>
     regexp_Compile (pattern_regex (fst err)) = Inl (snd err)"

lemma add_patterns_error:
  "add_patterns ps an = Inl err \<longleftrightarrow> first_bad skipped_pattern (failing_pattern err) ps"
  by (induction ps an rule: add_patterns.induct)
    (cases err; auto simp: skipped_pattern_def failing_pattern_def Let_def split: sum.splits)+

section \<open>Properties\<close>



text \<open>The replicate-to annotation round trip: the comma-separated list of patterns that are
  non-empty, free of commas and trimmed parses back to the same patterns, in order.\<close>

theorem parse_annotation_roundtrip:
  assumes "ps \<noteq> []" and "\<forall>p \<in> set ps. p \<noteq> [] \<and> trimmed p \<and> CHR '','' \<notin> set p"
  shows "ParseAllowedNamespacesAnnotation (strings_Join ps '','') = ps"
proof -
  have split: "strings_Split (strings_Join ps '','') (CHR '','') = ps"
    using assms by (intro strings_Split_Join) auto
  have kept: "filter (\<lambda>p. p \<noteq> []) (map strings_TrimSpace ps) = ps"
    using assms(2) by (induction ps) (auto simp: trimmed_def)
  have "strings_Join ps '','' \<noteq> []"
    using assms split by (metis list.set_intros(1) strings_Split.simps(1))
  moreover have "strings_Join ps '','' = ''*'' \<Longrightarrow> ps = [''*'']"
    using split by simp
  ultimately show ?thesis
    using split kept by (auto simp: ParseAllowedNamespacesAnnotation_def)
qed

theorem parse_annotation_roundtrip_witness:
  "ParseAllowedNamespacesAnnotation (strings_Join [''dev-*'', ''ci''] '','') = [''dev-*'', ''ci'']"
  by (rule parse_annotation_roundtrip)
    (simp_all add: trimmed_def strings_TrimSpace_ascii trim_both_def unicode_IsSpace_def)

text \<open>When \<open>NewAllowedNamespaces\<close> fails: exactly when a non-blank pattern other than
  \<open>*\<close> does not compile and every pattern before it is blank or compiles and is not \<open>*\<close>.
  Patterns after a \<open>*\<close> are never compiled, so they are never reported.\<close>

theorem allowed_namespaces_error:
  "NewAllowedNamespaces ps = Inl err \<longleftrightarrow> first_bad skipped_pattern (failing_pattern err) ps"
  by (simp add: NewAllowedNamespaces_def add_patterns_error)

end
