(* ===== verification/Go_Time.thy ===== *)
theory Go_Time
  imports Go_Strings
begin

text \<open>
  Package \<open>time\<close>: an instant is a number of nanoseconds since the Unix epoch, a
  \<open>time.Duration\<close> is a signed 64-bit number of nanoseconds, and \<open>t.Sub(u)\<close> saturates at
  the ends of that range. \<open>time.RFC3339\<close> is the layout of the replicated-at annotation.
\<close>

type_synonym gotime = int
type_synonym duration = int

definition max_duration :: duration where
  "max_duration = 2 ^ 63 - 1"

definition min_duration :: duration where
  "min_duration = - (2 ^ 63)"

definition time_Sub :: "gotime \<Rightarrow> gotime \<Rightarrow> duration" where
  "time_Sub t u = max min_duration (min max_duration (t - u))"

text \<open>Decimal numerals, with at least \<open>w\<close> digits for \<open>pad\<close>.\<close>

function dec_nat :: "nat \<Rightarrow> string" where
  "dec_nat n = (if n < 10 then [char_of (48 + n)] else dec_nat (n div 10) @ [char_of (48 + n mod 10)])"
  by pat_completeness auto
termination
  by (relation "measure id") auto

declare dec_nat.simps [simp del]

definition dec_int :: "int \<Rightarrow> string" where
  "dec_int i = (if i < 0 then ''-'' @ dec_nat (nat (- i)) else dec_nat (nat i))"

definition pad :: "nat \<Rightarrow> int \<Rightarrow> string" where
  "pad w i =
     (let ds = dec_nat (nat \<bar>i\<bar>)
      in (if i < 0 then ''-'' else '''') @ replicate (w - length ds) (CHR ''0'') @ ds)"

text \<open>The civil date of a day number: year, month, day.\<close>

definition civil :: "int \<Rightarrow> int \<times> int \<times> int" where
  "civil days =
     (let z = days + 719468;
          era = z div 146097;
          doe = z mod 146097;
          yoe = (doe - doe div 1460 + doe div 36524 - doe div 146096) div 365;
          doy = doe - (365 * yoe + yoe div 4 - yoe div 100);
          mp = (5 * doy + 2) div 153;
          d = doy - (153 * mp + 2) div 5 + 1;
          m = (if mp < 10 then mp + 3 else mp - 9)
      in (yoe + era * 400 + (if m \<le> 2 then 1 else 0), m, d))"

text \<open>\<open>t.UTC().Format(time.RFC3339)\<close>.\<close>

definition format_RFC3339 :: "gotime \<Rightarrow> string" where
  "format_RFC3339 t =
     (let secs = t div 1000000000;
          (y, m, d) = civil (secs div 86400);
          sod = secs mod 86400
      in pad 4 y @ ''-'' @ pad 2 m @ ''-'' @ pad 2 d @ ''T'' @
         pad 2 (sod div 3600) @ '':'' @ pad 2 (sod div 60 mod 60) @ '':'' @ pad 2 (sod mod 60) @ ''Z'')"

lemma time_Sub_range: "min_duration \<le> time_Sub t u" "time_Sub t u \<le> max_duration"
  by (auto simp: time_Sub_def min_duration_def max_duration_def)

lemma dec_nat_nonempty [simp]: "dec_nat n \<noteq> []"
  by (subst dec_nat.simps) simp

lemma format_RFC3339_nonempty [simp]: "format_RFC3339 t \<noteq> []"
  by (simp add: format_RFC3339_def Let_def split: prod.splits)

text \<open>Arithmetic on \<open>int64\<close> wraps around.\<close>

definition wrap64 :: "int \<Rightarrow> int" where
  "wrap64 i = (i + 2 ^ 63) mod 2 ^ 64 - 2 ^ 63"

lemma wrap64_range: "- (2 ^ 63) \<le> wrap64 i" "wrap64 i < 2 ^ 63"
  by (simp_all add: wrap64_def)

lemma wrap64_id: "- (2 ^ 63) \<le> i \<Longrightarrow> i < 2 ^ 63 \<Longrightarrow> wrap64 i = i"
  by (simp add: wrap64_def)

lemma wrap64_eq_iff: "wrap64 i = i \<longleftrightarrow> - (2 ^ 63) \<le> i \<and> i < 2 ^ 63"
  using wrap64_range [of i] wrap64_id [of i] by auto

text \<open>Conversion to \<open>int32\<close>.\<close>

definition wrap32 :: "int \<Rightarrow> int" where
  "wrap32 i = (i + 2 ^ 31) mod 2 ^ 32 - 2 ^ 31"

lemma wrap32_id: "- (2 ^ 31) \<le> i \<Longrightarrow> i < 2 ^ 31 \<Longrightarrow> wrap32 i = i"
  by (simp add: wrap32_def)

end
