(* ===== verification/Resource.thy ===== *)
theory Resource
  imports Identifiers Go_Time
begin

text \<open>
  Package \<open>entity\<close> (internal/domain/entity/resource.go): mirrors, sources and namespaces. A getter
  is the record field it reads; a setter is a function that returns the changed record.
\<close>

section \<open>Resource types\<close>

type_synonym ResourceType = string

definition ResourceTypeSecret :: ResourceType where
  "ResourceTypeSecret = ''Secret''"

definition ResourceTypeConfigMap :: ResourceType where
  "ResourceTypeConfigMap = ''ConfigMap''"

lemma ResourceType_distinct [simp]:
  "ResourceTypeSecret \<noteq> ResourceTypeConfigMap" "ResourceTypeConfigMap \<noteq> ResourceTypeSecret"
  by (simp_all add: ResourceTypeSecret_def ResourceTypeConfigMap_def)

text \<open>The name and namespace that \<open>ToObjectMeta\<close> fills in.\<close>

record ObjectMeta =
  metaName :: string
  metaNamespace :: string

section \<open>Mirrors\<close>

record Mirror =
  mirror_id :: MirrorID
  mirror_sourceID :: SourceID
  mirror_namespace :: string
  mirror_name :: string
  mirror_resourceType :: ResourceType
  mirror_version :: string
  mirror_enabled :: bool
  mirror_isAutoCreated :: bool
  mirror_reflectedAt :: string

definition NewMirror :: "MirrorID \<Rightarrow> SourceID \<Rightarrow> string \<Rightarrow> string \<Rightarrow> ResourceType \<Rightarrow> Mirror" where
  [record_defs]: "NewMirror i sourceID namespace name resourceType =
     \<lparr>mirror_id = i, mirror_sourceID = sourceID, mirror_namespace = namespace, mirror_name = name,
      mirror_resourceType = resourceType, mirror_version = '''', mirror_enabled = True,
      mirror_isAutoCreated = False, mirror_reflectedAt = ''''\<rparr>"

definition NewAutoMirror :: "MirrorID \<Rightarrow> SourceID \<Rightarrow> string \<Rightarrow> string \<Rightarrow> ResourceType \<Rightarrow> Mirror" where
  [record_defs]: "NewAutoMirror i sourceID namespace name resourceType =
     (NewMirror i sourceID namespace name resourceType)\<lparr>mirror_isAutoCreated := True\<rparr>"

definition Mirror_SetVersion :: "string \<Rightarrow> Mirror \<Rightarrow> Mirror" where
  [record_defs]: "Mirror_SetVersion v m = m\<lparr>mirror_version := v\<rparr>"

definition Mirror_Disable :: "Mirror \<Rightarrow> Mirror" where
  [record_defs]: "Mirror_Disable m = m\<lparr>mirror_enabled := False\<rparr>"

definition Mirror_Enable :: "Mirror \<Rightarrow> Mirror" where
  [record_defs]: "Mirror_Enable m = m\<lparr>mirror_enabled := True\<rparr>"

definition Mirror_SetAutoCreated :: "bool \<Rightarrow> Mirror \<Rightarrow> Mirror" where
  [record_defs]: "Mirror_SetAutoCreated isAuto m = m\<lparr>mirror_isAutoCreated := isAuto\<rparr>"

definition Mirror_SetReflectedAt :: "string \<Rightarrow> Mirror \<Rightarrow> Mirror" where
  [record_defs]: "Mirror_SetReflectedAt t m = m\<lparr>mirror_reflectedAt := t\<rparr>"

definition Mirror_SetReflectedAtTime :: "gotime \<Rightarrow> Mirror \<Rightarrow> Mirror" where
  [record_defs]: "Mirror_SetReflectedAtTime t m = m\<lparr>mirror_reflectedAt := format_RFC3339 t\<rparr>"

definition Mirror_FullName :: "Mirror \<Rightarrow> string" where
  "Mirror_FullName m = mirror_namespace m @ ''/'' @ mirror_name m"

definition Mirror_ToObjectMeta :: "Mirror \<Rightarrow> ObjectMeta" where
  "Mirror_ToObjectMeta m = \<lparr>metaName = mirror_name m, metaNamespace = mirror_namespace m\<rparr>"

section \<open>Sources\<close>

record Source =
  source_id :: SourceID
  source_namespace :: string
  source_name :: string
  source_targetName :: string
  source_resourceType :: ResourceType
  source_allowed :: bool
  source_allowedNamespaces :: AllowedNamespaces
  source_autoEnabled :: bool
  source_autoNamespaces :: AllowedNamespaces
  source_version :: string
  source_enabled :: bool

definition NewSource :: "string \<Rightarrow> string \<Rightarrow> ResourceType \<Rightarrow> Source" where
  [record_defs]: "NewSource namespace name resourceType =
     \<lparr>source_id = NewSourceID namespace name, source_namespace = namespace, source_name = name,
      source_targetName = '''', source_resourceType = resourceType, source_allowed = False,
      source_allowedNamespaces = AllowedNamespaces_zero, source_autoEnabled = False,
      source_autoNamespaces = AllowedNamespaces_zero, source_version = '''', source_enabled = True\<rparr>"

definition TargetName :: "Source \<Rightarrow> string" where
  "TargetName s = (if source_targetName s \<noteq> '''' then source_targetName s else source_name s)"

definition SetTargetName :: "string \<Rightarrow> Source \<Rightarrow> Source" where
  [record_defs]: "SetTargetName name s = s\<lparr>source_targetName := name\<rparr>"

definition SetAllowed :: "bool \<Rightarrow> Source \<Rightarrow> Source" where
  [record_defs]: "SetAllowed allowed s = s\<lparr>source_allowed := allowed\<rparr>"

definition SetAllowedNamespaces :: "AllowedNamespaces \<Rightarrow> Source \<Rightarrow> Source" where
  [record_defs]: "SetAllowedNamespaces namespaces s = s\<lparr>source_allowedNamespaces := namespaces\<rparr>"

definition Source_Disable :: "Source \<Rightarrow> Source" where
  [record_defs]: "Source_Disable s = s\<lparr>source_enabled := False\<rparr>"

definition Source_Enable :: "Source \<Rightarrow> Source" where
  [record_defs]: "Source_Enable s = s\<lparr>source_enabled := True\<rparr>"

definition SetAutoEnabled :: "bool \<Rightarrow> Source \<Rightarrow> Source" where
  [record_defs]: "SetAutoEnabled enabled s = s\<lparr>source_autoEnabled := enabled\<rparr>"

definition SetAutoNamespaces :: "AllowedNamespaces \<Rightarrow> Source \<Rightarrow> Source" where
  [record_defs]: "SetAutoNamespaces namespaces s = s\<lparr>source_autoNamespaces := namespaces\<rparr>"

definition Source_SetVersion :: "string \<Rightarrow> Source \<Rightarrow> Source" where
  [record_defs]: "Source_SetVersion v s = s\<lparr>source_version := v\<rparr>"

definition Source_FullName :: "Source \<Rightarrow> string" where
  "Source_FullName s = source_namespace s @ ''/'' @ source_name s"

definition CanReflectToNamespace :: "Source \<Rightarrow> string \<Rightarrow> bool" where
  "CanReflectToNamespace s namespace \<longleftrightarrow>
     (if \<not> source_allowed s then False else Matches (source_allowedNamespaces s) namespace)"

definition CanAutoMirrorToNamespace :: "Source \<Rightarrow> string \<Rightarrow> bool" where
  "CanAutoMirrorToNamespace s namespace \<longleftrightarrow>
     (if \<not> source_autoEnabled s \<or> \<not> source_allowed s then False
      else if \<not> IsEmpty (source_autoNamespaces s) then Matches (source_autoNamespaces s) namespace
      else Matches (source_allowedNamespaces s) namespace)"

definition Source_ToObjectMeta :: "Source \<Rightarrow> ObjectMeta" where
  "Source_ToObjectMeta s = \<lparr>metaName = source_name s, metaNamespace = source_namespace s\<rparr>"

section \<open>Namespaces\<close>

record Namespace =
  ns_name :: string
  ns_deleted :: bool

definition NewNamespace :: "string \<Rightarrow> Namespace" where
  [record_defs]: "NewNamespace name = \<lparr>ns_name = name, ns_deleted = False\<rparr>"

definition MarkDeleted :: "Namespace \<Rightarrow> Namespace" where
  [record_defs]: "MarkDeleted ns = ns\<lparr>ns_deleted := True\<rparr>"

section \<open>Invariants\<close>

text \<open>The identity a source or a mirror was created with names its own namespace and name.\<close>

definition wf_source :: "Source \<Rightarrow> bool" where
  "wf_source s \<longleftrightarrow> source_id s = NewSourceID (source_namespace s) (source_name s) \<and>
     wf_allowed (source_allowedNamespaces s) \<and> wf_allowed (source_autoNamespaces s)"

definition wf_mirror :: "Mirror \<Rightarrow> bool" where
  "wf_mirror m \<longleftrightarrow> mirror_id m = NewMirrorID (mirror_namespace m) (mirror_name m)"

lemma wf_allowed_zero [simp]: "wf_allowed AllowedNamespaces_zero"
  by (simp add: wf_allowed_def AllowedNamespaces_zero_def)

lemma wf_allowed_or_zero [simp]: "wf_allowed (AllowedNamespaces_or_zero ps)"
  by (auto simp: AllowedNamespaces_or_zero_def NewAllowedNamespaces_wf split: sum.splits)

lemma wf_NewSource [simp]: "wf_source (NewSource ns n t)"
  by (simp add: wf_source_def record_defs)

lemma wf_source_setters [simp]:
  "wf_source (SetTargetName n s) = wf_source s" "wf_source (SetAllowed b s) = wf_source s"
  "wf_source (SetAutoEnabled b s) = wf_source s" "wf_source (Source_SetVersion v s) = wf_source s"
  "wf_source (Source_Enable s) = wf_source s" "wf_source (Source_Disable s) = wf_source s"
  "wf_source s \<Longrightarrow> wf_allowed an \<Longrightarrow> wf_source (SetAllowedNamespaces an s)"
  "wf_source s \<Longrightarrow> wf_allowed an \<Longrightarrow> wf_source (SetAutoNamespaces an s)"
  by (simp_all add: wf_source_def record_defs)

lemma wf_NewMirror [simp]:
  "wf_mirror (NewMirror (NewMirrorID ns n) sid ns n t)" "wf_mirror (NewAutoMirror (NewMirrorID ns n) sid ns n t)"
  by (simp_all add: wf_mirror_def record_defs)

lemma wf_mirror_setters [simp]:
  "wf_mirror (Mirror_SetVersion v m) = wf_mirror m" "wf_mirror (Mirror_SetAutoCreated b m) = wf_mirror m"
  "wf_mirror (Mirror_SetReflectedAt t m) = wf_mirror m" "wf_mirror (Mirror_Enable m) = wf_mirror m"
  "wf_mirror (Mirror_Disable m) = wf_mirror m" "wf_mirror (Mirror_SetReflectedAtTime u m) = wf_mirror m"
  by (simp_all add: wf_mirror_def record_defs)

lemma CanAutoMirror_allowed: "CanAutoMirrorToNamespace s ns \<Longrightarrow> source_allowed s \<and> source_autoEnabled s"
  by (auto simp: CanAutoMirrorToNamespace_def split: if_splits)

end
