(* ===== verification/Events.thy ===== *)
theory Events
  imports Resource
begin

text \<open>
  Package \<open>event\<close> (internal/domain/event/events.go, dispatcher.go): the domain events and the
  in-memory dispatcher. A handler is any function that may fail and may act on the world \<open>'w\<close>
  outside the program; errors are the \<open>go_error\<close> values that all components share.
\<close>

section \<open>Errors\<close>

text \<open>
  A Go error: an answer of the Kubernetes API, which \<open>apierrors.IsNotFound\<close> classifies, an error
  of the reflection service (by its message), a plain text, an error of \<open>regexp/syntax\<close>, and
  \<open>fmt.Errorf("msg: %w", err)\<close>, through which \<open>IsNotFound\<close> looks.
\<close>

datatype go_error =
    ApiNotFound string
  | ApiOther string
  | ReflectionError string
  | ErrorText string
  | SyntaxError re_error
  | Wrapped string go_error

fun IsNotFound :: "go_error \<Rightarrow> bool" where
  "IsNotFound (ApiNotFound _) = True"
| "IsNotFound (Wrapped _ e) = IsNotFound e"
| "IsNotFound _ = False"

section \<open>Events\<close>

datatype DomainEventType =
    EventTypeSourceDiscovered | EventTypeSourceUpdated | EventTypeSourceDeleted
  | EventTypeMirrorCreated | EventTypeMirrorUpdated | EventTypeMirrorDeleted
  | EventTypeReflectionCompleted | EventTypeReflectionFailed

record BaseEvent =
  eventType :: DomainEventType
  occurredAt :: gotime
  aggregateID :: string

definition NewBaseEvent :: "gotime \<Rightarrow> DomainEventType \<Rightarrow> string \<Rightarrow> BaseEvent" where
  "NewBaseEvent now t aid = \<lparr>eventType = t, occurredAt = now, aggregateID = aid\<rparr>"

datatype DomainEvent =
    SourceDiscoveredEvent BaseEvent Source
  | SourceUpdatedEvent BaseEvent Source
  | SourceDeletedEvent BaseEvent SourceID
  | MirrorCreatedEvent BaseEvent Mirror
  | MirrorUpdatedEvent BaseEvent Mirror
  | MirrorDeletedEvent BaseEvent MirrorID
  | ReflectionCompletedEvent BaseEvent SourceID MirrorID string
  | ReflectionFailedEvent BaseEvent SourceID MirrorID string

fun base_of :: "DomainEvent \<Rightarrow> BaseEvent" where
  "base_of (SourceDiscoveredEvent b _) = b"
| "base_of (SourceUpdatedEvent b _) = b"
| "base_of (SourceDeletedEvent b _) = b"
| "base_of (MirrorCreatedEvent b _) = b"
| "base_of (MirrorUpdatedEvent b _) = b"
| "base_of (MirrorDeletedEvent b _) = b"
| "base_of (ReflectionCompletedEvent b _ _ _) = b"
| "base_of (ReflectionFailedEvent b _ _ _) = b"

definition EventType :: "DomainEvent \<Rightarrow> DomainEventType" where
  "EventType e = eventType (base_of e)"

definition AggregateID :: "DomainEvent \<Rightarrow> string" where
  "AggregateID e = aggregateID (base_of e)"

definition OccurredAt :: "DomainEvent \<Rightarrow> gotime" where
  "OccurredAt e = occurredAt (base_of e)"

definition NewSourceDiscoveredEvent :: "gotime \<Rightarrow> Source \<Rightarrow> DomainEvent" where
  "NewSourceDiscoveredEvent now source =
     SourceDiscoveredEvent (NewBaseEvent now EventTypeSourceDiscovered (SourceID_String (source_id source))) source"

definition NewSourceUpdatedEvent :: "gotime \<Rightarrow> Source \<Rightarrow> DomainEvent" where
  "NewSourceUpdatedEvent now source =
     SourceUpdatedEvent (NewBaseEvent now EventTypeSourceUpdated (SourceID_String (source_id source))) source"

definition NewSourceDeletedEvent :: "gotime \<Rightarrow> SourceID \<Rightarrow> DomainEvent" where
  "NewSourceDeletedEvent now sid =
     SourceDeletedEvent (NewBaseEvent now EventTypeSourceDeleted (SourceID_String sid)) sid"

definition NewMirrorCreatedEvent :: "gotime \<Rightarrow> Mirror \<Rightarrow> DomainEvent" where
  "NewMirrorCreatedEvent now mirror =
     MirrorCreatedEvent (NewBaseEvent now EventTypeMirrorCreated (MirrorID_String (mirror_id mirror))) mirror"

definition NewMirrorUpdatedEvent :: "gotime \<Rightarrow> Mirror \<Rightarrow> DomainEvent" where
  "NewMirrorUpdatedEvent now mirror =
     MirrorUpdatedEvent (NewBaseEvent now EventTypeMirrorUpdated (MirrorID_String (mirror_id mirror))) mirror"

definition NewMirrorDeletedEvent :: "gotime \<Rightarrow> MirrorID \<Rightarrow> DomainEvent" where
  "NewMirrorDeletedEvent now mid =
     MirrorDeletedEvent (NewBaseEvent now EventTypeMirrorDeleted (MirrorID_String mid)) mid"

definition NewReflectionCompletedEvent :: "gotime \<Rightarrow> SourceID \<Rightarrow> MirrorID \<Rightarrow> string \<Rightarrow> DomainEvent" where
  "NewReflectionCompletedEvent now sid mid v =
     ReflectionCompletedEvent (NewBaseEvent now EventTypeReflectionCompleted (SourceID_String sid)) sid mid v"

definition NewReflectionFailedEvent :: "gotime \<Rightarrow> SourceID \<Rightarrow> MirrorID \<Rightarrow> string \<Rightarrow> DomainEvent" where
  "NewReflectionFailedEvent now sid mid msg =
     ReflectionFailedEvent (NewBaseEvent now EventTypeReflectionFailed (SourceID_String sid)) sid mid msg"

section \<open>The in-memory dispatcher\<close>

type_synonym 'w EventHandler = "DomainEvent \<Rightarrow> 'w \<Rightarrow> go_error option \<times> 'w"

record 'w InMemoryDispatcher =
  handlers :: "DomainEventType \<rightharpoonup> 'w EventHandler list"

definition NewInMemoryDispatcher :: "'w InMemoryDispatcher" where
  "NewInMemoryDispatcher = \<lparr>handlers = Map.empty\<rparr>"

fun run_handlers :: "'w EventHandler list \<Rightarrow> DomainEvent \<Rightarrow> 'w \<Rightarrow> go_error option \<times> 'w" where
  "run_handlers [] ev w = (None, w)"
| "run_handlers (h # hs) ev w =
     (case h ev w of (Some e, w') \<Rightarrow> (Some e, w') | (None, w') \<Rightarrow> run_handlers hs ev w')"

definition Dispatch :: "'w InMemoryDispatcher \<Rightarrow> DomainEvent \<Rightarrow> 'w \<Rightarrow> go_error option \<times> 'w" where
  "Dispatch d ev w =
     (case handlers d (EventType ev) of None \<Rightarrow> (None, w) | Some hs \<Rightarrow> run_handlers hs ev w)"

definition RegisterHandler :: "DomainEventType \<Rightarrow> 'w EventHandler \<Rightarrow> 'w InMemoryDispatcher \<Rightarrow> 'w InMemoryDispatcher" where
  "RegisterHandler t h d =
     d\<lparr>handlers := (handlers d)(t \<mapsto> (case handlers d t of None \<Rightarrow> [] | Some hs \<Rightarrow> hs) @ [h])\<rparr>"

lemma run_handlers_append:
  "run_handlers (hs @ ks) ev w =
     (case run_handlers hs ev w of (Some e, w') \<Rightarrow> (Some e, w') | (None, w') \<Rightarrow> run_handlers ks ev w')"
  by (induction hs arbitrary: w) (auto split: prod.splits option.splits)

lemma Dispatch_new [simp]: "Dispatch NewInMemoryDispatcher ev w = (None, w)"
  by (simp add: Dispatch_def NewInMemoryDispatcher_def)

text \<open>Dispatch order: a handler registered last runs exactly when every handler registered
  before it for the same type succeeded, on the world they left, and its result is the result of the
  dispatch; events of other types do not reach it.\<close>

theorem dispatch_after_register:
  "Dispatch (RegisterHandler t h d) ev w =
     (if EventType ev = t
      then (case Dispatch d ev w of (Some e, w') \<Rightarrow> (Some e, w') | (None, w') \<Rightarrow> h ev w')
      else Dispatch d ev w)"
  by (auto simp: Dispatch_def RegisterHandler_def run_handlers_append split: option.splits prod.splits)

end
