(* ===== verification/Reflection_Service.thy ===== *)
theory Reflection_Service
  imports Events
begin

text \<open>
  Package \<open>service\<close> (internal/domain/service/reflection.go): the domain rules of replication. The
  service talks to its event dispatcher through an interface and to the clock, so \<open>Reflect\<close>
  takes the functions \<open>clk\<close> and \<open>dispatch\<close> on a state \<open>'d\<close> as arguments; a mirror is
  passed by pointer, so the changed mirror is returned.
\<close>

section \<open>Errors\<close>

definition ErrSourceNotAllowed :: go_error where
  "ErrSourceNotAllowed = ReflectionError ''source does not allow reflection''"

definition ErrNamespaceNotAllowed :: go_error where
  "ErrNamespaceNotAllowed = ReflectionError ''target namespace is not in allowed list''"

definition ErrNoUpdateNeeded :: go_error where
  "ErrNoUpdateNeeded = ReflectionError ''mirror is already at current version''"

definition ErrNilSource :: go_error where
  "ErrNilSource = ReflectionError ''source cannot be nil''"

definition ErrEmptySourceName :: go_error where
  "ErrEmptySourceName = ReflectionError ''source name cannot be empty''"

definition ErrEmptySourceNamespace :: go_error where
  "ErrEmptySourceNamespace = ReflectionError ''source namespace cannot be empty''"

definition ErrNilMirror :: go_error where
  "ErrNilMirror = ReflectionError ''mirror cannot be nil''"

definition ErrEmptyMirrorName :: go_error where
  "ErrEmptyMirrorName = ReflectionError ''mirror name cannot be empty''"

definition ErrEmptyMirrorNamespace :: go_error where
  "ErrEmptyMirrorNamespace = ReflectionError ''mirror namespace cannot be empty''"

definition ErrMirrorSourceNotSet :: go_error where
  "ErrMirrorSourceNotSet = ReflectionError ''mirror source is not set''"

section \<open>Operations\<close>

definition Reflect ::
  "('d \<Rightarrow> gotime \<times> 'd) \<Rightarrow> (DomainEvent \<Rightarrow> 'd \<Rightarrow> go_error option \<times> 'd) \<Rightarrow> Source \<Rightarrow> Mirror \<Rightarrow> 'd \<Rightarrow>
   go_error option \<times> Mirror \<times> 'd"
where
  "Reflect clk dispatch source mirror d =
     (if \<not> source_allowed source then (Some ErrSourceNotAllowed, mirror, d)
      else if \<not> CanReflectToNamespace source (mirror_namespace mirror) then
        (Some ErrNamespaceNotAllowed, mirror, d)
      else if mirror_version mirror = source_version source then (Some ErrNoUpdateNeeded, mirror, d)
      else
        (let mirror' = Mirror_SetVersion (source_version source) mirror;
             (now, d1) = clk d;
             (err, d') = dispatch
               (NewReflectionCompletedEvent now (source_id source) (mirror_id mirror') (source_version source)) d1
         in (err, mirror', d')))"

definition CanCreateAutoMirror :: "Source \<Rightarrow> string \<Rightarrow> string \<Rightarrow> bool" where
  "CanCreateAutoMirror source targetNamespace targetName \<longleftrightarrow>
     (if \<not> CanAutoMirrorToNamespace source targetNamespace then False
      else if source_name source \<noteq> targetName then False
      else True)"

definition ShouldDeleteAutoMirror :: "Source \<Rightarrow> Mirror \<Rightarrow> bool" where
  "ShouldDeleteAutoMirror source mirror \<longleftrightarrow>
     (if \<not> SourceID_Equals (mirror_sourceID mirror) (source_id source) then True
      else if \<not> source_enabled source \<and> mirror_enabled mirror then True
      else if source_autoEnabled source \<and> \<not> CanAutoMirrorToNamespace source (mirror_namespace mirror) then True
      else False)"

text \<open>A pointer argument that may be nil is an option.\<close>

definition ValidateSource :: "Source option \<Rightarrow> go_error option" where
  "ValidateSource source =
     (case source of
        None \<Rightarrow> Some ErrNilSource
      | Some s \<Rightarrow>
          if source_name s = '''' then Some ErrEmptySourceName
          else if source_namespace s = '''' then Some ErrEmptySourceNamespace
          else None)"

definition ValidateMirror :: "Mirror option \<Rightarrow> go_error option" where
  "ValidateMirror mirror =
     (case mirror of
        None \<Rightarrow> Some ErrNilMirror
      | Some m \<Rightarrow>
          if mirror_name m = '''' then Some ErrEmptyMirrorName
          else if mirror_namespace m = '''' then Some ErrEmptyMirrorNamespace
          else if sourceNamespace (mirror_sourceID m) = '''' then Some ErrMirrorSourceNotSet
          else None)"

section \<open>Properties\<close>

lemma Reflect_refused:
  "\<not> source_allowed s \<Longrightarrow> Reflect clk dis s m d = (Some ErrSourceNotAllowed, m, d)"
  "source_allowed s \<Longrightarrow> \<not> CanReflectToNamespace s (mirror_namespace m) \<Longrightarrow>
     Reflect clk dis s m d = (Some ErrNamespaceNotAllowed, m, d)"
  "source_allowed s \<Longrightarrow> CanReflectToNamespace s (mirror_namespace m) \<Longrightarrow>
     mirror_version m = source_version s \<Longrightarrow> Reflect clk dis s m d = (Some ErrNoUpdateNeeded, m, d)"
  by (simp_all add: Reflect_def)

text \<open>Whatever happens, only the version of the mirror can change.\<close>

lemma Reflect_mirror:
  "\<exists>v. fst (snd (Reflect clk dis s m d)) = Mirror_SetVersion v m"
proof -
  have "Mirror_SetVersion (mirror_version m) m = m"
    by (simp add: Mirror_SetVersion_def)
  then show ?thesis
    by (auto simp: Reflect_def Let_def split: prod.splits) metis+
qed

text \<open>Replication needs permission: \<open>Reflect\<close> advances a mirror (changes it, or runs the
  dispatcher) only if the source is allowed, its allowed-namespace set contains the mirror's
  namespace and the mirror is at another version; otherwise it returns an error and leaves mirror and
  dispatcher as they were. When it accepts, the mirror ends at the source's version.\<close>

theorem Reflect_permission:
  "(let accepted = (source_allowed s \<and> Matches (source_allowedNamespaces s) (mirror_namespace m) \<and>
                    mirror_version m \<noteq> source_version s);
        (err, m', d') = Reflect clk dis s m d
    in if accepted then mirror_version m' = source_version s
       else m' = m \<and> d' = d \<and> err \<noteq> None)"
  by (auto simp: Reflect_def CanReflectToNamespace_def Mirror_SetVersion_def Let_def split: prod.splits)

text \<open>C25. Reflecting twice: once \<open>Reflect\<close> has accepted a mirror, a second call with the same
  source is refused with \<open>ErrNoUpdateNeeded\<close>, whether or not the first call returned an error
  from the dispatcher. The version is recorded before the data is written.\<close>

theorem Reflect_twice:
  assumes "source_allowed s" and "CanReflectToNamespace s (mirror_namespace m)"
    and "mirror_version m \<noteq> source_version s"
  shows "Reflect clk2 dis2 s (fst (snd (Reflect clk dis s m d))) d2 =
     (Some ErrNoUpdateNeeded, fst (snd (Reflect clk dis s m d)), d2)"
  using assms by (auto simp: Reflect_def Mirror_SetVersion_def Let_def split: prod.splits)

theorem Reflect_twice_witness:
  "(let s = SetAllowedNamespaces (AllowedNamespaces_zero\<lparr>isAll := True\<rparr>)
          (SetAllowed True (Source_SetVersion ''7'' (NewSource ''prod'' ''db'' ResourceTypeSecret)));
        m = NewMirror (NewMirrorID ''dev'' ''db'') (source_id s) ''dev'' ''db'' ResourceTypeSecret;
        m' = fst (snd (Reflect (\<lambda>d. (0, d)) (Dispatch NewInMemoryDispatcher) s m ()))
    in Reflect (\<lambda>d. (0, d)) (Dispatch NewInMemoryDispatcher) s m' () = (Some ErrNoUpdateNeeded, m', ()))"
  unfolding Let_def
  by (rule Reflect_twice) (simp_all add: record_defs CanReflectToNamespace_def Matches_def)

end
