(* ===== verification/K8s_Types.thy ===== *)
theory K8s_Types
  imports Events
begin

text \<open>
  The Kubernetes objects the program reads and writes, as far as it uses their fields.
\<close>

section \<open>Objects\<close>

type_synonym string_map = "string \<rightharpoonup> string"

record owner_reference =
  refAPIVersion :: string
  refKind :: string
  refName :: string
  refUID :: string
  refController :: bool

text \<open>\<open>metav1.ObjectMeta\<close>. Annotations are \<open>None\<close> for a nil map; byte slices are strings.\<close>

record k8s_object =
  Name :: string
  Namespace :: string
  Annotations :: "string_map option"
  Labels :: string_map
  ResourceVersion :: string
  UID :: string
  Finalizers :: "string list"
  OwnerReferences :: "owner_reference list"

record Secret = k8s_object +
  Data :: string_map
  Type :: string

record ConfigMap = k8s_object +
  cmData :: string_map
  BinaryData :: string_map

record Certificate = k8s_object +
  certSecretName :: string

record Ingress = k8s_object +
  tlsSecretNames :: "string list"

text \<open>\<open>obj.Annotations[key]\<close>: the empty string for a missing key, in a nil map too.\<close>

definition annotation :: "'a k8s_object_scheme \<Rightarrow> string \<Rightarrow> string" where
  "annotation obj key =
     (case Annotations obj of
        None \<Rightarrow> ''''
      | Some m \<Rightarrow> (case m key of None \<Rightarrow> '''' | Some v \<Rightarrow> v))"

definition empty_object :: k8s_object where
  "empty_object = \<lparr>Name = '''', Namespace = '''', Annotations = None, Labels = Map.empty, ResourceVersion = '''',
     UID = '''', Finalizers = [], OwnerReferences = []\<rparr>"

text \<open>A fresh Secret or ConfigMap with a name, a namespace and annotations.\<close>

definition new_Secret :: "string \<Rightarrow> string \<Rightarrow> string_map \<Rightarrow> string_map \<Rightarrow> string \<Rightarrow> Secret" where
  "new_Secret name namespace annots dat typ =
     \<lparr>Name = name, Namespace = namespace, Annotations = Some annots, Labels = Map.empty, ResourceVersion = '''',
      UID = '''', Finalizers = [], OwnerReferences = [], Data = dat, Type = typ\<rparr>"

definition new_ConfigMap :: "string \<Rightarrow> string \<Rightarrow> string_map \<Rightarrow> string_map \<Rightarrow> string_map \<Rightarrow> ConfigMap" where
  "new_ConfigMap name namespace annots dat bin =
     \<lparr>Name = name, Namespace = namespace, Annotations = Some annots, Labels = Map.empty, ResourceVersion = '''',
      UID = '''', Finalizers = [], OwnerReferences = [], cmData = dat, BinaryData = bin\<rparr>"

end
