(* ===== verification/Go_Calendar.thy ===== *)
theory Go_Calendar
  imports Go_Time
begin

text \<open>
  The Gregorian calendar behind package \<open>time\<close>: the days of the months, the day number of a date, and
  the proof that \<open>civil\<close> returns the date of a day number.
\<close>

section \<open>The calendar\<close>

definition leap :: "int \<Rightarrow> bool" where
  "leap y \<longleftrightarrow> y mod 4 = 0 \<and> (y mod 100 \<noteq> 0 \<or> y mod 400 = 0)"

definition daysIn :: "int \<Rightarrow> int \<Rightarrow> int" where
  "daysIn m y = (if m = 2 then (if leap y then 29 else 28) else if m \<in> {4, 6, 9, 11} then 30 else 31)"

text \<open>The day number that \<open>time.Date\<close> computes for a date.\<close>

definition day_number :: "int \<Rightarrow> int \<Rightarrow> int \<Rightarrow> int" where
  "day_number y m d =
     (let y' = (if m \<le> 2 then y - 1 else y);
          yoe = y' mod 400;
          mp = (m + 9) mod 12;
          doy = (153 * mp + 2) div 5 + d - 1
      in y' div 400 * 146097 + (365 * yoe + yoe div 4 - yoe div 100 + doy) - 719468)"

text \<open>A year of the 400-year cycle, counted from March, begins after this many days.\<close>

definition year_start :: "int \<Rightarrow> int" where
  "year_start y = 365 * y + y div 4 - y div 100 + y div 400"

definition year_of :: "int \<Rightarrow> int" where
  "year_of doe = (doe - doe div 1460 + doe div 36524 - doe div 146096) div 365"

lemma minus_div_mono: "0 < k \<Longrightarrow> a \<le> b \<Longrightarrow> a - a div k \<le> b - b div (k :: int)"
proof -
  assume k: "0 < k" and ab: "a \<le> b"
  have "(b - a) * 1 \<le> (b - a) * k"
    using k ab by (intro mult_left_mono) simp_all
  then have "b \<le> a + (b - a) * k"
    by simp
  then have "b div k \<le> (a + (b - a) * k) div k"
    using k by (rule zdiv_mono1)
  also have "\<dots> = a div k + (b - a)"
    using k by simp
  finally show ?thesis by simp
qed

lemma year_of_mono: "a \<le> b \<Longrightarrow> year_of a \<le> year_of b"
proof -
  assume ab: "a \<le> b"
  have "x div 146096 = x div 36524 div 4" for x :: int
    by (simp flip: zdiv_zmult2_eq)
  then have "year_of x = ((x - x div 1460) + (x div 36524 - x div 36524 div 4)) div 365" for x
    unfolding year_of_def by (simp only: diff_add_eq add_diff_eq)
  moreover have "a div 36524 \<le> b div 36524"
    using ab by (simp add: zdiv_mono1)
  ultimately show ?thesis
    using minus_div_mono [of 1460 a b] minus_div_mono [of 4 "a div 36524" "b div 36524"] ab
    by (simp only: zdiv_mono1 add_mono zero_less_numeral)
qed

text \<open>The boundaries of the 400 years, by computation.\<close>

lemma year_of_boundaries: "list_all (\<lambda>y. year_of (year_start y) = y \<and> year_of (year_start (y + 1) - 1) = y) [0..399]"
  by code_simp

lemma year_of_unique:
  assumes "0 \<le> y" "y < 400" "year_start y \<le> doe" "doe < year_start (y + 1)"
  shows "year_of doe = y"
proof -
  have "y \<in> set [0..399]"
    using assms(1,2) unfolding set_upto atLeastAtMost_iff by linarith
  then have "year_of (year_start y) = y" "year_of (year_start (y + 1) - 1) = y"
    using year_of_boundaries unfolding list_all_iff by blast+
  with year_of_mono [OF assms(3)] year_of_mono [of doe "year_start (y + 1) - 1"] assms(4) show ?thesis
    by simp
qed

lemma year_of_bounds:
  assumes "0 \<le> doe" "doe < 146097"
  shows "0 \<le> year_of doe" "year_of doe < 400" "year_start (year_of doe) \<le> doe" "doe < year_start (year_of doe + 1)"
proof -
  have "\<exists>y. 0 \<le> y \<and> y < int n \<and> year_start y \<le> doe \<and> doe < year_start (y + 1)" if "doe < year_start (int n)" for n
    using that
  proof (induction n)
    case 0
    then show ?case using assms(1) by (simp add: year_start_def)
  next
    case (Suc n)
    show ?case
    proof (cases "doe < year_start (int n)")
      case True
      then obtain y where "0 \<le> y" "y < int n" "year_start y \<le> doe" "doe < year_start (y + 1)"
        using Suc.IH by blast
      then show ?thesis by (intro exI [of _ y]) simp
    next
      case False
      with Suc.prems show ?thesis by (intro exI [of _ "int n"]) (simp add: add.commute)
    qed
  qed
  from this [of 400] have "doe < year_start 400 \<Longrightarrow> \<exists>y. 0 \<le> y \<and> y < 400 \<and> year_start y \<le> doe \<and> doe < year_start (y + 1)"
    by simp
  moreover have "doe < year_start 400"
    using assms(2) by (simp add: year_start_def)
  ultimately obtain y where y: "0 \<le> y" "y < 400" "year_start y \<le> doe" "doe < year_start (y + 1)"
    by blast
  with year_of_unique [OF this] show "0 \<le> year_of doe" "year_of doe < 400" "year_start (year_of doe) \<le> doe" "doe < year_start (year_of doe + 1)"
    by simp_all
qed

lemma next_div: "1 < k \<Longrightarrow> (y + 1) div k = y div k + (if (y + 1) mod k = 0 then 1 else 0)" for k :: int
proof -
  assume k: "1 < k"
  show ?thesis
  proof (cases "y mod k + 1 = k")
    case True
    moreover have "k * (y div k) + y mod k = y"
      by (rule mult_div_mod_eq)
    ultimately have "y + 1 = k * (y div k + 1)"
      unfolding distrib_left by linarith
    then have "(y + 1) div k = y div k + 1" "(y + 1) mod k = 0"
      using k by simp_all
    then show ?thesis
      by simp
  next
    case False
    have y: "y + 1 = k * (y div k) + (y mod k + 1)"
      by simp
    moreover have "0 \<le> y mod k + 1" "y mod k + 1 < k"
      using k False pos_mod_bound [of k y] pos_mod_sign [of k y] by linarith+
    ultimately have "(y + 1) div k = y div k" "(y + 1) mod k = y mod k + 1"
      by (rule int_div_pos_eq, rule int_mod_pos_eq)
    moreover have "0 \<le> y mod k"
      using k by simp
    ultimately show ?thesis
      by auto
  qed
qed

lemma mod_multiple: "x mod (a * b) = 0 \<Longrightarrow> x mod b = 0" for x :: int
  by (metis dvd_imp_mod_0 dvd_trans dvd_triv_right mod_0_imp_dvd)

lemma year_length: "year_start (y + 1) - year_start y = (if leap (y + 1) then 366 else 365)"
proof -
  let ?a = "(y + 1) mod 4 = 0" and ?b = "(y + 1) mod 100 = 0" and ?c = "(y + 1) mod 400 = 0"
  have "?b \<Longrightarrow> ?a" "?c \<Longrightarrow> ?b"
    using mod_multiple [of "y + 1" 25 4] mod_multiple [of "y + 1" 4 100] by simp_all
  then have length: "(if leap (y + 1) then 366 else (365 :: int)) = 365 + (if ?a then 1 else 0) - (if ?b then 1 else 0) + (if ?c then 1 else 0)"
    unfolding leap_def by (cases ?a; cases ?b; cases ?c) simp_all
  have nexts: "(y + 1) div 4 = y div 4 + (if ?a then 1 else 0)" "(y + 1) div 100 = y div 100 + (if ?b then 1 else 0)"
    "(y + 1) div 400 = y div 400 + (if ?c then 1 else 0)"
    by (rule next_div, simp)+
  have "365 * (y + 1) + (p + a) - (q + b) + (r + c) - (365 * y + p - q + r) = 365 + a - b + c" for p q r a b c :: int
    by simp
  then show ?thesis
    unfolding year_start_def nexts length .
qed

lemma leap_cycle [simp]: "leap (y + k * 400) = leap y"
proof -
  have "(y + k * 400) mod 4 = y mod 4"
    using mod_mult_self1 [of y "k * 100" 4] by (simp add: mult.commute)
  moreover have "(y + k * 400) mod 100 = y mod 100"
    using mod_mult_self1 [of y "k * 4" 100] by (simp add: mult.commute)
  moreover have "(y + k * 400) mod 400 = y mod 400"
    by simp
  ultimately show ?thesis
    by (simp add: leap_def)
qed

text \<open>The months and days of the 366 days of a year, by computation.\<close>

lemma month_table:
  "list_all (\<lambda>doy. let mp = (5 * doy + 2) div 153; d = doy - (153 * mp + 2) div 5 + 1 in
     0 \<le> mp \<and> mp < 12 \<and> 1 \<le> d \<and> d \<le> (if mp = 11 then 29 else if mp \<in> {1, 3, 6, 8} then 30 else 31) \<and>
     (mp = 11 \<and> d = 29 \<longrightarrow> doy = 365)) [0..365 :: int]"
  by code_simp

lemma month_of_day:
  fixes doy :: int
  assumes "0 \<le> doy" "doy < 366" "mp = (5 * doy + 2) div 153" "d = doy - (153 * mp + 2) div 5 + 1"
  shows "0 \<le> mp" "mp < 12" "1 \<le> d" "d \<le> (if mp = 11 then 29 else if mp \<in> {1, 3, 6, 8} then 30 else 31)"
    "mp = 11 \<Longrightarrow> d = 29 \<Longrightarrow> doy = 365"
proof -
  have "doy \<in> set [0..365]"
    using assms(1,2) unfolding set_upto atLeastAtMost_iff by linarith
  with month_table show "0 \<le> mp" "mp < 12" "1 \<le> d" "d \<le> (if mp = 11 then 29 else if mp \<in> {1, 3, 6, 8} then 30 else 31)"
    "mp = 11 \<Longrightarrow> d = 29 \<Longrightarrow> doy = 365"
    unfolding list_all_iff Let_def assms(4) assms(3) by blast+
qed

lemma civil_eq:
  "civil n =
     (let doe = (n + 719468) mod 146097; yoe = year_of doe; doy = doe - (365 * yoe + yoe div 4 - yoe div 100);
          mp = (5 * doy + 2) div 153; m = (if mp < 10 then mp + 3 else mp - 9)
      in (yoe + (n + 719468) div 146097 * 400 + (if m \<le> 2 then 1 else 0), m, doy - (153 * mp + 2) div 5 + 1))"
  unfolding civil_def year_of_def Let_def by (rule refl)

lemma civil_date:
  assumes "civil n = (y, m, d)"
  shows "1 \<le> m" "m \<le> 12" "1 \<le> d" "d \<le> daysIn m y" "day_number y m d = n"
proof -
  define doe where "doe = (n + 719468) mod 146097"
  define era where "era = (n + 719468) div 146097"
  define yoe where "yoe = year_of doe"
  define doy where "doy = doe - (365 * yoe + yoe div 4 - yoe div 100)"
  define mp where "mp = (5 * doy + 2) div 153"
  have "civil n = (yoe + era * 400 + (if (if mp < 10 then mp + 3 else mp - 9) \<le> 2 then 1 else 0),
      (if mp < 10 then mp + 3 else mp - 9), doy - (153 * mp + 2) div 5 + 1)"
    unfolding civil_eq Let_def doe_def era_def yoe_def doy_def mp_def by (rule refl)
  with assms have eqs: "m = (if mp < 10 then mp + 3 else mp - 9)" "d = doy - (153 * mp + 2) div 5 + 1"
    "y = yoe + era * 400 + (if m \<le> 2 then 1 else 0)"
    by (auto split del: if_split)
  have yoe: "0 \<le> yoe" "yoe < 400" "year_start yoe \<le> doe" "doe < year_start (yoe + 1)"
    using year_of_bounds [of doe] by (simp_all add: yoe_def doe_def)
  have start: "year_start yoe = 365 * yoe + yoe div 4 - yoe div 100"
    using yoe(1,2) by (simp add: year_start_def)
  have doy: "0 \<le> doy" "doy < (if leap (yoe + 1) then 366 else 365)"
    using yoe(3,4) year_length [of yoe] by (simp_all add: doy_def start split: if_splits)
  note md = month_of_day [OF doy(1) _ mp_def eqs(2)]
  have mp: "0 \<le> mp" "mp < 12" and d: "1 \<le> d" "d \<le> (if mp = 11 then 29 else if mp \<in> {1, 3, 6, 8} then 30 else 31)"
    "mp = 11 \<Longrightarrow> d = 29 \<Longrightarrow> doy = 365"
    using md doy(2) by (auto split: if_splits)
  show "1 \<le> m" "m \<le> 12" "1 \<le> d"
    using mp d(1) by (auto simp: eqs(1))
  have "leap y" if "mp = 11" "doy = 365"
    using that doy(2) leap_cycle [of "yoe + 1" era] by (auto simp: eqs(1,3) algebra_simps split: if_splits)
  with d(2,3) have "mp = 11 \<Longrightarrow> d \<le> (if leap y then 29 else 28)"
    by (cases "d = 29") auto
  then show "d \<le> daysIn m y"
    using d(2) mp by (cases "mp = 11") (auto simp: daysIn_def eqs(1))
  have "(m + 9) mod 12 = mp" "(if m \<le> 2 then y - 1 else y) = yoe + era * 400"
    using mp by (auto simp: eqs(1,3) split: if_splits)
  then show "day_number y m d = n"
    using yoe(1,2) by (simp add: day_number_def eqs(2) doy_def era_def doe_def)
qed

end
