(* ===== verification/Go_Time_Parse.thy ===== *)
theory Go_Time_Parse
  imports Go_Calendar Go_Regexp
begin

text \<open>
  \<open>time.Parse(time.RFC3339, s)\<close> of the Go library. \<open>Parse\<close> first tries a strict parser for this layout and
  then the general one, which goes through the elements \<open>2006-01-02T15:04:05Z07:00\<close> of the layout and
  is more tolerant: one digit for the hour, a comma before the fraction, and zone offsets up to 24:60. The result
  is the instant; the location that \<open>Parse\<close> also returns is left out.
\<close>

section \<open>Numbers\<close>

definition char_digit :: "char \<Rightarrow> bool" where
  "char_digit c \<longleftrightarrow> is_digit (of_char c)"

definition atoi :: "string \<Rightarrow> int" where
  "atoi ds = int (digits_val 0 (map of_char ds))"

text \<open>\<open>parseNanoseconds\<close> on the digits of a fraction: the first nine count.\<close>

definition nanoseconds :: "string \<Rightarrow> int" where
  "nanoseconds ds = atoi (take 9 ds) * 10 ^ (9 - length (take 9 ds))"

definition instant :: "int \<Rightarrow> int \<Rightarrow> int \<Rightarrow> int \<Rightarrow> int \<Rightarrow> int \<Rightarrow> int \<Rightarrow> int \<Rightarrow> gotime" where
  "instant year month day hour mins sec nsec offset =
     (day_number year month day * 86400 + hour * 3600 + mins * 60 + sec - offset) * 1000000000 + nsec"

section \<open>The strict parser\<close>

definition parse_uint :: "string \<Rightarrow> int \<Rightarrow> int \<Rightarrow> int option" where
  "parse_uint s lo hi = (if list_all char_digit s \<and> lo \<le> atoi s \<and> atoi s \<le> hi then Some (atoi s) else None)"

definition slice :: "nat \<Rightarrow> nat \<Rightarrow> string \<Rightarrow> string" where
  "slice i j s = take (j - i) (drop i s)"

definition strict_zone :: "string \<Rightarrow> int option" where
  "strict_zone s =
     (if s = ''Z'' then Some 0
      else if length s \<noteq> 6 then None
      else do {
        hr \<leftarrow> parse_uint (slice 1 3 s) 0 23;
        mm \<leftarrow> parse_uint (slice 4 6 s) 0 59;
        if (s ! 0 = CHR ''-'' \<or> s ! 0 = CHR ''+'') \<and> s ! 3 = CHR '':''
        then Some (if s ! 0 = CHR ''-'' then - ((hr * 60 + mm) * 60) else (hr * 60 + mm) * 60) else None })"

definition parseRFC3339 :: "string \<Rightarrow> gotime option" where
  "parseRFC3339 s =
     (if length s < 19 then None
      else do {
        year \<leftarrow> parse_uint (slice 0 4 s) 0 9999;
        month \<leftarrow> parse_uint (slice 5 7 s) 1 12;
        day \<leftarrow> parse_uint (slice 8 10 s) 1 (daysIn month year);
        hour \<leftarrow> parse_uint (slice 11 13 s) 0 23;
        mins \<leftarrow> parse_uint (slice 14 16 s) 0 59;
        sec \<leftarrow> parse_uint (slice 17 19 s) 0 59;
        if \<not> (s ! 4 = CHR ''-'' \<and> s ! 7 = CHR ''-'' \<and> s ! 10 = CHR ''T'' \<and> s ! 13 = CHR '':'' \<and> s ! 16 = CHR '':'') then None
        else
          let rest = drop 19 s; ds = takeWhile char_digit (tl rest);
              frac = (length rest \<ge> 2 \<and> rest ! 0 = CHR ''.'' \<and> char_digit (rest ! 1));
              nsec = (if frac then nanoseconds ds else 0)
          in map_option (instant year month day hour mins sec nsec) (strict_zone (if frac then drop (1 + length ds) rest else rest)) })"

section \<open>The general parser\<close>

text \<open>Errors: an element of the layout that the text does not match, a value out of range, or text after the end.\<close>

datatype time_error = BadValue string | OutOfRange string | ExtraText string

definition and_then :: "'e + 'a \<Rightarrow> ('a \<Rightarrow> 'e + 'b) \<Rightarrow> 'e + 'b" where
  "and_then m f = (case m of Inl e \<Rightarrow> Inl e | Inr x \<Rightarrow> f x)"

fun getnum :: "string \<Rightarrow> bool \<Rightarrow> (int \<times> string) option" where
  "getnum (c # d # s) fixed =
     (if \<not> char_digit c then None
      else if char_digit d then Some (atoi [c, d], s)
      else if fixed then None else Some (atoi [c], d # s))"
| "getnum [c] fixed = (if char_digit c \<and> \<not> fixed then Some (atoi [c], []) else None)"
| "getnum [] fixed = None"

definition year_element :: "string \<Rightarrow> time_error + int \<times> string" where
  "year_element s =
     (if length s < 4 \<or> \<not> list_all char_digit (take 4 s) then Inl (BadValue ''2006'') else Inr (atoi (take 4 s), drop 4 s))"

definition skip_char :: "char \<Rightarrow> string \<Rightarrow> time_error + string" where
  "skip_char c s = (case s of [] \<Rightarrow> Inl (BadValue [c]) | d # s' \<Rightarrow> if d = c then Inr s' else Inl (BadValue [c]))"

definition element :: "string \<Rightarrow> bool \<Rightarrow> string \<Rightarrow> int \<Rightarrow> int \<Rightarrow> string \<Rightarrow> time_error + int \<times> string" where
  "element layout fixed unit lo hi s =
     (case getnum s fixed of
        None \<Rightarrow> Inl (BadValue layout)
      | Some (x, s') \<Rightarrow> if x < lo \<or> hi < x then Inl (OutOfRange unit) else Inr (x, s'))"

definition fraction :: "string \<Rightarrow> int \<times> string" where
  "fraction s =
     (if length s \<ge> 2 \<and> (s ! 0 = CHR ''.'' \<or> s ! 0 = CHR '','') \<and> char_digit (s ! 1)
      then let ds = takeWhile char_digit (tl s) in (nanoseconds ds, drop (1 + length ds) s)
      else (0, s))"

definition zone_element :: "string \<Rightarrow> time_error + int \<times> string" where
  "zone_element s =
     (if s \<noteq> [] \<and> hd s = CHR ''Z'' then Inr (0, tl s)
      else if length s < 6 \<or> s ! 3 \<noteq> CHR '':'' then Inl (BadValue ''Z07:00'')
      else case getnum (slice 1 3 s) True of
             None \<Rightarrow> Inl (BadValue ''Z07:00'')
           | Some (hr, _) \<Rightarrow>
               (case getnum (slice 4 6 s) True of
                  None \<Rightarrow> Inl (if hr > 24 then OutOfRange ''time zone offset hour'' else BadValue ''Z07:00'')
                | Some (mm, _) \<Rightarrow>
                    if mm > 60 then Inl (OutOfRange ''time zone offset minute'')
                    else if hr > 24 then Inl (OutOfRange ''time zone offset hour'')
                    else if s ! 0 = CHR ''+'' then Inr ((hr * 60 + mm) * 60, drop 6 s)
                    else if s ! 0 = CHR ''-'' then Inr (- ((hr * 60 + mm) * 60), drop 6 s)
                    else Inl (BadValue ''Z07:00'')))"

definition parse_layout :: "string \<Rightarrow> time_error + gotime" where
  "parse_layout s =
     and_then (year_element s) (\<lambda>(year, s).
     and_then (skip_char (CHR ''-'') s) (\<lambda>s.
     and_then (element ''01'' True ''month'' 1 12 s) (\<lambda>(month, s).
     and_then (skip_char (CHR ''-'') s) (\<lambda>s.
     and_then (element ''02'' True ''day'' 0 99 s) (\<lambda>(day, s).
     and_then (skip_char (CHR ''T'') s) (\<lambda>s.
     and_then (element ''15'' False ''hour'' 0 23 s) (\<lambda>(hour, s).
     and_then (skip_char (CHR '':'') s) (\<lambda>s.
     and_then (element ''04'' True ''minute'' 0 59 s) (\<lambda>(mins, s).
     and_then (skip_char (CHR '':'') s) (\<lambda>s.
     and_then (element ''05'' True ''second'' 0 59 s) (\<lambda>(sec, s).
     case fraction s of (nsec, s) \<Rightarrow>
     and_then (zone_element s) (\<lambda>(offset, s).
       if s \<noteq> [] then Inl (ExtraText s)
       else if day < 1 \<or> daysIn month year < day then Inl (OutOfRange ''day'')
       else Inr (instant year month day hour mins sec nsec offset)))))))))))))"

section \<open>Parse\<close>

definition time_Parse_RFC3339 :: "string \<Rightarrow> time_error + gotime" where
  "time_Parse_RFC3339 s = (case parseRFC3339 s of Some t \<Rightarrow> Inr t | None \<Rightarrow> parse_layout s)"

section \<open>The strict parser agrees with the general one\<close>

lemma and_then_simps [simp]: "and_then (Inl e) f = Inl e" "and_then (Inr x) f = f x"
  by (simp_all add: and_then_def)

lemma list19:
  assumes "\<not> length s < 19"
  obtains c0 c1 c2 c3 c4 c5 c6 c7 c8 c9 c10 c11 c12 c13 c14 c15 c16 c17 c18 r where
    "s = c0 # c1 # c2 # c3 # c4 # c5 # c6 # c7 # c8 # c9 # c10 # c11 # c12 # c13 # c14 # c15 # c16 # c17 # c18 # r"
proof -
  have "\<exists>c r. t = c # r \<and> length r = k" if "length t = Suc k" for t :: "'a list" and k
    using that by (simp add: length_Suc_conv)
  moreover obtain k where "length s = 19 + k"
    using assms by (metis le_Suc_ex not_less)
  ultimately show thesis
    using that by (simp add: eval_nat_numeral) (metis (no_types, lifting))
qed

lemma parse_uint_element:
  assumes "parse_uint [a, b] lo hi = Some x"
  shows "getnum (a # b # r) fixed = Some (x, r)" "lo \<le> x" "x \<le> hi"
  using assms by (auto simp: parse_uint_def split: if_splits)

lemma strict_zone_element: "strict_zone s = Some offset \<Longrightarrow> zone_element s = Inr (offset, [])"
proof (cases "s = ''Z''")
  case False
  assume zone: "strict_zone s = Some offset"
  then have "length s = 6"
    using False by (simp add: strict_zone_def split: if_splits)
  then obtain a b c d e f where s: "s = [a, b, c, d, e, f]"
    by (auto simp: length_Suc_conv eval_nat_numeral)
  from zone obtain hr mm where num: "parse_uint [b, c] 0 23 = Some hr" "parse_uint [e, f] 0 59 = Some mm"
    and sign: "a = CHR ''-'' \<or> a = CHR ''+''" "d = CHR '':''"
    and offset: "offset = (if a = CHR ''-'' then - ((hr * 60 + mm) * 60) else (hr * 60 + mm) * 60)"
    by (auto simp: strict_zone_def s slice_def split: bind_splits if_splits)
  show ?thesis
    using sign parse_uint_element(1) [OF num(1), of "[]" True] parse_uint_element(2,3) [OF num(1)]
      parse_uint_element(1) [OF num(2), of "[]" True] parse_uint_element(2,3) [OF num(2)]
    by (auto simp: zone_element_def s slice_def offset)
qed (simp add: strict_zone_def zone_element_def)

lemma strict_fraction:
  assumes "frac = (length rest \<ge> 2 \<and> rest ! 0 = CHR ''.'' \<and> char_digit (rest ! 1))" "ds = takeWhile char_digit (tl rest)"
    and "strict_zone (if frac then drop (1 + length ds) rest else rest) = Some offset"
  shows "fraction rest = (if frac then nanoseconds ds else 0, if frac then drop (1 + length ds) rest else rest)"
proof (cases frac)
  case True
  then show ?thesis using assms(1,2) by (simp add: fraction_def Let_def)
next
  case False
  have "rest ! 0 \<noteq> CHR '',''" if "length rest \<ge> 2"
    using assms(3) False that by (auto simp: strict_zone_def split: if_splits bind_splits)
  with False assms(1) show ?thesis
    by (auto simp: fraction_def)
qed

lemma strict_element:
  assumes "parse_uint [a, b] lo hi = Some x" "lo' \<le> lo" "hi \<le> hi'"
  shows "element layout fixed unit lo' hi' (a # b # r) = Inr (x, r)"
  using assms parse_uint_element [OF assms(1)] by (simp add: element_def)

text \<open>What the strict parser accepts, the general parser reads as the same instant.\<close>

lemma strict_parser_agrees:
  assumes "parseRFC3339 s = Some t"
  shows "parse_layout s = Inr t"
proof -
  have "\<not> length s < 19"
    using assms by (auto simp: parseRFC3339_def)
  then obtain c0 c1 c2 c3 c4 c5 c6 c7 c8 c9 c10 c11 c12 c13 c14 c15 c16 c17 c18 r where
    s: "s = c0 # c1 # c2 # c3 # c4 # c5 # c6 # c7 # c8 # c9 # c10 # c11 # c12 # c13 # c14 # c15 # c16 # c17 # c18 # r"
    by (rule list19)
  let ?ds = "takeWhile char_digit (tl r)" and ?frac = "length r \<ge> 2 \<and> r ! 0 = CHR ''.'' \<and> char_digit (r ! 1)"
  from assms obtain year month day hour mins sec offset where
    nums: "parse_uint [c0, c1, c2, c3] 0 9999 = Some year" "parse_uint [c5, c6] 1 12 = Some month"
      "parse_uint [c8, c9] 1 (daysIn month year) = Some day" "parse_uint [c11, c12] 0 23 = Some hour"
      "parse_uint [c14, c15] 0 59 = Some mins" "parse_uint [c17, c18] 0 59 = Some sec"
    and lits: "c4 = CHR ''-''" "c7 = CHR ''-''" "c10 = CHR ''T''" "c13 = CHR '':''" "c16 = CHR '':''"
    and zone: "strict_zone (if ?frac then drop (1 + length ?ds) r else r) = Some offset"
    and t: "t = instant year month day hour mins sec (if ?frac then nanoseconds ?ds else 0) offset"
    unfolding parseRFC3339_def s
    by (auto simp: slice_def eval_nat_numeral Let_def split: bind_splits if_splits)
  have year: "year_element s = Inr (year, drop 4 s)"
    using nums(1) by (auto simp: year_element_def parse_uint_def s split: if_splits)
  have day: "1 \<le> day" "day \<le> daysIn month year" "day \<le> 99"
    using parse_uint_element(2,3) [OF nums(3)] by (auto simp: daysIn_def split: if_splits)
  then have "parse_uint [c8, c9] 0 99 = Some day"
    using nums(3) by (auto simp: parse_uint_def split: if_splits)
  note elements = strict_element [OF nums(2)] strict_element [OF this] strict_element [OF nums(4)] strict_element [OF nums(5)]
    strict_element [OF nums(6)]
  obtain nsec rest where "fraction r = (nsec, rest)" "strict_zone rest = Some offset" "t = instant year month day hour mins sec nsec offset"
    using strict_fraction [OF refl refl zone] zone t by blast
  then show ?thesis
    unfolding parse_layout_def year using day strict_zone_element [of rest offset] by (simp add: s lits skip_char_def elements)
qed

theorem Parse_is_general: "time_Parse_RFC3339 s = parse_layout s"
  by (auto simp: time_Parse_RFC3339_def strict_parser_agrees split: option.splits)

section \<open>Reading what was formatted\<close>

lemma digits_val_append: "digits_val k (ds @ [d]) = 10 * digits_val k ds + (d - 48)"
  by (induction ds arbitrary: k) simp_all

lemma of_char_digit: "k < 10 \<Longrightarrow> of_char (char_of (48 + k) :: char) = (48 + k :: nat)"
  by (simp add: of_char_of)

lemma dec_nat_digits:
  "list_all (\<lambda>c. is_digit (of_char c)) (dec_nat n) \<and> digits_val 0 (map of_char (dec_nat n)) = n"
proof (induction n rule: dec_nat.induct)
  case (1 n)
  show ?case
  proof (cases "n < 10")
    case True
    then show ?thesis
      by (subst (1 2) dec_nat.simps) (simp add: of_char_digit is_digit_def)
  next
    case False
    moreover have "is_digit (48 + n mod 10)"
      by (simp add: is_digit_def)
    ultimately show ?thesis
      using 1 by (subst (1 2) dec_nat.simps) (simp add: of_char_digit digits_val_append)
  qed
qed

lemma length_dec_nat: "n < 10 ^ Suc w \<Longrightarrow> length (dec_nat n) \<le> Suc w"
proof (induction w arbitrary: n)
  case 0
  then show ?case by (subst dec_nat.simps) simp
next
  case (Suc w)
  then have "n div 10 < 10 ^ Suc w"
    by (simp add: less_mult_imp_div_less)
  with Suc.IH show ?case
    by (subst dec_nat.simps) simp
qed

lemma digits_val_zeros: "digits_val 0 (replicate k 48 @ ds) = digits_val 0 ds"
  by (induction k) simp_all

lemma pad_number:
  assumes "0 \<le> i" "i < 10 ^ Suc w"
  shows "length (pad (Suc w) i) = Suc w" and "parse_uint (pad (Suc w) i) lo hi = (if lo \<le> i \<and> i \<le> hi then Some i else None)"
proof -
  have "nat i < 10 ^ Suc w"
    using assms by (simp add: nat_less_iff)
  from length_dec_nat [OF this] show "length (pad (Suc w) i) = Suc w"
    using assms(1) by (simp add: pad_def Let_def)
  have "list_all char_digit (pad (Suc w) i)" "atoi (pad (Suc w) i) = i"
    using assms(1) dec_nat_digits [of "nat i"]
    by (auto simp: pad_def Let_def atoi_def digits_val_zeros char_digit_def list_all_iff is_digit_def)
  then show "parse_uint (pad (Suc w) i) lo hi = (if lo \<le> i \<and> i \<le> hi then Some i else None)"
    by (simp add: parse_uint_def)
qed

lemma pad_2:
  assumes "0 \<le> i" "i < 100"
  shows "\<exists>a b. pad 2 i = [a, b] \<and> (\<forall>lo hi. parse_uint [a, b] lo hi = (if lo \<le> i \<and> i \<le> hi then Some i else None))"
proof -
  obtain a b where "pad 2 i = [a, b]"
    using pad_number(1) [of i 1] assms by (auto simp: numeral_2_eq_2 length_Suc_conv)
  with pad_number(2) [of i 1] assms show ?thesis
    by (simp add: numeral_2_eq_2)
qed

lemma pad_4:
  assumes "0 \<le> i" "i < 10000"
  obtains a b c d where "pad 4 i = [a, b, c, d]" "\<And>lo hi. parse_uint [a, b, c, d] lo hi = (if lo \<le> i \<and> i \<le> hi then Some i else None)"
  using pad_number [of i 3] assms by (auto simp: eval_nat_numeral length_Suc_conv)

lemma time_of_day:
  fixes sod :: int
  assumes "0 \<le> sod" "sod < 86400"
  shows "0 \<le> sod div 3600" "sod div 3600 \<le> 23" "0 \<le> sod div 60 mod 60" "sod div 60 mod 60 \<le> 59" "0 \<le> sod mod 60" "sod mod 60 \<le> 59"
    "sod div 3600 * 3600 + sod div 60 mod 60 * 60 + sod mod 60 = sod"
proof -
  show "0 \<le> sod div 3600" "sod div 3600 \<le> 23" "0 \<le> sod div 60 mod 60" "0 \<le> sod mod 60"
    using assms by (simp_all add: pos_imp_zdiv_nonneg_iff)
  show "sod div 60 mod 60 \<le> 59" "sod mod 60 \<le> 59"
    using pos_mod_bound [of 60 "sod div 60"] pos_mod_bound [of 60 sod] by linarith+
  have "sod div 3600 = sod div 60 div 60"
    by (simp flip: zdiv_zmult2_eq)
  then show "sod div 3600 * 3600 + sod div 60 mod 60 * 60 + sod mod 60 = sod"
    using div_mult_mod_eq [of "sod div 60" 60] div_mult_mod_eq [of sod 60] by linarith
qed

lemma strict_parser_UTC:
  assumes "parse_uint [y1, y2, y3, y4] 0 9999 = Some y" "parse_uint [m1, m2] 1 12 = Some m" "parse_uint [d1, d2] 1 (daysIn m y) = Some d"
    "parse_uint [h1, h2] 0 23 = Some h" "parse_uint [i1, i2] 0 59 = Some i" "parse_uint [s1, s2] 0 59 = Some s"
  shows "parseRFC3339 [y1, y2, y3, y4, CHR ''-'', m1, m2, CHR ''-'', d1, d2, CHR ''T'', h1, h2, CHR '':'', i1, i2, CHR '':'', s1, s2, CHR ''Z''] =
     Some (instant y m d h i s 0 0)"
  using assms by (simp add: parseRFC3339_def slice_def eval_nat_numeral strict_zone_def Let_def)

text \<open>A formatted instant of the years 0 to 9999 is read back to the second.\<close>

lemma Parse_format:
  assumes "civil (t div 1000000000 div 86400) = (y, m, d)" "0 \<le> y" "y \<le> 9999"
  shows "time_Parse_RFC3339 (format_RFC3339 t) = Inr (t div 1000000000 * 1000000000)"
proof -
  define secs where "secs = t div 1000000000"
  define sod where "sod = secs mod 86400"
  have "0 \<le> sod" "sod < 86400"
    by (simp_all add: sod_def)
  note times = time_of_day [OF this]
  have date_eq: "civil (secs div 86400) = (y, m, d)"
    using assms(1) by (simp only: secs_def)
  note date = civil_date [OF date_eq]
  have "daysIn m y \<le> 31"
    by (simp add: daysIn_def)
  then have ranges: "0 \<le> m" "m < 100" "0 \<le> d" "d < 100"
    using date by linarith+
  obtain y1 y2 y3 y4 where y: "pad 4 y = [y1, y2, y3, y4]" "\<And>lo hi. parse_uint [y1, y2, y3, y4] lo hi = (if lo \<le> y \<and> y \<le> hi then Some y else None)"
    by (rule pad_4 [of y]) (use assms(2,3) in simp_all)
  obtain m1 m2 where m: "pad 2 m = [m1, m2]" "\<And>lo hi. parse_uint [m1, m2] lo hi = (if lo \<le> m \<and> m \<le> hi then Some m else None)"
    using pad_2 [of m] ranges by blast
  obtain d1 d2 where d: "pad 2 d = [d1, d2]" "\<And>lo hi. parse_uint [d1, d2] lo hi = (if lo \<le> d \<and> d \<le> hi then Some d else None)"
    using pad_2 [of d] ranges by blast
  obtain h1 h2 where h: "pad 2 (sod div 3600) = [h1, h2]"
      "\<forall>lo hi. parse_uint [h1, h2] lo hi = (if lo \<le> sod div 3600 \<and> sod div 3600 \<le> hi then Some (sod div 3600) else None)"
    using pad_2 [OF times(1) le_less_trans [OF times(2)]] by auto
  obtain i1 i2 where i: "pad 2 (sod div 60 mod 60) = [i1, i2]"
      "\<forall>lo hi. parse_uint [i1, i2] lo hi = (if lo \<le> sod div 60 mod 60 \<and> sod div 60 mod 60 \<le> hi then Some (sod div 60 mod 60) else None)"
    using pad_2 [OF times(3) le_less_trans [OF times(4)]] by auto
  obtain s1 s2 where s: "pad 2 (sod mod 60) = [s1, s2]"
      "\<forall>lo hi. parse_uint [s1, s2] lo hi = (if lo \<le> sod mod 60 \<and> sod mod 60 \<le> hi then Some (sod mod 60) else None)"
    using pad_2 [OF times(5) le_less_trans [OF times(6)]] by auto
  have "format_RFC3339 t = [y1, y2, y3, y4, CHR ''-'', m1, m2, CHR ''-'', d1, d2, CHR ''T'', h1, h2, CHR '':'', i1, i2, CHR '':'', s1, s2, CHR ''Z'']"
    unfolding format_RFC3339_def Let_def secs_def [symmetric] date_eq prod.case sod_def [symmetric] y(1) m(1) d(1) h(1) i(1) s(1) by simp
  moreover have "parse_uint [h1, h2] 0 23 = Some (sod div 3600)" "parse_uint [i1, i2] 0 59 = Some (sod div 60 mod 60)"
    "parse_uint [s1, s2] 0 59 = Some (sod mod 60)"
    using times(1-6) unfolding h(2) [rule_format] i(2) [rule_format] s(2) [rule_format] by (simp_all only: simp_thms if_True)
  ultimately have "parseRFC3339 (format_RFC3339 t) = Some (instant y m d (sod div 3600) (sod div 60 mod 60) (sod mod 60) 0 0)"
    using strict_parser_UTC [of y1 y2 y3 y4 y m1 m2 m d1 d2 d] assms(2,3) date by (simp only: y(2) m(2) d(2) simp_thms if_True)
  moreover have "secs div 86400 * 86400 + sod = secs"
    unfolding sod_def by (rule div_mult_mod_eq)
  with times(7) have "instant y m d (sod div 3600) (sod div 60 mod 60) (sod mod 60) 0 0 = secs * 1000000000"
    unfolding instant_def date(5) by (simp only: diff_0_right add_0_right) (simp only: add.assoc)
  ultimately show ?thesis
    unfolding secs_def [symmetric] by (simp add: time_Parse_RFC3339_def)
qed

end
