(* ===== verification/Dto.thy ===== *)
theory Dto
  imports K8s_Types Go_Time_Parse
begin

text \<open>
  Package \<open>dto\<close> (internal/application/dto/dto.go) and package \<open>annotations\<close>
  (pkg/annotations/annotations.go): the annotation vocabulary, the data transfer objects and their
  encoding in annotations.
\<close>

section \<open>Annotation keys\<close>

definition AnnotationReplicationAllowed :: string where
  "AnnotationReplicationAllowed = ''replikator.cloudresty.io/replicate''"

definition AnnotationReplicationAllowedNamespaces :: string where
  "AnnotationReplicationAllowedNamespaces = ''replikator.cloudresty.io/replicate-to''"

definition AnnotationReplicationAutoEnabled :: string where
  "AnnotationReplicationAutoEnabled = ''replikator.cloudresty.io/auto-replicate''"

definition AnnotationReplicationAutoNamespaces :: string where
  "AnnotationReplicationAutoNamespaces = ''replikator.cloudresty.io/auto-replicate-to''"

definition AnnotationReflects :: string where
  "AnnotationReflects = ''replikator.cloudresty.io/replicated-from''"

definition AnnotationReflectedVersion :: string where
  "AnnotationReflectedVersion = ''replikator.cloudresty.io/replicated-version''"

definition AnnotationReflectedAt :: string where
  "AnnotationReflectedAt = ''replikator.cloudresty.io/replicated-at''"

definition AnnotationAutoReflects :: string where
  "AnnotationAutoReflects = ''replikator.cloudresty.io/auto-replicated''"

definition AnnotationSourceResourceVersion :: string where
  "AnnotationSourceResourceVersion = ''replikator.cloudresty.io/source-resource-version''"

lemmas annotation_keys =
  AnnotationReplicationAllowed_def AnnotationReplicationAllowedNamespaces_def
  AnnotationReplicationAutoEnabled_def AnnotationReplicationAutoNamespaces_def
  AnnotationReflects_def AnnotationReflectedVersion_def AnnotationReflectedAt_def
  AnnotationAutoReflects_def AnnotationSourceResourceVersion_def

lemma annotation_keys_distinct [simp]:
  "distinct [AnnotationReplicationAllowed, AnnotationReplicationAllowedNamespaces,
     AnnotationReplicationAutoEnabled, AnnotationReplicationAutoNamespaces, AnnotationReflects,
     AnnotationReflectedVersion, AnnotationReflectedAt, AnnotationAutoReflects,
     AnnotationSourceResourceVersion]"
  by (simp add: annotation_keys)

lemmas annotation_keys_neq [simp] =
  annotation_keys_distinct [unfolded distinct.simps list.set insert_iff empty_iff de_Morgan_disj, simplified]

lemma annotation_keys_neq_sym [simp]:
  "AnnotationReplicationAllowedNamespaces \<noteq> AnnotationReplicationAllowed" "AnnotationReplicationAutoEnabled \<noteq> AnnotationReplicationAllowed"
  "AnnotationReplicationAutoNamespaces \<noteq> AnnotationReplicationAllowed" "AnnotationReplicationAutoEnabled \<noteq> AnnotationReplicationAllowedNamespaces"
  "AnnotationReplicationAutoNamespaces \<noteq> AnnotationReplicationAllowedNamespaces" "AnnotationReplicationAutoNamespaces \<noteq> AnnotationReplicationAutoEnabled"
  "AnnotationReflectedVersion \<noteq> AnnotationReflects" "AnnotationReflectedAt \<noteq> AnnotationReflects"
  "AnnotationAutoReflects \<noteq> AnnotationReflects" "AnnotationReflectedAt \<noteq> AnnotationReflectedVersion"
  "AnnotationAutoReflects \<noteq> AnnotationReflectedVersion" "AnnotationAutoReflects \<noteq> AnnotationReflectedAt"
  by (simp_all add: annotation_keys)

section \<open>Text helpers\<close>

definition boolToString :: "bool \<Rightarrow> string" where
  "boolToString b = (if b then ''true'' else ''false'')"

fun join_loop :: "nat \<Rightarrow> string list \<Rightarrow> string \<Rightarrow> string" where
  "join_loop i [] result = result"
| "join_loop i (ns # rest) result =
     join_loop (i + 1) rest ((if i > 0 then result @ '','' else result) @ ns)"

definition joinNamespaces :: "string list \<Rightarrow> string" where
  "joinNamespaces namespaces = join_loop 0 namespaces ''''"

text \<open>Cutting at the last slash, by the loop \<open>for i := len(value) - 1; i >= 0; i--\<close>.\<close>

fun split_back :: "nat \<Rightarrow> string \<Rightarrow> string list" where
  "split_back 0 value = ['''', value]"
| "split_back (Suc i) value =
     (if value ! i = CHR ''/'' then [take i value, drop (i + 1) value] else split_back i value)"

definition splitReflectsAnnotation :: "string \<Rightarrow> string list" where
  "splitReflectsAnnotation value = split_back (length value) value"

fun split_namespaces_loop :: "rune list \<Rightarrow> string \<Rightarrow> string list \<Rightarrow> string list" where
  "split_namespaces_loop [] current result = (if current \<noteq> '''' then result @ [current] else result)"
| "split_namespaces_loop (c # cs) current result =
     (if c = 44
      then split_namespaces_loop cs '''' (if current \<noteq> '''' then result @ [current] else result)
      else split_namespaces_loop cs (current @ encode_rune c) result)"

definition splitNamespaces :: "string \<Rightarrow> string list" where
  "splitNamespaces value = split_namespaces_loop (runes value) '''' []"

definition trimSpace :: "string \<Rightarrow> string" where
  "trimSpace s = trim_both (\<lambda>c. c = CHR '' '' \<or> c = CHR 0x09) s"

definition parseNamespaceList :: "string \<Rightarrow> string list" where
  "parseNamespaceList value =
     (if value = '''' then [] else filter (\<lambda>p. p \<noteq> '''') (map trimSpace (splitNamespaces value)))"

section \<open>Data transfer objects\<close>

record SourceDTO =
  sdNamespace :: string
  sdName :: string
  sdResourceType :: string
  sdAllowed :: bool
  sdAllowedNamespaces :: "string list"
  sdAutoEnabled :: bool
  sdAutoNamespaces :: "string list"
  sdVersion :: string

definition SourceDTO_zero :: SourceDTO where
  "SourceDTO_zero = \<lparr>sdNamespace = '''', sdName = '''', sdResourceType = '''', sdAllowed = False,
     sdAllowedNamespaces = [], sdAutoEnabled = False, sdAutoNamespaces = [], sdVersion = ''''\<rparr>"

definition NewSourceDTO :: "Source \<Rightarrow> SourceDTO" where
  "NewSourceDTO source =
     \<lparr>sdNamespace = source_namespace source, sdName = source_name source,
      sdResourceType = source_resourceType source, sdAllowed = source_allowed source,
      sdAllowedNamespaces = patterns (source_allowedNamespaces source),
      sdAutoEnabled = source_autoEnabled source,
      sdAutoNamespaces = patterns (source_autoNamespaces source), sdVersion = source_version source\<rparr>"

definition SourceDTO_ToAnnotations :: "SourceDTO \<Rightarrow> string_map" where
  "SourceDTO_ToAnnotations d =
     (let a1 = [AnnotationReplicationAllowed \<mapsto> boolToString (sdAllowed d)];
          a2 = (if length (sdAllowedNamespaces d) > 0
                then a1(AnnotationReplicationAllowedNamespaces \<mapsto> joinNamespaces (sdAllowedNamespaces d)) else a1);
          a3 = a2(AnnotationReplicationAutoEnabled \<mapsto> boolToString (sdAutoEnabled d))
      in if length (sdAutoNamespaces d) > 0
         then a3(AnnotationReplicationAutoNamespaces \<mapsto> joinNamespaces (sdAutoNamespaces d)) else a3)"

record MirrorDTO =
  mdNamespace :: string
  mdName :: string
  mdResourceType :: string
  mdSourceID :: string
  mdSourceNamespace :: string
  mdSourceName :: string
  mdVersion :: string
  mdReflectsAnnotation :: string
  mdIsAutoCreated :: bool
  mdReflectedAt :: string

definition NewMirrorDTO :: "Mirror \<Rightarrow> MirrorDTO" where
  "NewMirrorDTO mirror =
     \<lparr>mdNamespace = mirror_namespace mirror, mdName = mirror_name mirror,
      mdResourceType = mirror_resourceType mirror, mdSourceID = SourceID_String (mirror_sourceID mirror),
      mdSourceNamespace = sourceNamespace (mirror_sourceID mirror),
      mdSourceName = sourceName (mirror_sourceID mirror), mdVersion = mirror_version mirror,
      mdReflectsAnnotation = SourceID_String (mirror_sourceID mirror),
      mdIsAutoCreated = mirror_isAutoCreated mirror, mdReflectedAt = mirror_reflectedAt mirror\<rparr>"

definition MirrorDTO_ToAnnotations :: "MirrorDTO \<Rightarrow> string_map" where
  "MirrorDTO_ToAnnotations d =
     (let a = [AnnotationReflects \<mapsto> mdReflectsAnnotation d, AnnotationAutoReflects \<mapsto> boolToString (mdIsAutoCreated d)]
      in if mdReflectedAt d \<noteq> '''' then a(AnnotationReflectedAt \<mapsto> mdReflectedAt d) else a)"

record ReflectionResult =
  rrSourceID :: SourceID
  rrMirrorID :: MirrorID
  rrSuccess :: bool
  rrError :: "go_error option"
  rrSourceVersion :: string

definition NewReflectionResult :: "SourceID \<Rightarrow> MirrorID \<Rightarrow> bool \<Rightarrow> string \<Rightarrow> ReflectionResult" where
  "NewReflectionResult sid mid success v =
     \<lparr>rrSourceID = sid, rrMirrorID = mid, rrSuccess = success, rrError = None, rrSourceVersion = v\<rparr>"

text \<open>Parsing. The error value of \<open>ParseSourceAnnotations\<close> is always nil.\<close>

definition ParseSourceAnnotations :: "'a k8s_object_scheme \<Rightarrow> SourceDTO" where
  "ParseSourceAnnotations obj =
     (case Annotations obj of
        None \<Rightarrow> SourceDTO_zero
      | Some a \<Rightarrow>
          let d0 = SourceDTO_zero\<lparr>sdNamespace := Namespace obj, sdName := Name obj\<rparr>;
              d1 = (case a AnnotationReplicationAllowed of
                      Some val \<Rightarrow> d0\<lparr>sdAllowed := (val = ''true'')\<rparr> | None \<Rightarrow> d0);
              d2 = (case a AnnotationReplicationAllowedNamespaces of
                      Some val \<Rightarrow> d1\<lparr>sdAllowedNamespaces := parseNamespaceList val\<rparr> | None \<Rightarrow> d1);
              d3 = (case a AnnotationReplicationAutoEnabled of
                      Some val \<Rightarrow> d2\<lparr>sdAutoEnabled := (val = ''true'')\<rparr> | None \<Rightarrow> d2)
          in (case a AnnotationReplicationAutoNamespaces of
                Some val \<Rightarrow> d3\<lparr>sdAutoNamespaces := parseNamespaceList val\<rparr> | None \<Rightarrow> d3))"

definition ErrInvalidReflectsAnnotation :: go_error where
  "ErrInvalidReflectsAnnotation =
     ErrorText (''invalid reflects annotation format, expected '' @ [CHR 0x27] @ ''namespace/name'' @ [CHR 0x27])"

definition ParseMirrorAnnotations :: "'a k8s_object_scheme \<Rightarrow> go_error + MirrorDTO option" where
  "ParseMirrorAnnotations obj =
     (case Annotations obj of
        None \<Rightarrow> Inr None
      | Some a \<Rightarrow>
          (case a AnnotationReflects of
             None \<Rightarrow> Inr None
           | Some reflects \<Rightarrow>
               if reflects = '''' then Inr None
               else
                 let parts = splitReflectsAnnotation reflects in
                 if length parts \<noteq> 2 then Inl ErrInvalidReflectsAnnotation
                 else Inr (Some
                   \<lparr>mdNamespace = Namespace obj, mdName = Name obj, mdResourceType = '''', mdSourceID = '''',
                    mdSourceNamespace = parts ! 0, mdSourceName = parts ! 1, mdVersion = '''',
                    mdReflectsAnnotation = reflects,
                    mdIsAutoCreated = (annotation obj AnnotationAutoReflects = ''true''),
                    mdReflectedAt = annotation obj AnnotationReflectedAt\<rparr>)))"

section \<open>Classification of objects\<close>

text \<open>A value of type \<open>any\<close>, as far as the type switches distinguish it.\<close>

datatype any_object =
    PtrSecret Secret
  | PtrConfigMap ConfigMap
  | ValSecret Secret
  | ValConfigMap ConfigMap
  | OtherObject

fun GetResourceVersion :: "any_object \<Rightarrow> string" where
  "GetResourceVersion (PtrSecret v) = ResourceVersion v"
| "GetResourceVersion (PtrConfigMap v) = ResourceVersion v"
| "GetResourceVersion (ValSecret v) = ResourceVersion v"
| "GetResourceVersion (ValConfigMap v) = ResourceVersion v"
| "GetResourceVersion OtherObject = ''''"

fun IsSecret :: "any_object \<Rightarrow> bool" where
  "IsSecret (PtrSecret _) = True"
| "IsSecret _ = False"

fun IsConfigMap :: "any_object \<Rightarrow> bool" where
  "IsConfigMap (PtrConfigMap _) = True"
| "IsConfigMap _ = False"

definition has_helm_annotation :: "'a k8s_object_scheme \<Rightarrow> bool" where
  "has_helm_annotation obj \<longleftrightarrow>
     (case Annotations obj of
        None \<Rightarrow> False
      | Some a \<Rightarrow> a ''meta.helm.sh/release-name'' \<noteq> None \<or> a ''helm.sh/release'' \<noteq> None)"

definition IsHelmSecret :: "Secret \<Rightarrow> bool" where
  "IsHelmSecret secret \<longleftrightarrow> strings_HasPrefix (Type secret) ''helm.sh'' \<or> has_helm_annotation secret"

definition IsHelmConfigMap :: "ConfigMap \<Rightarrow> bool" where
  "IsHelmConfigMap cm \<longleftrightarrow> has_helm_annotation cm"

fun IsHelmResource :: "any_object \<Rightarrow> bool" where
  "IsHelmResource (PtrSecret v) = IsHelmSecret v"
| "IsHelmResource (PtrConfigMap v) = IsHelmConfigMap v"
| "IsHelmResource _ = False"

definition FormatTime :: "gotime \<Rightarrow> string" where
  "FormatTime t = format_RFC3339 t"

definition ParseTime :: "string \<Rightarrow> time_error + gotime" where
  "ParseTime s = time_Parse_RFC3339 s"

section \<open>Package annotations\<close>

definition MirrorAnnotations :: "gotime \<Rightarrow> string \<Rightarrow> string \<Rightarrow> string_map" where
  "MirrorAnnotations now sourceID version =
     [AnnotationReflects \<mapsto> sourceID, AnnotationReflectedVersion \<mapsto> version,
      AnnotationReflectedAt \<mapsto> format_RFC3339 now]"

definition AutoMirrorAnnotations :: "gotime \<Rightarrow> string \<Rightarrow> string \<Rightarrow> string_map" where
  "AutoMirrorAnnotations now sourceID version =
     [AnnotationReflects \<mapsto> sourceID, AnnotationReflectedVersion \<mapsto> version,
      AnnotationReflectedAt \<mapsto> format_RFC3339 now, AnnotationAutoReflects \<mapsto> ''true'']"

definition SourceAnnotations :: "bool \<Rightarrow> string \<Rightarrow> bool \<Rightarrow> string \<Rightarrow> string_map" where
  "SourceAnnotations allowed allowedNamespaces autoEnabled autoNamespaces =
     (let a1 = [AnnotationReplicationAllowed \<mapsto> boolToString allowed];
          a2 = (if allowedNamespaces \<noteq> ''''
                then a1(AnnotationReplicationAllowedNamespaces \<mapsto> allowedNamespaces) else a1);
          a3 = a2(AnnotationReplicationAutoEnabled \<mapsto> boolToString autoEnabled)
      in if autoNamespaces \<noteq> '''' then a3(AnnotationReplicationAutoNamespaces \<mapsto> autoNamespaces) else a3)"

section \<open>Reading a replicated-from annotation\<close>

text \<open>The program cuts the value of the annotation at its last slash in three places (packages
  \<open>dto\<close>, \<open>k8s\<close> and \<open>controllers\<close>). What every client of such a function needs
  is that it inverts \<open>SourceID.String\<close>.\<close>

locale reflects_splitter =
  fixes split :: "string \<Rightarrow> string list"
  assumes split_cut: "CHR ''/'' \<notin> set name \<Longrightarrow> split (ns @ CHR ''/'' # name) = [ns, name]"
    and split_absent: "CHR ''/'' \<notin> set value \<Longrightarrow> split value = ['''', value]"
begin

lemma two_parts: "length (split value) = 2"
  by (cases "CHR ''/''" "value" rule: last_cut_cases) (simp_all add: split_cut split_absent)

lemma inverts_String:
  "CHR ''/'' \<notin> set (sourceName sid) \<Longrightarrow>
   NewSourceID (split (SourceID_String sid) ! 0) (split (SourceID_String sid) ! 1) = sid"
  by (simp add: SourceID_String_def split_cut NewSourceID_def)

end

lemma split_back_absent: "CHR ''/'' \<notin> set v \<Longrightarrow> i \<le> length v \<Longrightarrow> split_back i v = ['''', v]"
  by (induction i) (auto simp: nth_absent Suc_le_eq)

lemma split_back_cut:
  "CHR ''/'' \<notin> set name \<Longrightarrow> k \<le> length name \<Longrightarrow>
   split_back (Suc (length ns) + k) (ns @ CHR ''/'' # name) = [ns, name]"
  by (induction k) (auto simp: nth_append nth_absent Suc_le_eq)

lemma split_back_splitter: "reflects_splitter (\<lambda>v. split_back (length v) v)"
proof
  show "split_back (length (ns @ CHR ''/'' # name)) (ns @ CHR ''/'' # name) = [ns, name]"
    if "CHR ''/'' \<notin> set name" for ns name
    using that split_back_cut [of name "length name" ns] by simp
qed (simp add: split_back_absent)

interpretation dto_split: reflects_splitter splitReflectsAnnotation
  using split_back_splitter by (simp add: splitReflectsAnnotation_def [abs_def])

section \<open>Reading a list of namespaces\<close>

lemma split_namespaces_loop_ascii:
  assumes "ascii s"
  shows "split_namespaces_loop (map of_char s) current result =
     result @ filter (\<lambda>p. p \<noteq> '''') (case strings_Split s (CHR '','') of [] \<Rightarrow> [current] | p # ps \<Rightarrow> (current @ p) # ps)"
  using assms
proof (induction s arbitrary: current result)
  case (Cons c s)
  have comma: "of_char c = (44 :: nat) \<longleftrightarrow> c = CHR '',''"
    using of_char_eq_iff [of c "CHR '',''"] by simp
  have "encode_rune (of_char c) = [c]"
    using Cons.prems by (simp add: encode_rune_def)
  then show ?case
    using Cons comma by (cases "strings_Split s (CHR '','')") auto
qed simp

lemma splitNamespaces_ascii:
  "ascii s \<Longrightarrow> splitNamespaces s = filter (\<lambda>p. p \<noteq> '''') (strings_Split s (CHR '',''))"
  using split_namespaces_loop_ascii [of s "''''" "[]"]
  by (cases "strings_Split s (CHR '','')") (auto simp: splitNamespaces_def runes_ascii)

lemma filter_map_filter_nonempty:
  "f [] = [] \<Longrightarrow> filter (\<lambda>p. p \<noteq> []) (map f (filter (\<lambda>p. p \<noteq> []) ps)) = filter (\<lambda>p. p \<noteq> []) (map f ps)"
  by (induction ps) auto

lemma trim_both_Nil [simp]: "trim_both P [] = []"
  by (simp add: trim_both_def)

lemma parseNamespaceList_ascii:
  "ascii s \<Longrightarrow> parseNamespaceList s = filter (\<lambda>p. p \<noteq> '''') (map trimSpace (strings_Split s (CHR '','')))"
  by (cases s) (simp_all add: parseNamespaceList_def splitNamespaces_ascii filter_map_filter_nonempty trimSpace_def)

lemma joinNamespaces_loop: "i > 0 \<Longrightarrow> join_loop i ps r = r @ concat (map (\<lambda>p. CHR '','' # p) ps)"
  by (induction ps arbitrary: i r) auto

lemma strings_Join_concat: "strings_Join (p # ps) sep = p @ concat (map (\<lambda>q. sep @ q) ps)"
  by (induction ps arbitrary: p) auto

lemma joinNamespaces_Join: "joinNamespaces ps = strings_Join ps '',''"
  by (cases ps) (simp_all add: joinNamespaces_def joinNamespaces_loop strings_Join_concat)

text \<open>A pattern as it survives the annotation: ASCII, not empty, no comma, no blank at either end.\<close>

definition clean_pattern :: "string \<Rightarrow> bool" where
  "clean_pattern p \<longleftrightarrow> ascii p \<and> p \<noteq> '''' \<and> CHR '','' \<notin> set p \<and> trimSpace p = p"

lemma clean_patternD: "clean_pattern p \<Longrightarrow> ascii p \<and> p \<noteq> [] \<and> CHR '','' \<notin> set p \<and> trimSpace p = p"
  by (simp add: clean_pattern_def)

lemma ascii_Join: "\<forall>p \<in> set ps. ascii p \<Longrightarrow> ascii (strings_Join ps '','')"
  by (cases ps) (auto simp: strings_Join_concat ascii_def)

lemma parse_join_namespaces:
  assumes "ps \<noteq> []" and "\<forall>p \<in> set ps. clean_pattern p"
  shows "parseNamespaceList (joinNamespaces ps) = ps"
proof -
  have "filter (\<lambda>p. p \<noteq> []) (map trimSpace ps) = ps"
    using assms(2) by (induction ps) (auto dest: clean_patternD)
  moreover have "strings_Split (strings_Join ps '','') (CHR '','') = ps"
    using assms by (intro strings_Split_Join) (auto dest: clean_patternD)
  moreover have "ascii (strings_Join ps '','')"
    using assms(2) by (intro ascii_Join) (auto dest: clean_patternD)
  ultimately show ?thesis
    by (simp add: joinNamespaces_Join parseNamespaceList_ascii)
qed

lemma trimSpace_TrimSpace:
  assumes "ascii p" and "\<forall>c \<in> set p. unicode_IsSpace (of_char c) \<longrightarrow> c = CHR '' '' \<or> c = CHR 0x09"
  shows "strings_TrimSpace p = trimSpace p"
proof -
  have "unicode_IsSpace (of_char (CHR '' ''))" "unicode_IsSpace (of_char (CHR 0x09))"
    by (simp_all add: unicode_IsSpace_def)
  then have blank: "unicode_IsSpace (of_char c) \<longleftrightarrow> c = CHR '' '' \<or> c = CHR 0x09" if "c \<in> set p" for c
    using assms(2) that by blast
  let ?u = "\<lambda>c. unicode_IsSpace (of_char c)" and ?b = "\<lambda>c. c = CHR '' '' \<or> c = CHR 0x09"
  have same: "dropWhile ?u q = dropWhile ?b q" if "set q \<subseteq> set p" for q
    using that blank by (intro dropWhile_cong) auto
  have "trim_both ?u p = trim_both ?b p"
    unfolding trim_both_def
    by (simp only: same [OF order_refl] same [of "rev (dropWhile ?b p)"] set_rev set_dropWhileD subsetI)
  with assms(1) show ?thesis
    by (simp only: strings_TrimSpace_ascii trimSpace_def)
qed

section \<open>Properties\<close>

text \<open>The two readers of namespace lists agree: on a non-empty ASCII annotation whose only white
  space is blanks and tabs, the hand-written \<open>parseNamespaceList\<close> of package \<open>dto\<close> returns
  what \<open>ParseAllowedNamespacesAnnotation\<close> of package \<open>valueobject\<close> returns.\<close>

theorem namespace_list_readers_agree:
  assumes "ascii value" and "value \<noteq> ''''"
    and "\<forall>c \<in> set value. unicode_IsSpace (of_char c) \<longrightarrow> c = CHR '' '' \<or> c = CHR 0x09"
  shows "parseNamespaceList value = ParseAllowedNamespacesAnnotation value"
proof -
  have "strings_TrimSpace p = trimSpace p" if "p \<in> set (strings_Split value (CHR '',''))" for p
  proof (rule trimSpace_TrimSpace)
    have "set p \<subseteq> set value"
      using strings_Split_pieces [OF that] by simp
    with assms show "ascii p"
      and "\<forall>c \<in> set p. unicode_IsSpace (of_char c) \<longrightarrow> c = CHR '' '' \<or> c = CHR 0x09"
      by (auto simp: ascii_def)
  qed
  then have trims: "map trimSpace (strings_Split value (CHR '','')) = map strings_TrimSpace (strings_Split value (CHR '',''))"
    by simp
  show ?thesis
  proof (cases "value = ''*''")
    case True
    then show ?thesis
      by (simp add: parseNamespaceList_ascii ParseAllowedNamespacesAnnotation_def trimSpace_def trim_both_def)
  next
    case False
    then show ?thesis
      unfolding parseNamespaceList_ascii [OF assms(1)] ParseAllowedNamespacesAnnotation_def trims
      using assms(2) by simp
  qed
qed

theorem namespace_list_readers_agree_witness:
  "parseNamespaceList ''dev, qa,,'' = ParseAllowedNamespacesAnnotation ''dev, qa,,''"
  by (rule namespace_list_readers_agree) (simp_all add: unicode_IsSpace_def)

text \<open>C27. Source annotations round trip: parsing the annotations that \<open>ToAnnotations\<close> writes
  gives back the switches and the namespace lists, when every listed pattern is clean (ASCII, not
  empty, no comma, no blank at either end).\<close>

theorem source_annotations_roundtrip:
  assumes "\<forall>p \<in> set (sdAllowedNamespaces d) \<union> set (sdAutoNamespaces d). clean_pattern p"
    and "Annotations obj = Some (SourceDTO_ToAnnotations d)"
  shows "ParseSourceAnnotations obj =
     d\<lparr>sdNamespace := Namespace obj, sdName := Name obj, sdResourceType := '''', sdVersion := ''''\<rparr>"
proof -
  have "boolToString b = ''true'' \<longleftrightarrow> b" for b
    by (simp add: boolToString_def)
  moreover have "parseNamespaceList (joinNamespaces ps) = ps" if "ps \<noteq> []" "set ps \<subseteq> Collect clean_pattern" for ps
    using that by (intro parse_join_namespaces) auto
  ultimately show ?thesis
    using assms
    by (cases d; cases "sdAllowedNamespaces d = []"; cases "sdAutoNamespaces d = []")
      (auto simp: ParseSourceAnnotations_def SourceDTO_ToAnnotations_def SourceDTO_zero_def Let_def subset_iff)
qed

theorem source_annotations_roundtrip_witness:
  "(let d = SourceDTO_zero\<lparr>sdAllowed := True, sdAllowedNamespaces := [''dev-*'', ''qa'']\<rparr>;
        obj = empty_object\<lparr>Name := ''db'', Annotations := Some (SourceDTO_ToAnnotations d)\<rparr>
    in ParseSourceAnnotations obj = d\<lparr>sdName := ''db''\<rparr>)"
proof -
  let ?d = "SourceDTO_zero\<lparr>sdAllowed := True, sdAllowedNamespaces := [''dev-*'', ''qa'']\<rparr>"
  let ?obj = "empty_object\<lparr>Name := ''db'', Annotations := Some (SourceDTO_ToAnnotations ?d)\<rparr>"
  have "\<forall>p \<in> set (sdAllowedNamespaces ?d) \<union> set (sdAutoNamespaces ?d). clean_pattern p"
    "Annotations ?obj = Some (SourceDTO_ToAnnotations ?d)"
    by (simp_all add: SourceDTO_zero_def clean_pattern_def trimSpace_def trim_both_def)
  from source_annotations_roundtrip [OF this] show ?thesis
    by (simp add: SourceDTO_zero_def empty_object_def)
qed

text \<open>Mirror annotations round trip: an object that carries the annotations of a mirror of a
  source whose name has no slash parses to that source, the mirror's auto flag and its time stamp.\<close>

theorem mirror_annotations_roundtrip:
  assumes "CHR ''/'' \<notin> set (sourceName (mirror_sourceID m))"
    and "Annotations obj = Some (MirrorDTO_ToAnnotations (NewMirrorDTO m))"
  shows "\<exists>d. ParseMirrorAnnotations obj = Inr (Some d) \<and>
     NewSourceID (mdSourceNamespace d) (mdSourceName d) = mirror_sourceID m \<and>
     mdIsAutoCreated d = mirror_isAutoCreated m \<and> mdReflectedAt d = mirror_reflectedAt m \<and>
     mdNamespace d = Namespace obj \<and> mdName d = Name obj"
proof -
  let ?sid = "mirror_sourceID m"
  have parts: "splitReflectsAnnotation (SourceID_String ?sid) = [sourceNamespace ?sid, sourceName ?sid]"
    using assms(1) by (simp add: SourceID_String_def dto_split.split_cut)
  have "SourceID_String ?sid \<noteq> []"
    by (simp add: SourceID_String_def)
  moreover have "annotation obj AnnotationReflectedAt = mirror_reflectedAt m"
    "annotation obj AnnotationAutoReflects = boolToString (mirror_isAutoCreated m)"
    using assms(2) by (simp_all add: annotation_def MirrorDTO_ToAnnotations_def NewMirrorDTO_def Let_def)
  moreover have "\<exists>a. Annotations obj = Some a \<and> a AnnotationReflects = Some (SourceID_String ?sid)"
    using assms(2) by (simp add: MirrorDTO_ToAnnotations_def NewMirrorDTO_def Let_def)
  ultimately show ?thesis
    using parts by (auto simp: ParseMirrorAnnotations_def boolToString_def NewSourceID_def)
qed

theorem mirror_annotations_roundtrip_witness:
  "(let m = NewAutoMirror (NewMirrorID ''dev'' ''db'') (NewSourceID ''prod'' ''db'') ''dev'' ''db'' ResourceTypeSecret;
        obj = empty_object\<lparr>Annotations := Some (MirrorDTO_ToAnnotations (NewMirrorDTO m))\<rparr>
    in \<exists>d. ParseMirrorAnnotations obj = Inr (Some d) \<and>
         NewSourceID (mdSourceNamespace d) (mdSourceName d) = NewSourceID ''prod'' ''db'')"
proof -
  let ?m = "NewAutoMirror (NewMirrorID ''dev'' ''db'') (NewSourceID ''prod'' ''db'') ''dev'' ''db'' ResourceTypeSecret"
  let ?obj = "empty_object\<lparr>Annotations := Some (MirrorDTO_ToAnnotations (NewMirrorDTO ?m))\<rparr>"
  have "CHR ''/'' \<notin> set (sourceName (mirror_sourceID ?m))"
    "Annotations ?obj = Some (MirrorDTO_ToAnnotations (NewMirrorDTO ?m))"
    by (simp_all add: record_defs)
  from mirror_annotations_roundtrip [OF this] show ?thesis
    unfolding Let_def by (auto simp: record_defs)
qed

text \<open>\<open>ParseMirrorAnnotations\<close> never returns \<open>ErrInvalidReflectsAnnotation\<close>: the
  splitter always yields two parts, so a value without a slash is accepted, with an empty source
  namespace, instead of being reported as malformed.\<close>

theorem malformed_reflects_accepted:
  "\<not> isl (ParseMirrorAnnotations obj) \<and>
   (case ParseMirrorAnnotations obj of
      Inr (Some d) \<Rightarrow> annotation obj AnnotationReflects \<noteq> '''' \<and>
        (if CHR ''/'' \<in> set (annotation obj AnnotationReflects)
         then annotation obj AnnotationReflects = mdSourceNamespace d @ ''/'' @ mdSourceName d
         else mdSourceNamespace d = '''' \<and> mdSourceName d = annotation obj AnnotationReflects)
    | _ \<Rightarrow> annotation obj AnnotationReflects = '''')"
proof -
  have two: "length (splitReflectsAnnotation v) = 2" for v
    by (rule dto_split.two_parts)
  have cut: "v = splitReflectsAnnotation v ! 0 @ CHR ''/'' # splitReflectsAnnotation v ! 1" if "CHR ''/'' \<in> set v" for v
    using that by (cases "CHR ''/''" v rule: last_cut_cases) (simp_all add: dto_split.split_cut)
  show ?thesis
    using cut
    by (auto simp: ParseMirrorAnnotations_def annotation_def two Let_def dto_split.split_absent split: option.splits)
qed

section \<open>Time stamps\<close>

text \<open>C28. Time stamps survive. For every instant of the years 0 to 9999, what \<open>FormatTime\<close> writes is read back by
  \<open>ParseTime\<close> to the second, and the date in it is one of the calendar. On every text the fast parser for this layout
  and the general parser agree.\<close>

theorem time_stamp_roundtrip:
  assumes "civil (t div 1000000000 div 86400) = (y, m, d)" "0 \<le> y" "y \<le> 9999"
  shows "ParseTime (FormatTime t) = Inr (t - t mod 1000000000) \<and> (\<forall>s. ParseTime s = parse_layout s) \<and>
     1 \<le> m \<and> m \<le> 12 \<and> 1 \<le> d \<and> d \<le> daysIn m y"
  using Parse_format [OF assms] civil_date [OF assms(1)]
  by (simp add: ParseTime_def FormatTime_def Parse_is_general minus_mod_eq_div_mult)

theorem time_stamp_roundtrip_witness:
  "ParseTime (FormatTime 1709210096000000123) = Inr 1709210096000000000"
proof -
  have "civil (1709210096000000123 div 1000000000 div 86400) = (2024, 2, 29)"
    by code_simp
  from time_stamp_roundtrip [OF this] show ?thesis
    by fastforce
qed

end
