(* ===== verification/Metrics.thy ===== *)
theory Metrics
  imports Go_Time
begin

text \<open>
  Package \<open>metrics\<close> (internal/metrics/metrics.go). The Prometheus registry is not part of the
  program; what the program does to it is the list of operations it performs on the registered
  collectors, in order. A duration is recorded in nanoseconds, a timestamp in seconds.
\<close>

datatype metric_op =
    Inc string "string list"
  | Set string "string list" int
  | Observe string "string list" duration

definition MirroredAssetsTotal :: string where
  "MirroredAssetsTotal = ''replikator_mirrored_assets_total''"

definition SyncErrorsTotal :: string where
  "SyncErrorsTotal = ''replikator_sync_errors_total''"

definition SourcesTotal :: string where
  "SourcesTotal = ''replikator_sources_total''"

definition ReflectionDuration :: string where
  "ReflectionDuration = ''replikator_reflection_duration_seconds''"

definition LastSyncTimestamp :: string where
  "LastSyncTimestamp = ''replikator_last_sync_timestamp''"

definition AutoMirrorsTotal :: string where
  "AutoMirrorsTotal = ''replikator_auto_mirrors_total''"

definition ManualMirrorsTotal :: string where
  "ManualMirrorsTotal = ''replikator_manual_mirrors_total''"

definition CacheHits :: string where
  "CacheHits = ''replikator_cache_hits_total''"

definition CacheMisses :: string where
  "CacheMisses = ''replikator_cache_misses_total''"

definition WatchSessionRestarts :: string where
  "WatchSessionRestarts = ''replikator_watch_session_restarts_total''"

definition ReconciliationDuration :: string where
  "ReconciliationDuration = ''replikator_reconciliation_duration_seconds''"

definition RecordReflectionSuccess :: "gotime \<Rightarrow> string \<Rightarrow> string \<Rightarrow> string \<Rightarrow> duration \<Rightarrow> metric_op list" where
  "RecordReflectionSuccess now sourceNs srcName mirrorNamespace d =
     [Observe ReflectionDuration [sourceNs, srcName, mirrorNamespace] d,
      Set LastSyncTimestamp [sourceNs, srcName] (now div 1000000000),
      Inc MirroredAssetsTotal [''active'', mirrorNamespace]]"

definition RecordReflectionError :: "string \<Rightarrow> string \<Rightarrow> string \<Rightarrow> string \<Rightarrow> metric_op list" where
  "RecordReflectionError sourceNs srcName mirrorNamespace errType =
     [Inc SyncErrorsTotal [errType], Inc MirroredAssetsTotal [''failed'', mirrorNamespace]]"

definition RecordSourceEnabled :: "string \<Rightarrow> metric_op list" where
  "RecordSourceEnabled namespace = [Inc SourcesTotal [''enabled'', namespace]]"

definition RecordSourceDisabled :: "string \<Rightarrow> metric_op list" where
  "RecordSourceDisabled namespace = [Inc SourcesTotal [''disabled'', namespace]]"

definition RecordAutoMirrorCreated :: "string \<Rightarrow> metric_op list" where
  "RecordAutoMirrorCreated namespace = [Inc AutoMirrorsTotal [namespace]]"

definition RecordManualMirrorCreated :: "string \<Rightarrow> metric_op list" where
  "RecordManualMirrorCreated namespace = [Inc ManualMirrorsTotal [namespace]]"

definition RecordCacheHit :: "string \<Rightarrow> metric_op list" where
  "RecordCacheHit cacheName = [Inc CacheHits [cacheName]]"

definition RecordCacheMiss :: "string \<Rightarrow> metric_op list" where
  "RecordCacheMiss cacheName = [Inc CacheMisses [cacheName]]"

definition RecordWatchSessionRestart :: "metric_op list" where
  "RecordWatchSessionRestart = [Inc WatchSessionRestarts []]"

definition RecordReconciliationDuration :: "string \<Rightarrow> string \<Rightarrow> duration \<Rightarrow> metric_op list" where
  "RecordReconciliationDuration controller result d = [Observe ReconciliationDuration [controller, result] d]"

end
