(* ===== verification/Keyed_Store.thy ===== *)
theory Keyed_Store
  imports Prelude
begin

text \<open>
  The contract that the caches and the mirror store share: entries are put, looked up and removed by
  key. A client of the contract may reason about any sequence of operations as updates of one
  partial function; the interpretations are in the theories of the stores.
\<close>

datatype ('k, 'v) store_op = Put 'k 'v | Remove 'k | RemoveAll

fun apply_op :: "('k \<Rightarrow> 'v \<Rightarrow> 's \<Rightarrow> 's) \<Rightarrow> ('k \<Rightarrow> 's \<Rightarrow> 's) \<Rightarrow> ('s \<Rightarrow> 's) \<Rightarrow> ('k, 'v) store_op \<Rightarrow> 's \<Rightarrow> 's" where
  "apply_op put remove clear (Put k v) s = put k v s"
| "apply_op put remove clear (Remove k) s = remove k s"
| "apply_op put remove clear RemoveAll s = clear s"

text \<open>The specification: the same operations on a partial function.\<close>

fun map_op :: "('k, 'v) store_op \<Rightarrow> ('k \<rightharpoonup> 'v) \<Rightarrow> ('k \<rightharpoonup> 'v)" where
  "map_op (Put k v) m = m(k \<mapsto> v)"
| "map_op (Remove k) m = m(k := None)"
| "map_op RemoveAll m = Map.empty"

fun touches :: "'k \<Rightarrow> ('k, 'v) store_op \<Rightarrow> bool" where
  "touches k (Put k' v) \<longleftrightarrow> k' = k"
| "touches k (Remove k') \<longleftrightarrow> k' = k"
| "touches k RemoveAll \<longleftrightarrow> True"

lemma map_op_untouched: "\<not> touches k op \<Longrightarrow> map_op op m k = m k"
  by (cases op) auto

lemma fold_map_op_untouched: "list_all (\<lambda>op. \<not> touches k op) ops \<Longrightarrow> fold map_op ops m k = m k"
  by (induction ops arbitrary: m) (auto simp: map_op_untouched)

locale keyed_store =
  fixes lookup :: "'s \<Rightarrow> 'k \<Rightarrow> 'v option"
    and put :: "'k \<Rightarrow> 'v \<Rightarrow> 's \<Rightarrow> 's"
    and remove :: "'k \<Rightarrow> 's \<Rightarrow> 's"
    and invar :: "'s \<Rightarrow> bool"
  assumes lookup_put: "invar s \<Longrightarrow> lookup (put k v s) = (lookup s)(k \<mapsto> v)"
    and lookup_remove: "invar s \<Longrightarrow> lookup (remove k s) = (lookup s)(k := None)"
    and invar_put: "invar s \<Longrightarrow> invar (put k v s)"
    and invar_remove: "invar s \<Longrightarrow> invar (remove k s)"
begin

lemma get_put: "invar s \<Longrightarrow> lookup (put k v s) k = Some v"
  by (simp add: lookup_put)

lemma remove_many:
  "invar s \<Longrightarrow> invar (fold remove ks s)"
  "invar s \<Longrightarrow> lookup (fold remove ks s) k = (if k \<in> set ks then None else lookup s k)"
  by (induction ks arbitrary: s) (auto simp: lookup_remove invar_remove)

end

text \<open>A store that can be emptied.\<close>

locale clearable_store = keyed_store lookup put remove invar
  for lookup :: "'s \<Rightarrow> 'k \<Rightarrow> 'v option" and put :: "'k \<Rightarrow> 'v \<Rightarrow> 's \<Rightarrow> 's" and remove :: "'k \<Rightarrow> 's \<Rightarrow> 's"
    and invar :: "'s \<Rightarrow> bool" +
  fixes clear :: "'s \<Rightarrow> 's"
  assumes lookup_clear: "invar s \<Longrightarrow> lookup (clear s) = Map.empty"
    and invar_clear: "invar s \<Longrightarrow> invar (clear s)"
begin

lemma step: "invar s \<Longrightarrow> invar (apply_op put remove clear op s)"
  "invar s \<Longrightarrow> lookup (apply_op put remove clear op s) = map_op op (lookup s)"
  by (cases op; simp add: lookup_put lookup_remove lookup_clear invar_put invar_remove invar_clear)+

lemma run:
  "invar s \<Longrightarrow> invar (fold (apply_op put remove clear) ops s)"
  "invar s \<Longrightarrow> lookup (fold (apply_op put remove clear) ops s) = fold map_op ops (lookup s)"
  by (induction ops arbitrary: s) (simp_all add: step)

text \<open>An entry survives every later operation that does not touch its key.\<close>

lemma put_survives:
  assumes "invar s" and "list_all (\<lambda>op. \<not> touches k op) ops"
  shows "lookup (fold (apply_op put remove clear) ops (put k v s)) k = Some v"
  using assms by (simp add: run(2) invar_put lookup_put fold_map_op_untouched)

end

text \<open>A store that also deletes by a property of its keys, and reports the keys it deleted.\<close>

locale sweepable_store = clearable_store lookup put remove invar clear
  for lookup :: "'s \<Rightarrow> 'k \<Rightarrow> 'v option" and put :: "'k \<Rightarrow> 'v \<Rightarrow> 's \<Rightarrow> 's" and remove :: "'k \<Rightarrow> 's \<Rightarrow> 's"
    and invar :: "'s \<Rightarrow> bool" and clear :: "'s \<Rightarrow> 's" +
  fixes sweep :: "'q \<Rightarrow> 's \<Rightarrow> 'k list \<times> 's"
    and selects :: "'q \<Rightarrow> 'k \<Rightarrow> 'v \<Rightarrow> bool"
  assumes swept_keys: "invar s \<Longrightarrow> k \<in> set (fst (sweep q s)) \<longleftrightarrow> (\<exists>v. lookup s k = Some v \<and> selects q k v)"
    and swept_once: "invar s \<Longrightarrow> distinct (fst (sweep q s))"
    and lookup_sweep: "invar s \<Longrightarrow> lookup (snd (sweep q s)) k =
           (case lookup s k of None \<Rightarrow> None | Some v \<Rightarrow> if selects q k v then None else Some v)"
    and invar_sweep: "invar s \<Longrightarrow> invar (snd (sweep q s))"
begin

lemma sweep_removes_exactly:
  assumes "invar s"
  shows "lookup (snd (sweep q s)) k = (if k \<in> set (fst (sweep q s)) then None else lookup s k)"
  using assms by (auto simp: swept_keys lookup_sweep split: option.splits)

lemma sweep_idem:
  assumes "invar s"
  shows "fst (sweep q (snd (sweep q s))) = []"
proof -
  have "k \<notin> set (fst (sweep q (snd (sweep q s))))" for k
    using assms by (auto simp: swept_keys lookup_sweep invar_sweep split: option.splits if_splits)
  then show ?thesis
    by (metis list.set_intros(1) neq_Nil_conv)
qed

end

text \<open>Association lists with distinct keys.\<close>

lemma alist_filter_keys:
  assumes "distinct (map fst m)"
  shows "map_of (filter P m) k = (case map_of m k of None \<Rightarrow> None | Some v \<Rightarrow> if P (k, v) then Some v else None)"
  using assms by (induction m) (auto simp: map_of_eq_None_iff split: option.splits)

lemma alist_swept:
  assumes "distinct (map fst m)"
  shows "k \<in> set (map fst (filter P (go_range rank m))) \<longleftrightarrow> (\<exists>v. map_of m k = Some v \<and> P (k, v))"
    and "distinct (map fst (filter P (go_range rank m)))"
proof -
  show "k \<in> set (map fst (filter P (go_range rank m))) \<longleftrightarrow> (\<exists>v. map_of m k = Some v \<and> P (k, v))"
    using assms by (force simp: image_iff intro: map_of_is_SomeI dest: map_of_SomeD)
  show "distinct (map fst (filter P (go_range rank m)))"
    using distinct_go_range [OF assms] by (rule distinct_map_filter)
qed

lemma distinct_alist_filter: "distinct (map fst m) \<Longrightarrow> distinct (map fst (filter P m))"
  by (rule distinct_map_filter)

end
