(* ===== verification/Cache.thy ===== *)
theory Cache
  imports Metrics Keyed_Store
begin

text \<open>
  Package \<open>infrastructure\<close> (internal/infrastructure/cache/cache.go): the expiring set of keys, the
  not-found cache over it, the mirror cache and the properties cache. An operation that reads the
  clock takes the reading as an argument; one that records metrics returns the operations it
  performs on them. Each operation runs under the lock of its cache, so it is one step.
\<close>

section \<open>Cache\<close>

record CacheEntry =
  Timestamp :: gotime
  Expiry :: duration

definition IsExpired :: "gotime \<Rightarrow> CacheEntry \<Rightarrow> bool" where
  "IsExpired now e \<longleftrightarrow> (if Expiry e = 0 then False else time_Sub now (Timestamp e) > Expiry e)"

record Cache =
  entries :: "(string \<times> CacheEntry) list"
  defExpiry :: duration

definition NewCache :: "duration \<Rightarrow> Cache" where
  "NewCache defaultExpiry = \<lparr>entries = [], defExpiry = defaultExpiry\<rparr>"

definition Cache_Get :: "gotime \<Rightarrow> string \<Rightarrow> Cache \<Rightarrow> CacheEntry option" where
  "Cache_Get now key c =
     (case map_of (entries c) key of
        None \<Rightarrow> None
      | Some e \<Rightarrow> if IsExpired now e then None else Some e)"

definition Cache_Set :: "gotime \<Rightarrow> string \<Rightarrow> duration \<Rightarrow> Cache \<Rightarrow> Cache" where
  "Cache_Set now key expiry c =
     c\<lparr>entries := AList.update key \<lparr>Timestamp = now, Expiry = expiry\<rparr> (entries c)\<rparr>"

definition Cache_SetWithExpiry :: "gotime \<Rightarrow> string \<Rightarrow> duration \<Rightarrow> Cache \<Rightarrow> Cache" where
  "Cache_SetWithExpiry now key expiry c = Cache_Set now key expiry c"

definition Cache_Delete :: "string \<Rightarrow> Cache \<Rightarrow> Cache" where
  "Cache_Delete key c = c\<lparr>entries := AList.delete key (entries c)\<rparr>"

definition Cache_Clear :: "Cache \<Rightarrow> Cache" where
  "Cache_Clear c = c\<lparr>entries := []\<rparr>"

text \<open>The sweep reads the clock once per entry: \<open>nows key\<close> is the reading for that entry.
  Deleting the entry being visited is the only change Go makes to the map while ranging over it, so
  the order of the visits does not matter.\<close>

definition Cleanup :: "(string \<Rightarrow> gotime) \<Rightarrow> Cache \<Rightarrow> Cache" where
  "Cleanup nows c = c\<lparr>entries := filter (\<lambda>(key, e). \<not> IsExpired (nows key) e) (entries c)\<rparr>"

section \<open>NotFoundCache\<close>

definition NewNotFoundCache :: "duration \<Rightarrow> Cache" where
  "NewNotFoundCache expiry = NewCache expiry"

definition MarkNotFound :: "gotime \<Rightarrow> string \<Rightarrow> Cache \<Rightarrow> Cache \<times> metric_op list" where
  "MarkNotFound now key c = (Cache_Set now key (defExpiry c) c, RecordCacheMiss ''not_found'')"

definition NotFoundCache_IsNotFound :: "gotime \<Rightarrow> string \<Rightarrow> Cache \<Rightarrow> bool \<times> metric_op list" where
  "NotFoundCache_IsNotFound now key c =
     (let exists = Cache_Get now key c \<noteq> None
      in (exists, if exists then RecordCacheHit ''not_found'' else []))"

definition MarkFound :: "string \<Rightarrow> Cache \<Rightarrow> Cache \<times> metric_op list" where
  "MarkFound key c = (Cache_Delete key c, RecordCacheHit ''not_found'')"

section \<open>MirrorCache\<close>

record MirrorEntry =
  entryMirrorID :: string
  entrySourceID :: string
  entryIsAuto :: bool
  entryCreatedAt :: gotime
  entryLastSyncAt :: gotime

type_synonym MirrorCache = "(string \<times> MirrorEntry) list"

definition NewMirrorCache :: MirrorCache where
  "NewMirrorCache = []"

definition MirrorCache_Get :: "string \<Rightarrow> MirrorCache \<Rightarrow> MirrorEntry option" where
  "MirrorCache_Get key c = map_of c key"

definition MirrorCache_Set :: "string \<Rightarrow> MirrorEntry \<Rightarrow> MirrorCache \<Rightarrow> MirrorCache" where
  "MirrorCache_Set key e c = AList.update key e c"

definition MirrorCache_Delete :: "string \<Rightarrow> MirrorCache \<Rightarrow> MirrorCache" where
  "MirrorCache_Delete key c = AList.delete key c"

definition ListBySource :: "(string \<Rightarrow> nat) \<Rightarrow> string \<Rightarrow> MirrorCache \<Rightarrow> MirrorEntry list" where
  "ListBySource rank sid c = filter (\<lambda>e. entrySourceID e = sid) (map snd (go_range rank c))"

definition DeleteBySource :: "(string \<Rightarrow> nat) \<Rightarrow> string \<Rightarrow> MirrorCache \<Rightarrow> string list \<times> MirrorCache" where
  "DeleteBySource rank sid c =
     (map fst (filter (\<lambda>(key, e). entrySourceID e = sid) (go_range rank c)),
      filter (\<lambda>(key, e). entrySourceID e \<noteq> sid) c)"

text \<open>\<open>for i := len(key) - 1; i >= 0; i--\<close>.\<close>

fun in_namespace_back :: "nat \<Rightarrow> string \<Rightarrow> string \<Rightarrow> bool" where
  "in_namespace_back 0 key namespace = False"
| "in_namespace_back (Suc i) key namespace =
     (if key ! i = CHR ''/'' then take i key = namespace else in_namespace_back i key namespace)"

definition isMirrorInNamespace :: "string \<Rightarrow> string \<Rightarrow> bool" where
  "isMirrorInNamespace key namespace = in_namespace_back (length key) key namespace"

definition DeleteByNamespace :: "(string \<Rightarrow> nat) \<Rightarrow> string \<Rightarrow> MirrorCache \<Rightarrow> string list \<times> MirrorCache" where
  "DeleteByNamespace rank namespace c =
     (map fst (filter (\<lambda>(key, e). isMirrorInNamespace key namespace) (go_range rank c)),
      filter (\<lambda>(key, e). \<not> isMirrorInNamespace key namespace) c)"

definition MirrorCache_Clear :: "MirrorCache \<Rightarrow> MirrorCache" where
  "MirrorCache_Clear c = []"

section \<open>PropertiesCache\<close>

record SourceProperties =
  propsAllowed :: bool
  propsAllowedNamespaces :: "string list"
  propsAutoEnabled :: bool
  propsAutoNamespaces :: "string list"
  propsVersion :: string

record PropertiesCache =
  props :: "string \<rightharpoonup> SourceProperties"
  notFound :: Cache

definition NewPropertiesCache :: "duration \<Rightarrow> PropertiesCache" where
  "NewPropertiesCache notFoundExpiry = \<lparr>props = Map.empty, notFound = NewNotFoundCache notFoundExpiry\<rparr>"

definition PropertiesCache_Get :: "string \<Rightarrow> PropertiesCache \<Rightarrow> SourceProperties option \<times> metric_op list" where
  "PropertiesCache_Get key c =
     (case props c key of
        Some p \<Rightarrow> (Some p, RecordCacheHit ''properties'')
      | None \<Rightarrow> (None, RecordCacheMiss ''properties''))"

definition PropertiesCache_Set :: "string \<Rightarrow> SourceProperties \<Rightarrow> PropertiesCache \<Rightarrow> PropertiesCache \<times> metric_op list" where
  "PropertiesCache_Set key p c =
     (let (nf, ops) = MarkFound key (notFound c)
      in (\<lparr>props = (props c)(key \<mapsto> p), notFound = nf\<rparr>, ops @ RecordCacheHit ''properties''))"

definition PropertiesCache_Delete :: "string \<Rightarrow> PropertiesCache \<Rightarrow> PropertiesCache \<times> metric_op list" where
  "PropertiesCache_Delete key c =
     (let (nf, ops) = MarkFound key (notFound c) in (\<lparr>props = (props c)(key := None), notFound = nf\<rparr>, ops))"

definition PropertiesCache_IsNotFound :: "gotime \<Rightarrow> string \<Rightarrow> PropertiesCache \<Rightarrow> bool \<times> metric_op list" where
  "PropertiesCache_IsNotFound now key c = NotFoundCache_IsNotFound now key (notFound c)"

definition PropertiesCache_MarkNotFound :: "gotime \<Rightarrow> string \<Rightarrow> PropertiesCache \<Rightarrow> PropertiesCache \<times> metric_op list" where
  "PropertiesCache_MarkNotFound now key c =
     (let (nf, ops) = MarkNotFound now key (notFound c) in (\<lparr>props = (props c)(key := None), notFound = nf\<rparr>, ops))"

definition PropertiesCache_Clear :: "PropertiesCache \<Rightarrow> PropertiesCache" where
  "PropertiesCache_Clear c = \<lparr>props = Map.empty, notFound = Cache_Clear (notFound c)\<rparr>"

section \<open>Lemmas\<close>

text \<open>The scan from the right stops at the last slash.\<close>

lemma in_namespace_back_absent: "CHR ''/'' \<notin> set key \<Longrightarrow> i \<le> length key \<Longrightarrow> \<not> in_namespace_back i key namespace"
  by (induction i) (auto simp: nth_absent Suc_le_eq)

lemma in_namespace_back_cut:
  "CHR ''/'' \<notin> set name \<Longrightarrow> k \<le> length name \<Longrightarrow>
   in_namespace_back (Suc (length ns) + k) (ns @ CHR ''/'' # name) namespace \<longleftrightarrow> ns = namespace"
  by (induction k) (auto simp: nth_append nth_absent Suc_le_eq)

lemma isMirrorInNamespace_iff:
  "isMirrorInNamespace key namespace \<longleftrightarrow> (\<exists>name. CHR ''/'' \<notin> set name \<and> key = namespace @ CHR ''/'' # name)"
proof (cases "CHR ''/''" key rule: last_cut_cases)
  case absent
  then show ?thesis
    by (auto simp: isMirrorInNamespace_def in_namespace_back_absent)
next
  case (cut ns name)
  then have "isMirrorInNamespace key namespace \<longleftrightarrow> ns = namespace"
    using in_namespace_back_cut [of name "length name" ns namespace] by (simp add: isMirrorInNamespace_def)
  with cut show ?thesis
    by (auto simp: last_cut_unique)
qed

lemma Cache_Get_Set:
  "Cache_Get now key (Cache_Set t key' d c) =
     (if key = key'
      then (if IsExpired now \<lparr>Timestamp = t, Expiry = d\<rparr> then None else Some \<lparr>Timestamp = t, Expiry = d\<rparr>)
      else Cache_Get now key c)"
  by (simp add: Cache_Get_def Cache_Set_def map_of_update)

lemma Cache_Get_Delete:
  "Cache_Get now key (Cache_Delete key' c) = (if key = key' then None else Cache_Get now key c)"
  by (simp add: Cache_Get_def Cache_Delete_def map_of_delete)

lemma Cache_Get_Clear [simp]: "Cache_Get now key (Cache_Clear c) = None"
  by (simp add: Cache_Get_def Cache_Clear_def)

interpretation mc: sweepable_store
  "\<lambda>c key. MirrorCache_Get key c" MirrorCache_Set MirrorCache_Delete
  "\<lambda>c. distinct (map fst c)" MirrorCache_Clear "\<lambda>(rank, ns). DeleteByNamespace rank ns"
  "\<lambda>(rank, ns) key e. isMirrorInNamespace key ns"
  by unfold_locales
    (auto simp: MirrorCache_Get_def MirrorCache_Set_def MirrorCache_Delete_def MirrorCache_Clear_def
      DeleteByNamespace_def map_of_update map_of_delete distinct_update distinct_delete
      alist_filter_keys alist_swept distinct_alist_filter split: option.splits simp del: set_map)

interpretation mcs: sweepable_store
  "\<lambda>c key. MirrorCache_Get key c" MirrorCache_Set MirrorCache_Delete
  "\<lambda>c. distinct (map fst c)" MirrorCache_Clear "\<lambda>(rank, sid). DeleteBySource rank sid"
  "\<lambda>(rank, sid) key e. entrySourceID e = sid"
  by unfold_locales
    (auto simp: MirrorCache_Get_def DeleteBySource_def
      alist_filter_keys alist_swept distinct_alist_filter split: option.splits simp del: set_map)

interpretation pc: clearable_store
  "\<lambda>c key. fst (PropertiesCache_Get key c)" "\<lambda>key p c. fst (PropertiesCache_Set key p c)"
  "\<lambda>key c. fst (PropertiesCache_Delete key c)" "\<lambda>_. True" PropertiesCache_Clear
  by unfold_locales
    (auto simp: PropertiesCache_Get_def PropertiesCache_Set_def PropertiesCache_Delete_def
      PropertiesCache_Clear_def MarkFound_def split: option.splits)

section \<open>The two halves of the properties cache\<close>

text \<open>The steps a properties cache takes; its two maps never hold the same key.\<close>

inductive props_step :: "PropertiesCache \<Rightarrow> PropertiesCache \<Rightarrow> bool" where
  Set_step: "props_step c (fst (PropertiesCache_Set key p c))"
| Delete_step: "props_step c (fst (PropertiesCache_Delete key c))"
| MarkNotFound_step: "props_step c (fst (PropertiesCache_MarkNotFound now key c))"
| Clear_step: "props_step c (PropertiesCache_Clear c)"

inductive_cases props_stepE: "props_step c c'"

definition props_exclusive :: "PropertiesCache \<Rightarrow> bool" where
  "props_exclusive c \<longleftrightarrow> dom (props c) \<inter> fst ` set (entries (notFound c)) = {}"

lemmas props_ops = PropertiesCache_Set_def PropertiesCache_Delete_def PropertiesCache_MarkNotFound_def
  PropertiesCache_Clear_def MarkFound_def MarkNotFound_def Cache_Set_def Cache_Delete_def Cache_Clear_def

lemma keys_delete: "fst ` set (AList.delete k m) = fst ` set m - {k}"
  by (metis delete_keys list.set_map set_removeAll)

lemma props_step_exclusive: "props_step c c' \<Longrightarrow> props_exclusive c \<Longrightarrow> props_exclusive c'"
  by (erule props_stepE; simp add: props_exclusive_def props_ops dom_update keys_delete) blast+

lemma props_exclusive_new: "props_exclusive (NewPropertiesCache d)"
  by (simp add: props_exclusive_def NewPropertiesCache_def)

section \<open>Properties\<close>

text \<open>The window of a not-found mark: after \<open>MarkNotFound\<close> at instant \<open>t\<close> the key is
  reported as not found exactly while the time elapsed is at most the default expiry (for ever when
  that is zero); every other key answers as before; \<open>MarkFound\<close> ends the window at once.\<close>

theorem not_found_window:
  "fst (NotFoundCache_IsNotFound now key' (fst (MarkNotFound t key c))) =
     (if key' = key then defExpiry c = 0 \<or> time_Sub now t \<le> defExpiry c
      else fst (NotFoundCache_IsNotFound now key' c)) \<and>
   fst (NotFoundCache_IsNotFound now key' (fst (MarkFound key c))) =
     (if key' = key then False else fst (NotFoundCache_IsNotFound now key' c))"
  by (auto simp: NotFoundCache_IsNotFound_def MarkNotFound_def MarkFound_def Cache_Get_Set Cache_Get_Delete IsExpired_def)


text \<open>Deleting a namespace from the mirror cache, in whatever order the runtime visits the
  entries: the keys reported are, without repetition, the cached keys whose part before the last slash
  is the namespace, those entries and no others are gone, and a second deletion reports nothing.\<close>

theorem delete_by_namespace_exact:
  assumes "distinct (map fst c)"
  shows "(let (deleted, c') = DeleteByNamespace rank ns c in
     (\<forall>key. key \<in> set deleted \<longleftrightarrow> MirrorCache_Get key c \<noteq> None \<and>
              (\<exists>name. CHR ''/'' \<notin> set name \<and> key = ns @ ''/'' @ name)) \<and>
     distinct deleted \<and>
     (\<forall>key. MirrorCache_Get key c' = (if key \<in> set deleted then None else MirrorCache_Get key c)) \<and>
     fst (DeleteByNamespace rank' ns c') = [])"
proof -
  have "fst (DeleteByNamespace rank' ns (snd (DeleteByNamespace rank ns c))) = []"
    using assms by (auto simp: DeleteByNamespace_def filter_empty_conv)
  then show ?thesis
    using mc.swept_keys [OF assms, of _ "(rank, ns)"] mc.swept_once [OF assms, of "(rank, ns)"]
      mc.sweep_removes_exactly [OF assms, of _ "(rank, ns)"]
    by (auto simp: Let_def isMirrorInNamespace_iff split: prod.splits)
qed

theorem delete_by_namespace_exact_witness:
  "(let e = \<lparr>entryMirrorID = ''dev/a'', entrySourceID = ''prod/a'', entryIsAuto = True, entryCreatedAt = 0, entryLastSyncAt = 0\<rparr>
    in \<forall>key. MirrorCache_Get key (snd (DeleteByNamespace (\<lambda>_. 0) ''dev'' [(''dev/a'', e), (''qa/a'', e)])) =
         (if key \<in> set (fst (DeleteByNamespace (\<lambda>_. 0) ''dev'' [(''dev/a'', e), (''qa/a'', e)])) then None
          else MirrorCache_Get key [(''dev/a'', e), (''qa/a'', e)]))"
proof -
  have "distinct (map fst [(''dev/a'', e), (''qa/a'', e)])" for e :: MirrorEntry
    by simp
  from delete_by_namespace_exact [OF this, of "\<lambda>_. 0" "''dev''"] show ?thesis
    unfolding Let_def by (simp only: case_prod_beta) blast
qed

text \<open>In every state a properties cache reaches from its constructor, no source has
  cached properties and a not-found mark at the same time.\<close>

theorem properties_cache_exclusive:
  assumes "props_step\<^sup>*\<^sup>* (NewPropertiesCache d) c"
  shows "dom (props c) \<inter> fst ` set (entries (notFound c)) = {}"
proof -
  from assms have "props_exclusive c"
    by (induction rule: rtranclp_induct) (auto intro: props_exclusive_new props_step_exclusive)
  then show ?thesis
    by (simp add: props_exclusive_def)
qed

theorem properties_cache_exclusive_witness:
  "(let c = fst (PropertiesCache_MarkNotFound 7 ''a/b'' (NewPropertiesCache 60))
    in fst ` set (entries (notFound c)) = {''a/b''} \<and> dom (props c) \<inter> fst ` set (entries (notFound c)) = {})"
proof -
  have "props_step\<^sup>*\<^sup>* (NewPropertiesCache 60) (fst (PropertiesCache_MarkNotFound 7 ''a/b'' (NewPropertiesCache 60)))"
    by (rule r_into_rtranclp) (rule MarkNotFound_step)
  from properties_cache_exclusive [OF this] show ?thesis
    by (simp add: Let_def PropertiesCache_MarkNotFound_def MarkNotFound_def Cache_Set_def NewPropertiesCache_def
        NewNotFoundCache_def NewCache_def)
qed

end
