(* ===== verification/Watcher.thy ===== *)
theory Watcher
  imports Events
begin

text \<open>
  Package \<open>watcher\<close> (internal/watcher/watcher.go): watch sessions and their manager, the bounded
  event channel, and the dispatcher goroutine that drains it. A channel is its buffer and whether it
  is closed; closing a closed channel and sending on one panic, which is the result \<open>None\<close>.
\<close>

section \<open>Watch sessions\<close>

record WatchSession =
  running :: bool
  stopCh_closed :: bool
  stoppedCh_closed :: bool
  session_timeout :: duration
  sessionStart :: gotime

text \<open>The zero \<open>time.Time\<close>, January 1 of year 1.\<close>

definition zero_time :: gotime where
  "zero_time = - 62135596800 * 1000000000"

definition NewWatchSession :: "duration \<Rightarrow> WatchSession" where
  "NewWatchSession timeout =
     \<lparr>running = False, stopCh_closed = False, stoppedCh_closed = False, session_timeout = timeout,
      sessionStart = zero_time\<rparr>"

definition WatchSession_Start :: "gotime \<Rightarrow> WatchSession \<Rightarrow> WatchSession" where
  "WatchSession_Start now s = s\<lparr>running := True, sessionStart := now, stoppedCh_closed := False\<rparr>"

definition WatchSession_Stop :: "WatchSession \<Rightarrow> WatchSession option" where
  "WatchSession_Stop s =
     (if \<not> running s then Some s
      else if stopCh_closed s then None
      else Some (s\<lparr>stopCh_closed := True, running := False\<rparr>))"

text \<open>\<open><-stoppedCh\<close> returns only on a closed channel: nobody sends on it.\<close>

definition WaitForStop_returns :: "WatchSession \<Rightarrow> bool" where
  "WaitForStop_returns s \<longleftrightarrow> stoppedCh_closed s"

definition WatchSession_IsExpired :: "gotime \<Rightarrow> WatchSession \<Rightarrow> bool" where
  "WatchSession_IsExpired now s \<longleftrightarrow>
     (if session_timeout s = 0 then False
      else if \<not> running s then False
      else time_Sub now (sessionStart s) > session_timeout s)"

definition RemainingTime :: "gotime \<Rightarrow> WatchSession \<Rightarrow> duration" where
  "RemainingTime now s =
     (if session_timeout s = 0 then 0
      else
        let elapsed = time_Sub now (sessionStart s);
            remaining = wrap64 (session_timeout s - elapsed)
        in if remaining < 0 then 0 else remaining)"

section \<open>The session manager\<close>

text \<open>A handler registered with \<open>OnSessionEnd\<close> is a closure; it is named by a value of type
  \<open>'h\<close>, and \<open>run\<close> gives its effect on the state it captures.\<close>

record 'h SessionManager =
  session :: "WatchSession option"
  manager_timeout :: duration
  onSessionEnd :: "'h list"

definition NewSessionManager :: "duration \<Rightarrow> 'h SessionManager" where
  "NewSessionManager timeout = \<lparr>session = None, manager_timeout = timeout, onSessionEnd = []\<rparr>"

definition StartSession :: "gotime \<Rightarrow> 'h SessionManager \<Rightarrow> 'h SessionManager option" where
  "StartSession now m =
     (let fresh = m\<lparr>session := Some (WatchSession_Start now (NewWatchSession (manager_timeout m)))\<rparr> in
      case session m of
        Some s \<Rightarrow>
          if running s then (case WatchSession_Stop s of None \<Rightarrow> None | Some _ \<Rightarrow> Some fresh) else Some fresh
      | None \<Rightarrow> Some fresh)"

definition EndSession :: "('h \<Rightarrow> 's \<Rightarrow> 's) \<Rightarrow> 'h SessionManager \<Rightarrow> 's \<Rightarrow> ('h SessionManager \<times> 's) option" where
  "EndSession run m st =
     (case session m of
        None \<Rightarrow> Some (m, st)
      | Some s \<Rightarrow>
          (case WatchSession_Stop s of
             None \<Rightarrow> None
           | Some s' \<Rightarrow> Some (m\<lparr>session := Some s'\<rparr>, fold run (onSessionEnd m) st)))"

definition OnSessionEnd :: "'h \<Rightarrow> 'h SessionManager \<Rightarrow> 'h SessionManager" where
  "OnSessionEnd h m = m\<lparr>onSessionEnd := onSessionEnd m @ [h]\<rparr>"

definition IsSessionValid :: "gotime \<Rightarrow> 'h SessionManager \<Rightarrow> bool" where
  "IsSessionValid now m \<longleftrightarrow>
     (case session m of
        None \<Rightarrow> False
      | Some s \<Rightarrow> running s \<and> \<not> WatchSession_IsExpired now s)"

section \<open>The event channel\<close>

type_synonym WatchEventType = string

definition EventAdd :: WatchEventType where
  "EventAdd = ''ADDED''"

definition EventUpdate :: WatchEventType where
  "EventUpdate = ''MODIFIED''"

definition EventDelete :: WatchEventType where
  "EventDelete = ''DELETED''"

lemma WatchEventType_distinct [simp]:
  "EventAdd \<noteq> EventUpdate" "EventAdd \<noteq> EventDelete" "EventUpdate \<noteq> EventDelete"
  "EventUpdate \<noteq> EventAdd" "EventDelete \<noteq> EventAdd" "EventDelete \<noteq> EventUpdate"
  by (simp_all add: EventAdd_def EventUpdate_def EventDelete_def)

text \<open>Objects of type \<open>any\<close> are values of a type \<open>'o\<close>; \<open>None\<close> is nil.\<close>

record 'o WatchEvent =
  weType :: WatchEventType
  weKey :: string
  weObject :: "'o option"
  weOldObject :: "'o option"

definition WatchEvent_zero :: "'o WatchEvent" where
  "WatchEvent_zero = \<lparr>weType = '''', weKey = '''', weObject = None, weOldObject = None\<rparr>"

record 'o EventChannel =
  ch :: "'o WatchEvent list"
  buf :: int
  ch_closed :: bool
  ec_done :: bool

text \<open>\<open>make(chan, n)\<close> panics for a negative size.\<close>

definition NewEventChannel :: "int \<Rightarrow> 'o EventChannel option" where
  "NewEventChannel bufferSize =
     (if bufferSize < 0 then None
      else Some \<lparr>ch = [], buf = bufferSize, ch_closed = False, ec_done = False\<rparr>)"

text \<open>The \<open>select\<close> with a default sends without blocking: into the buffer when there is room, or
  directly to a receiver that is waiting (\<open>taken\<close>, possible only on an empty buffer).\<close>

definition Send :: "bool \<Rightarrow> 'o WatchEvent \<Rightarrow> 'o EventChannel \<Rightarrow> (bool \<times> 'o EventChannel) option" where
  "Send taken ev ec =
     (if ec_done ec then Some (False, ec)
      else if ch_closed ec then None
      else if taken \<and> ch ec = [] then Some (True, ec)
      else if int (length (ch ec)) < buf ec then Some (True, ec\<lparr>ch := ch ec @ [ev]\<rparr>)
      else Some (False, ec))"

text \<open>A receive from an empty channel that is not closed blocks: \<open>None\<close>.\<close>

definition Receive :: "'o EventChannel \<Rightarrow> (('o WatchEvent \<times> bool) \<times> 'o EventChannel) option" where
  "Receive ec =
     (case ch ec of
        ev # rest \<Rightarrow> Some ((ev, True), ec\<lparr>ch := rest\<rparr>)
      | [] \<Rightarrow> if ch_closed ec then Some ((WatchEvent_zero, False), ec) else None)"

definition Close :: "'o EventChannel \<Rightarrow> 'o EventChannel option" where
  "Close ec = (if ch_closed ec then None else Some (ec\<lparr>ec_done := True, ch_closed := True\<rparr>))"

definition Pending :: "'o EventChannel \<Rightarrow> int" where
  "Pending ec = int (length (ch ec))"

section \<open>The dispatcher goroutine\<close>

record ('o, 'w) WatchEventHandler =
  OnAdd :: "'o option \<Rightarrow> 'w \<Rightarrow> go_error option \<times> 'w"
  OnUpdate :: "'o option \<Rightarrow> 'o option \<Rightarrow> 'w \<Rightarrow> go_error option \<times> 'w"
  OnDelete :: "'o option \<Rightarrow> 'w \<Rightarrow> go_error option \<times> 'w"
  OnError :: "go_error \<Rightarrow> 'w \<Rightarrow> go_error option \<times> 'w"

text \<open>One handler's turn; what \<open>OnError\<close> returns is only logged.\<close>

definition handle_event :: "'o WatchEvent \<Rightarrow> ('o, 'w) WatchEventHandler \<Rightarrow> 'w \<Rightarrow> 'w" where
  "handle_event ev h w =
     (let (err, w') =
        (if weType ev = EventAdd then OnAdd h (weObject ev) w
         else if weType ev = EventUpdate then OnUpdate h (weObject ev) (weOldObject ev) w
         else if weType ev = EventDelete then OnDelete h (weObject ev) w
         else (None, w))
      in case err of None \<Rightarrow> w' | Some e \<Rightarrow> snd (OnError h e w'))"

definition dispatchEvent :: "('o, 'w) WatchEventHandler list \<Rightarrow> 'o WatchEvent \<Rightarrow> 'w \<Rightarrow> 'w" where
  "dispatchEvent hs ev w = fold (handle_event ev) hs w"

record ('o, 'w) dispatcher_state =
  channel :: "'o EventChannel"
  eventHandlers :: "('o, 'w) WatchEventHandler list"
  disp_stopped :: bool
  ctx_done :: bool
  loop_running :: bool
  sent :: "'o WatchEvent list"
  handled :: "'o WatchEvent list"
  disp_world :: 'w

text \<open>\<open>sent\<close> and \<open>handled\<close> record the events accepted by \<open>Send\<close> and dispatched by the
  goroutine; they are not part of the program. \<open>NewEventDispatcher\<close> and \<open>Start\<close>:\<close>

definition NewEventDispatcher :: "int \<Rightarrow> 'w \<Rightarrow> ('o, 'w) dispatcher_state option" where
  "NewEventDispatcher bufferSize w =
     (case NewEventChannel bufferSize of
        None \<Rightarrow> None
      | Some ec \<Rightarrow> Some \<lparr>channel = ec, eventHandlers = [], disp_stopped = False, ctx_done = False,
          loop_running = False, sent = [], handled = [], disp_world = w\<rparr>)"

definition AddHandler :: "('o, 'w) WatchEventHandler \<Rightarrow> ('o, 'w) dispatcher_state \<Rightarrow> ('o, 'w) dispatcher_state" where
  "AddHandler h d = d\<lparr>eventHandlers := eventHandlers d @ [h]\<rparr>"

definition EventDispatcher_Start :: "('o, 'w) dispatcher_state \<Rightarrow> ('o, 'w) dispatcher_state" where
  "EventDispatcher_Start d = d\<lparr>loop_running := True\<rparr>"

text \<open>\<open>Stop\<close> closes the stop channel, which panics when it is closed already, and then waits until the goroutine has
  returned.\<close>

definition EventDispatcher_Stop :: "('o, 'w) dispatcher_state \<Rightarrow> ('o, 'w) dispatcher_state option" where
  "EventDispatcher_Stop d = (if disp_stopped d then None else Some (d\<lparr>disp_stopped := True\<rparr>))"

definition Stop_returns :: "('o, 'w) dispatcher_state \<Rightarrow> bool" where
  "Stop_returns d \<longleftrightarrow> disp_stopped d \<and> \<not> loop_running d"

text \<open>The interleaving of producers, the goroutine \<open>processEvents\<close> and the outside. When
  several cases of its \<open>select\<close> are ready the goroutine takes any of them. The event that a waiting
  receiver takes directly from \<open>Send\<close> is a \<open>Send\<close> followed by the receive.\<close>

inductive disp_step :: "('o, 'w) dispatcher_state \<Rightarrow> ('o, 'w) dispatcher_state \<Rightarrow> bool" where
  send_step: "Send False ev (channel d) = Some (ok, ec) \<Longrightarrow>
     disp_step d (d\<lparr>channel := ec, sent := (if ok then sent d @ [ev] else sent d)\<rparr>)"
| hand_over_step: "loop_running d \<Longrightarrow> Send True ev (channel d) = Some (True, channel d) \<Longrightarrow>
     disp_step d (d\<lparr>sent := sent d @ [ev], handled := handled d @ [ev],
       disp_world := dispatchEvent (eventHandlers d) ev (disp_world d)\<rparr>)"
| close_step: "Close (channel d) = Some ec \<Longrightarrow> disp_step d (d\<lparr>channel := ec\<rparr>)"
| cancel_step: "disp_step d (d\<lparr>ctx_done := True\<rparr>)"
| stop_step: "EventDispatcher_Stop d = Some d' \<Longrightarrow> disp_step d d'"
| exit_step: "loop_running d \<Longrightarrow> ctx_done d \<or> disp_stopped d \<Longrightarrow> disp_step d (d\<lparr>loop_running := False\<rparr>)"
| drained_step: "loop_running d \<Longrightarrow> Receive (channel d) = Some ((ev, False), ec) \<Longrightarrow>
     disp_step d (d\<lparr>loop_running := False\<rparr>)"
| receive_step: "loop_running d \<Longrightarrow> Receive (channel d) = Some ((ev, True), ec) \<Longrightarrow>
     disp_step d (d\<lparr>channel := ec, handled := handled d @ [ev],
       disp_world := dispatchEvent (eventHandlers d) ev (disp_world d)\<rparr>)"

inductive_cases disp_stepE: "disp_step d d'"

section \<open>Sessions: reachable states\<close>

text \<open>The calls a session manager receives, in any order and at any instants.\<close>

inductive manager_reach :: "('h \<Rightarrow> 's \<Rightarrow> 's) \<Rightarrow> duration \<Rightarrow> 'h SessionManager \<Rightarrow> bool" for run timeout where
  manager_new: "manager_reach run timeout (NewSessionManager timeout)"
| manager_start: "manager_reach run timeout m \<Longrightarrow> StartSession now m = Some m' \<Longrightarrow> manager_reach run timeout m'"
| manager_end: "manager_reach run timeout m \<Longrightarrow> EndSession run m st = Some (m', st') \<Longrightarrow> manager_reach run timeout m'"
| manager_hook: "manager_reach run timeout m \<Longrightarrow> manager_reach run timeout (OnSessionEnd h m)"

definition wf_session :: "WatchSession \<Rightarrow> bool" where
  "wf_session s \<longleftrightarrow> (running s \<longrightarrow> \<not> stopCh_closed s) \<and> \<not> stoppedCh_closed s"

definition wf_manager :: "duration \<Rightarrow> 'h SessionManager \<Rightarrow> bool" where
  "wf_manager timeout m \<longleftrightarrow> manager_timeout m = timeout \<and>
     (case session m of None \<Rightarrow> True | Some s \<Rightarrow> wf_session s \<and> session_timeout s = timeout)"

lemmas session_defs = NewSessionManager_def StartSession_def EndSession_def OnSessionEnd_def NewWatchSession_def
  WatchSession_Start_def WatchSession_Stop_def wf_session_def

lemma wf_manager_reach: "manager_reach run timeout m \<Longrightarrow> wf_manager timeout m"
  by (induction rule: manager_reach.induct)
    (auto simp: wf_manager_def session_defs Let_def split: option.splits if_splits)

lemma wf_manager_calls:
  "wf_manager timeout m \<Longrightarrow> StartSession now m \<noteq> None"
  "wf_manager timeout m \<Longrightarrow> EndSession run m st \<noteq> None"
  by (auto simp: wf_manager_def session_defs Let_def split: option.splits)

section \<open>The dispatcher: reachable states\<close>

text \<open>A dispatcher as \<open>NewEventDispatcher\<close>, \<open>AddHandler\<close> and \<open>Start\<close> leave it.\<close>

definition fresh_dispatcher :: "('o, 'w) dispatcher_state \<Rightarrow> bool" where
  "fresh_dispatcher d \<longleftrightarrow> ch (channel d) = [] \<and> 0 \<le> buf (channel d) \<and> ch_closed (channel d) = ec_done (channel d) \<and>
     sent d = [] \<and> handled d = []"

definition wf_dispatcher :: "('o, 'w) dispatcher_state \<Rightarrow> ('o, 'w) dispatcher_state \<Rightarrow> bool" where
  "wf_dispatcher d0 d \<longleftrightarrow>
     sent d = handled d @ ch (channel d) \<and> int (length (ch (channel d))) \<le> buf (channel d) \<and>
     buf (channel d) = buf (channel d0) \<and> ch_closed (channel d) = ec_done (channel d) \<and>
     eventHandlers d = eventHandlers d0 \<and>
     disp_world d = fold (dispatchEvent (eventHandlers d0)) (handled d) (disp_world d0)"

lemma Send_direct: "Send True ev ec = Some (True, ec) \<longleftrightarrow> \<not> ec_done ec \<and> \<not> ch_closed ec \<and> ch ec = []"
proof -
  have "ec\<lparr>ch := ch ec @ [ev]\<rparr> \<noteq> ec"
    by (metis EventChannel.select_convs(1) EventChannel.surjective EventChannel.update_convs(1) append_self_conv not_Cons_self2)
  then show ?thesis
    by (auto simp: Send_def)
qed

lemma wf_dispatcher_step: "disp_step d d' \<Longrightarrow> wf_dispatcher d0 d \<Longrightarrow> wf_dispatcher d0 d'"
  by (erule disp_stepE)
    (auto simp: wf_dispatcher_def Send_direct Send_def [of False] Receive_def Close_def EventDispatcher_Stop_def split: if_splits list.splits)

lemma wf_dispatcher_reach: "disp_step\<^sup>*\<^sup>* d0 d \<Longrightarrow> fresh_dispatcher d0 \<Longrightarrow> wf_dispatcher d0 d"
proof (induction rule: rtranclp_induct)
  case base
  then show ?case by (simp add: wf_dispatcher_def fresh_dispatcher_def)
qed (auto intro: wf_dispatcher_step)

lemma exited_step: "disp_step d d' \<Longrightarrow> \<not> loop_running d \<Longrightarrow> \<not> loop_running d' \<and> handled d' = handled d"
  by (erule disp_stepE) (auto simp: EventDispatcher_Stop_def split: if_splits)

section \<open>Properties\<close>

text \<open>C30. Session management never panics: in every state a manager reaches, \<open>StartSession\<close>
  and \<open>EndSession\<close> return (the stop channel they close is open), the session a start leaves is
  valid exactly while the time elapsed is at most the configured timeout (for ever when that is zero),
  and after an end no session is valid.\<close>

theorem session_lifecycle:
  assumes "manager_reach run timeout m"
  shows "(\<exists>m'. StartSession t m = Some m' \<and>
            (IsSessionValid now m' \<longleftrightarrow> timeout = 0 \<or> time_Sub now t \<le> timeout)) \<and>
         (\<exists>m' st'. EndSession run m st = Some (m', st') \<and> \<not> IsSessionValid now m')"
proof -
  have wf: "wf_manager timeout m"
    using assms by (rule wf_manager_reach)
  have "\<exists>m'. StartSession t m = Some m' \<and> (IsSessionValid now m' \<longleftrightarrow> timeout = 0 \<or> time_Sub now t \<le> timeout)"
    using wf by (auto simp: wf_manager_def session_defs Let_def IsSessionValid_def WatchSession_IsExpired_def
        split: option.splits)
  moreover have "\<exists>m' st'. EndSession run m st = Some (m', st') \<and> \<not> IsSessionValid now m'"
    using wf by (auto simp: wf_manager_def session_defs IsSessionValid_def split: option.splits)
  ultimately show ?thesis ..
qed

theorem session_lifecycle_witness:
  "\<exists>m' :: unit SessionManager. StartSession 0 (NewSessionManager 60) = Some m' \<and> IsSessionValid 60 m' \<and>
     time_Sub 61 0 > 60"
proof -
  have "time_Sub 60 0 \<le> 60" "time_Sub 61 0 > 60"
    by (simp_all add: time_Sub_def min_duration_def max_duration_def)
  with session_lifecycle [OF manager_new [of "\<lambda>_ st :: unit. st" 60], of 0 60] show ?thesis
    by blast
qed

text \<open>\<open>WaitForStop\<close> never returns: no operation closes the channel it waits on, so in every
  reachable state of the manager a caller waiting for the current session to stop is blocked, also after
  the session has been stopped.\<close>

theorem wait_for_stop_blocks:
  assumes "manager_reach run timeout m" and "session m = Some s"
  shows "\<not> WaitForStop_returns s \<and> (\<forall>s'. WatchSession_Stop s = Some s' \<longrightarrow> \<not> running s' \<and> \<not> WaitForStop_returns s')"
  using wf_manager_reach [OF assms(1)] assms(2)
  by (auto simp: wf_manager_def wf_session_def WaitForStop_returns_def WatchSession_Stop_def split: if_splits)

theorem wait_for_stop_blocks_witness:
  "\<exists>(m :: unit SessionManager) s. StartSession 0 (NewSessionManager 60) = Some m \<and> session m = Some s \<and> running s \<and>
     \<not> WaitForStop_returns s"
proof -
  let ?s = "WatchSession_Start 0 (NewWatchSession 60)"
  let ?m = "(NewSessionManager 60 :: unit SessionManager)\<lparr>session := Some ?s\<rparr>"
  have start: "StartSession 0 (NewSessionManager 60) = Some ?m"
    by (simp add: StartSession_def NewSessionManager_def)
  have "manager_reach (\<lambda>_ st :: unit. st) 60 ?m"
    using manager_start [OF manager_new start] .
  then have "\<not> WaitForStop_returns ?s"
    using wait_for_stop_blocks [of "\<lambda>_ st :: unit. st" 60 ?m ?s] by simp
  then show ?thesis
    using start by (intro exI [of _ ?m] exI [of _ ?s]) (simp add: session_defs)
qed

text \<open>C31. Events are handled in order and at most once: however producers, the goroutine and
  cancellation interleave, what has been accepted by \<open>Send\<close> is what has been handled followed by
  what is in the buffer, the buffer never exceeds its capacity, and the handlers have acted on the world
  exactly as if the handled events had been dispatched one after the other.\<close>

theorem dispatcher_fifo:
  assumes "fresh_dispatcher d0" and "disp_step\<^sup>*\<^sup>* d0 d"
  shows "sent d = handled d @ ch (channel d) \<and> Pending (channel d) \<le> buf (channel d0) \<and>
     disp_world d = fold (dispatchEvent (eventHandlers d0)) (handled d) (disp_world d0)"
  using wf_dispatcher_reach [OF assms(2,1)] by (auto simp: wf_dispatcher_def Pending_def)

theorem dispatcher_fifo_witness:
  "\<exists>d :: (unit, unit) dispatcher_state. handled d = [WatchEvent_zero] \<and> sent d = handled d @ ch (channel d)"
proof -
  let ?init = "\<lparr>channel = \<lparr>ch = [], buf = 0, ch_closed = False, ec_done = False\<rparr>, eventHandlers = [],
    disp_stopped = False, ctx_done = False, loop_running = True, sent = [], handled = [], disp_world = ()\<rparr>
    :: (unit, unit) dispatcher_state"
  let ?d = "?init\<lparr>sent := [WatchEvent_zero], handled := [WatchEvent_zero]\<rparr>"
  have "disp_step\<^sup>*\<^sup>* ?init ?d"
    using hand_over_step [of ?init WatchEvent_zero] by (intro r_into_rtranclp) (simp add: Send_def dispatchEvent_def)
  then show ?thesis
    using dispatcher_fifo [of ?init ?d] by (intro exI [of _ ?d]) (simp add: fresh_dispatcher_def)
qed

text \<open>Once the goroutine has returned, no event is handled any more: events still in the buffer,
  or accepted later, are lost.\<close>

theorem dispatcher_exit_final:
  assumes "disp_step\<^sup>*\<^sup>* d d'" and "\<not> loop_running d"
  shows "\<not> loop_running d' \<and> handled d' = handled d"
  using assms by (induction rule: rtranclp_induct) (auto dest: exited_step)

theorem dispatcher_exit_final_witness:
  "\<exists>d' :: (unit, unit) dispatcher_state. sent d' = [WatchEvent_zero] \<and> handled d' = []"
proof -
  let ?d = "\<lparr>channel = \<lparr>ch = [], buf = 1, ch_closed = False, ec_done = False\<rparr>, eventHandlers = [],
    disp_stopped = True, ctx_done = False, loop_running = False, sent = [], handled = [], disp_world = ()\<rparr>
    :: (unit, unit) dispatcher_state"
  let ?d' = "?d\<lparr>channel := \<lparr>ch = [WatchEvent_zero], buf = 1, ch_closed = False, ec_done = False\<rparr>, sent := [WatchEvent_zero]\<rparr>"
  have "disp_step ?d ?d'"
    using send_step [of WatchEvent_zero ?d True "\<lparr>ch = [WatchEvent_zero], buf = 1, ch_closed = False, ec_done = False\<rparr>"]
    by (simp add: Send_def)
  then show ?thesis
    using dispatcher_exit_final [of ?d ?d'] by (intro exI [of _ ?d']) auto
qed

text \<open>\<open>Stop\<close> does not drain the channel: the goroutine of a running dispatcher that is stopped may return at once,
  with which \<open>Stop\<close> returns, and the accepted events it has not handled by then never are.\<close>

theorem stop_drops_pending:
  assumes "loop_running d" and "\<not> disp_stopped d"
  shows "\<exists>d1 d2. EventDispatcher_Stop d = Some d1 \<and> \<not> Stop_returns d1 \<and> disp_step d1 d2 \<and> Stop_returns d2 \<and>
     channel d2 = channel d \<and> (\<forall>d3. disp_step\<^sup>*\<^sup>* d2 d3 \<longrightarrow> handled d3 = handled d)"
proof -
  let ?d1 = "d\<lparr>disp_stopped := True\<rparr>"
  let ?d2 = "?d1\<lparr>loop_running := False\<rparr>"
  have "disp_step ?d1 ?d2"
    using assms(1) by (intro exit_step) simp_all
  moreover have "\<forall>d3. disp_step\<^sup>*\<^sup>* ?d2 d3 \<longrightarrow> handled d3 = handled d"
    using dispatcher_exit_final [of ?d2] by simp
  moreover have "EventDispatcher_Stop d = Some ?d1"
    using assms(2) by (simp add: EventDispatcher_Stop_def)
  ultimately show ?thesis
    using assms(1) by (intro exI [of _ ?d1] exI [of _ ?d2]) (simp add: Stop_returns_def)
qed

section \<open>The dispatcher: termination\<close>

text \<open>The steps of the goroutine alone.\<close>

inductive goroutine_step :: "('o, 'w) dispatcher_state \<Rightarrow> ('o, 'w) dispatcher_state \<Rightarrow> bool" where
  goroutine_exit: "loop_running d \<Longrightarrow> ctx_done d \<or> disp_stopped d \<Longrightarrow> goroutine_step d (d\<lparr>loop_running := False\<rparr>)"
| goroutine_drained: "loop_running d \<Longrightarrow> Receive (channel d) = Some ((ev, False), ec) \<Longrightarrow>
     goroutine_step d (d\<lparr>loop_running := False\<rparr>)"
| goroutine_receive: "loop_running d \<Longrightarrow> Receive (channel d) = Some ((ev, True), ec) \<Longrightarrow>
     goroutine_step d (d\<lparr>channel := ec, handled := handled d @ [ev],
       disp_world := dispatchEvent (eventHandlers d) ev (disp_world d)\<rparr>)"

lemma goroutine_disp_step: "goroutine_step d d' \<Longrightarrow> disp_step d d'"
  by (induction rule: goroutine_step.induct) (auto intro: disp_step.intros)

text \<open>What the goroutine still has to do: the events in the channel and its own return.\<close>

definition work_left :: "('o, 'w) dispatcher_state \<Rightarrow> nat" where
  "work_left d = (if loop_running d then Suc (length (ch (channel d))) else 0)"

lemma goroutine_work: "goroutine_step d d' \<Longrightarrow> work_left d' < work_left d"
  by (induction rule: goroutine_step.induct) (auto simp: work_left_def Receive_def split: list.splits if_splits)

lemma goroutine_closed: "goroutine_step d d' \<Longrightarrow> ch_closed (channel d') = ch_closed (channel d)"
  by (induction rule: goroutine_step.induct) (auto simp: Receive_def split: list.splits if_splits)

lemma goroutine_enabled:
  assumes "loop_running d" "ch_closed (channel d)"
  shows "\<exists>d'. goroutine_step d d'"
proof (cases "ch (channel d)")
  case Nil
  with assms have "goroutine_step d (d\<lparr>loop_running := False\<rparr>)"
    using goroutine_drained [of d WatchEvent_zero "channel d"] by (simp add: Receive_def)
  then show ?thesis ..
next
  case (Cons ev rest)
  with assms show ?thesis
    using goroutine_receive [of d ev "(channel d)\<lparr>ch := rest\<rparr>"] by (auto simp: Receive_def)
qed

lemma goroutine_bound: "(goroutine_step ^^ n) d d' \<Longrightarrow> n + work_left d' \<le> work_left d"
proof (induction n arbitrary: d')
  case (Suc n)
  then obtain e where "(goroutine_step ^^ n) d e" "goroutine_step e d'" by auto
  with Suc.IH [of e] goroutine_work [of e d'] show ?case by simp
qed simp

lemma goroutine_finishes: "ch_closed (channel d) \<Longrightarrow> \<exists>d'. goroutine_step\<^sup>*\<^sup>* d d' \<and> \<not> loop_running d'"
proof (induction "work_left d" arbitrary: d rule: less_induct)
  case less
  show ?case
  proof (cases "loop_running d")
    case True
    with less.prems obtain e where e: "goroutine_step d e"
      using goroutine_enabled by blast
    with less goroutine_work goroutine_closed show ?thesis
      by (metis converse_rtranclp_into_rtranclp)
  qed blast
qed

lemma closed_step: "disp_step d d' \<Longrightarrow> ch_closed (channel d) \<Longrightarrow> ec_done (channel d) \<Longrightarrow>
  ch_closed (channel d') \<and> ec_done (channel d') \<and> length (ch (channel d')) \<le> length (ch (channel d))"
  by (erule disp_stepE) (auto simp: Send_def Close_def Receive_def EventDispatcher_Stop_def split: if_splits list.splits)

text \<open>C32. The dispatcher goroutine terminates once its channel is closed. From any state it reaches, with the
  channel closed, the goroutine can always take its next step until it has returned, it returns after at
  most one step per buffered event and one more, and no producer can add to that work: a step of any other
  party leaves the channel closed and its buffer no longer than before.\<close>

theorem closed_dispatcher_terminates:
  assumes "fresh_dispatcher d0" and "disp_step\<^sup>*\<^sup>* d0 d" and "ch_closed (channel d)"
  shows "(\<exists>d'. goroutine_step\<^sup>*\<^sup>* d d' \<and> \<not> loop_running d') \<and>
     (\<forall>n d'. (goroutine_step ^^ n) d d' \<longrightarrow> n \<le> length (ch (channel d)) + 1) \<and>
     (\<forall>d'. disp_step d d' \<longrightarrow> ch_closed (channel d') \<and> length (ch (channel d')) \<le> length (ch (channel d)))"
proof (intro conjI allI impI)
  show "\<exists>d'. goroutine_step\<^sup>*\<^sup>* d d' \<and> \<not> loop_running d'"
    using assms(3) by (rule goroutine_finishes)
  show "n \<le> length (ch (channel d)) + 1" if "(goroutine_step ^^ n) d d'" for n d'
    using goroutine_bound [OF that] by (simp add: work_left_def split: if_splits)
  have "ec_done (channel d)"
    using wf_dispatcher_reach [OF assms(2,1)] assms(3) by (simp add: wf_dispatcher_def)
  then show "ch_closed (channel d')" "length (ch (channel d')) \<le> length (ch (channel d))" if "disp_step d d'" for d'
    using closed_step [OF that assms(3)] by simp_all
qed

theorem closed_dispatcher_terminates_witness:
  "\<exists>d d' :: (unit, unit) dispatcher_state. loop_running d \<and> length (ch (channel d)) = 1 \<and> goroutine_step\<^sup>*\<^sup>* d d' \<and> \<not> loop_running d'"
proof -
  let ?d0 = "EventDispatcher_Start (the (NewEventDispatcher 2 ())) :: (unit, unit) dispatcher_state"
  let ?ec = "(channel ?d0)\<lparr>ch := [WatchEvent_zero]\<rparr>"
  let ?d1 = "?d0\<lparr>channel := ?ec, sent := (if True then sent ?d0 @ [WatchEvent_zero] else sent ?d0)\<rparr>"
  let ?d2 = "?d1\<lparr>channel := (channel ?d1)\<lparr>ec_done := True, ch_closed := True\<rparr>\<rparr>"
  have "fresh_dispatcher ?d0"
    by (simp add: fresh_dispatcher_def EventDispatcher_Start_def NewEventDispatcher_def NewEventChannel_def)
  moreover have "disp_step ?d0 ?d1"
    by (rule send_step) (simp add: Send_def EventDispatcher_Start_def NewEventDispatcher_def NewEventChannel_def)
  moreover have "disp_step ?d1 ?d2"
    by (rule close_step) (simp add: Close_def EventDispatcher_Start_def NewEventDispatcher_def NewEventChannel_def)
  ultimately have fresh: "fresh_dispatcher ?d0" and reach: "disp_step\<^sup>*\<^sup>* ?d0 ?d2"
    by (blast, meson converse_rtranclp_into_rtranclp r_into_rtranclp)
  have "ch_closed (channel ?d2)"
    by simp
  from closed_dispatcher_terminates [OF fresh reach this] have "\<exists>d'. goroutine_step\<^sup>*\<^sup>* ?d2 d' \<and> \<not> loop_running d'" ..
  moreover have "loop_running ?d2" "length (ch (channel ?d2)) = 1"
    by (simp_all add: EventDispatcher_Start_def)
  ultimately show ?thesis
    by blast
qed

end
