(* ===== verification/Rule_Types.thy ===== *)
theory Rule_Types
  imports K8s_Types
begin

text \<open>
  Package \<open>v1\<close> (apis/replication/v1/clusterreplicationrule_types.go): the ClusterReplicationRule
  resource and its deep copy. A slice field is \<open>None\<close> when it is nil; counters are 32 or 64 bits
  wide, kept as integers and wrapped where they are computed.
\<close>

section \<open>Types\<close>

record TargetNamespaces =
  tnSelector :: string
  tnExcludes :: "string list option"
  tnIncludes :: "string list option"

record ReplicationRuleSpec =
  specSourceNamespace :: string
  specSourceSelector :: string
  specResourceTypes :: "string list option"
  specTargetNamespaces :: TargetNamespaces
  specTargetNameTemplate :: string
  specAnnotationsToCopy :: "string list option"
  specLabelsToCopy :: "string list option"

record SyncedResource =
  srName :: string
  srNamespace :: string
  srResourceType :: string
  srMirroredToCount :: int
  srLastSyncedTime :: "gotime option"

definition ReplicationRuleActive :: string where
  "ReplicationRuleActive = ''Active''"

definition ReplicationRuleError :: string where
  "ReplicationRuleError = ''Error''"

record ReplicationRuleCondition =
  condType :: string
  condStatus :: string
  condLastTransitionTime :: gotime
  condReason :: string
  condMessage :: string

record ReplicationRuleStatus =
  stActiveMirrors :: int
  stErrors :: int
  stLastSyncTime :: "gotime option"
  stObservedGeneration :: int
  stSyncedResources :: "SyncedResource list option"
  stMirroredCount :: int
  stCondition :: "ReplicationRuleCondition option"

record ClusterReplicationRule = k8s_object +
  ruleGeneration :: int
  ruleSpec :: ReplicationRuleSpec
  ruleStatus :: ReplicationRuleStatus

text \<open>A nil slice ranges like an empty one.\<close>

definition slice :: "'a list option \<Rightarrow> 'a list" where
  "slice xs = (case xs of None \<Rightarrow> [] | Some ys \<Rightarrow> ys)"

section \<open>Deep copy\<close>

text \<open>\<open>make([]T, len(xs))\<close> followed by \<open>copy\<close>.\<close>

definition copy_slice :: "'a list option \<Rightarrow> 'a list option" where
  "copy_slice xs = (case xs of None \<Rightarrow> None | Some ys \<Rightarrow> Some (map (\<lambda>i. ys ! i) [0..<length ys]))"

definition DeepCopyInto :: "ClusterReplicationRule \<Rightarrow> ClusterReplicationRule" where
  "DeepCopyInto c =
     (let spec = ruleSpec c;
          tn = specTargetNamespaces spec;
          status = ruleStatus c;
          out = c\<lparr>ruleSpec :=
            \<lparr>specSourceNamespace = specSourceNamespace spec, specSourceSelector = specSourceSelector spec,
             specResourceTypes = copy_slice (specResourceTypes spec),
             specTargetNamespaces =
               \<lparr>tnSelector = tnSelector tn, tnExcludes = copy_slice (tnExcludes tn), tnIncludes = copy_slice (tnIncludes tn)\<rparr>,
             specTargetNameTemplate = specTargetNameTemplate spec,
             specAnnotationsToCopy = copy_slice (specAnnotationsToCopy spec),
             specLabelsToCopy = copy_slice (specLabelsToCopy spec)\<rparr>\<rparr>;
          out1 = (case stSyncedResources status of
                    None \<Rightarrow> out
                  | Some _ \<Rightarrow> out\<lparr>ruleStatus := (ruleStatus out)\<lparr>stSyncedResources := copy_slice (stSyncedResources status)\<rparr>\<rparr>);
          out2 = (case stLastSyncTime status of
                    None \<Rightarrow> out1
                  | Some t \<Rightarrow> out1\<lparr>ruleStatus := (ruleStatus out1)\<lparr>stLastSyncTime := Some t\<rparr>\<rparr>)
      in case stCondition status of
           None \<Rightarrow> out2
         | Some cond \<Rightarrow> out2\<lparr>ruleStatus := (ruleStatus out2)\<lparr>stCondition := Some
             \<lparr>condType = condType cond, condStatus = condStatus cond,
              condLastTransitionTime = condLastTransitionTime cond, condReason = condReason cond,
              condMessage = condMessage cond\<rparr>\<rparr>\<rparr>)"

definition DeepCopyObject :: "ClusterReplicationRule \<Rightarrow> ClusterReplicationRule" where
  "DeepCopyObject c = DeepCopyInto c"

text \<open>The list type: a nil item slice stays nil.\<close>

definition List_DeepCopyInto :: "ClusterReplicationRule list option \<Rightarrow> ClusterReplicationRule list option" where
  "List_DeepCopyInto items =
     (case items of None \<Rightarrow> None | Some xs \<Rightarrow> Some (map (\<lambda>i. DeepCopyInto (xs ! i)) [0..<length xs]))"

lemma copy_slice_id [simp]: "copy_slice xs = xs"
  by (auto simp: copy_slice_def map_nth split: option.splits)

text \<open>A deep copy is a copy: no field of the rule is lost or changed, nil slices stay nil, and the
  items of a list are copied in order.\<close>

theorem deep_copy_equal:
  "DeepCopyObject c = c \<and> List_DeepCopyInto items = items"
proof -
  have "DeepCopyInto c = c" for c
    by (cases c) (auto simp: DeepCopyInto_def Let_def split: option.splits)
  then show ?thesis
    by (auto simp: DeepCopyObject_def List_DeepCopyInto_def map_nth split: option.splits)
qed

end
