(* ===== verification/K8s_Client.thy ===== *)
theory K8s_Client
  imports Rule_Types
begin

text \<open>
  The client through which the program reaches Kubernetes. The API server, its client library and
  the other processes that use it are not part of the program: a client is a record of arbitrary
  functions on a world \<open>'w\<close>, so that every call may answer anything and may observe or cause
  any change of the world. Nothing is assumed of it except where a theorem says so.
\<close>

section \<open>The client\<close>

text \<open>
  \<open>client.Client\<close> of controller-runtime, at the types the program uses it with, together with
  the clock that \<open>time.Now()\<close> reads, the order in which the runtime visits a Go map, the random
  source, the error of the context a call runs under, and waiting for a duration unless that context
  is cancelled first.
\<close>

type_synonym ('w, 'a) call = "'w \<Rightarrow> (go_error + 'a) \<times> 'w"
type_synonym 'w command = "'w \<Rightarrow> go_error option \<times> 'w"

record 'w client =
  get_secret :: "string \<Rightarrow> string \<Rightarrow> ('w, Secret) call"
  get_configmap :: "string \<Rightarrow> string \<Rightarrow> ('w, ConfigMap) call"
  get_namespace :: "string \<Rightarrow> ('w, unit) call"
  get_certificate :: "string \<Rightarrow> string \<Rightarrow> ('w, Certificate) call"
  get_ingress :: "string \<Rightarrow> string \<Rightarrow> ('w, Ingress) call"
  list_secrets :: "string \<Rightarrow> ('w, Secret list) call"
  list_configmaps :: "string \<Rightarrow> ('w, ConfigMap list) call"
  list_namespaces :: "('w, string list) call"
  create_secret :: "Secret \<Rightarrow> 'w command"
  update_secret :: "Secret \<Rightarrow> 'w command"
  delete_secret :: "Secret \<Rightarrow> 'w command"
  create_configmap :: "ConfigMap \<Rightarrow> 'w command"
  update_configmap :: "ConfigMap \<Rightarrow> 'w command"
  delete_configmap :: "ConfigMap \<Rightarrow> 'w command"
  update_object :: "k8s_object \<Rightarrow> 'w command"
  get_rule :: "string \<Rightarrow> ('w, ClusterReplicationRule) call"
  update_rule_status :: "ClusterReplicationRule \<Rightarrow> 'w command"
  ctx_Err :: "'w command"
  wait_for :: "duration \<Rightarrow> 'w command"
  rand_Intn :: "nat \<Rightarrow> 'w \<Rightarrow> nat \<times> 'w"
  clock :: "'w \<Rightarrow> gotime \<times> 'w"
  map_order :: "'w \<Rightarrow> (string \<times> string \<Rightarrow> nat) \<times> 'w"

text \<open>\<open>NonDeletingClient\<close> (cmd/replikator/main.go): the client all components are given. It
  passes every call on but the deletions, which it drops and reports as done.\<close>

definition NonDeletingClient :: "'w client \<Rightarrow> 'w client" where
  "NonDeletingClient c =
     c\<lparr>delete_secret := (\<lambda>_ w. (None, w)), delete_configmap := (\<lambda>_ w. (None, w))\<rparr>"

end
