(* ===== verification/System_State.thy ===== *)
theory System_State
  imports Reflection_Service Dto Cache Watcher K8s_Client
begin

text \<open>
  The state that the running program shares between its components: the objects main.go allocates
  once and passes to every reconciler and use case, together with the world outside. Every stateful
  operation is a state-monad function over it.
\<close>

section \<open>State\<close>

text \<open>The one closure registered with the session manager (main.go 219-224).\<close>

datatype session_hook = ClearCaches

text \<open>
  \<open>heap\<close> holds the \<open>entity.Mirror\<close> objects the program has allocated; an address is an index
  into it. The mirror store maps identities to addresses, so a mirror obtained from the store and
  changed by its holder is changed in the store as well.
\<close>

record 'w sys =
  world :: 'w
  heap :: "Mirror list"
  mirrors :: "(MirrorID \<times> nat) list"
  dispatcher :: "'w InMemoryDispatcher"
  metrics :: "metric_op list"
  notFoundCache :: Cache
  propertiesCache :: PropertiesCache
  mirrorCache :: MirrorCache
  sessionManager :: "session_hook SessionManager"

section \<open>Primitive operations\<close>

text \<open>A call of the client library acts on the world only.\<close>

definition api :: "('w \<Rightarrow> 'a \<times> 'w) \<Rightarrow> ('w sys, 'a) state" where
  "api call = State (\<lambda>s. let (r, w) = call (world s) in (r, s\<lparr>world := w\<rparr>))"

definition time_Now :: "'w client \<Rightarrow> ('w sys, gotime) state" where
  "time_Now c = api (clock c)"

definition time_Since :: "'w client \<Rightarrow> gotime \<Rightarrow> ('w sys, duration) state" where
  "time_Since c start = do { now \<leftarrow> time_Now c; return (time_Sub now start) }"

definition record_metrics :: "metric_op list \<Rightarrow> ('w sys, unit) state" where
  "record_metrics ops = State (\<lambda>s. ((), s\<lparr>metrics := metrics s @ ops\<rparr>))"

text \<open>Allocating an \<open>entity.Mirror\<close> and reading through a pointer.\<close>

definition alloc :: "Mirror \<Rightarrow> ('w sys, nat) state" where
  "alloc m = State (\<lambda>s. (length (heap s), s\<lparr>heap := heap s @ [m]\<rparr>))"

definition deref :: "nat \<Rightarrow> ('w sys, Mirror) state" where
  "deref p = State (\<lambda>s. (heap s ! p, s))"

definition get_sys :: "('w sys \<Rightarrow> 'a) \<Rightarrow> ('w sys, 'a) state" where
  "get_sys f = State (\<lambda>s. (f s, s))"

definition modify_sys :: "('w sys \<Rightarrow> 'w sys) \<Rightarrow> ('w sys, unit) state" where
  "modify_sys f = State (\<lambda>s. ((), f s))"

section \<open>Rules\<close>

lemmas sys_prims = api_def record_metrics_def alloc_def deref_def get_sys_def modify_sys_def

lemma run_prims [simp]:
  "run_state (api call) s = (fst (call (world s)), s\<lparr>world := snd (call (world s))\<rparr>)"
  "run_state (record_metrics ops) s = ((), s\<lparr>metrics := metrics s @ ops\<rparr>)"
  "run_state (alloc m) s = (length (heap s), s\<lparr>heap := heap s @ [m]\<rparr>)"
  "run_state (deref p) s = (heap s ! p, s)"
  "run_state (get_sys f) s = (f s, s)"
  "run_state (modify_sys g) s = ((), g s)"
  by (simp_all add: sys_prims case_prod_beta Let_def)

lemma run_bind [simp]: "run_state (m \<bind> f) s = (let (x, t) = run_state m s in run_state (f x) t)"
  by (simp add: State_Monad.bind_def Let_def)

lemma run_return [simp]: "run_state (return x) s = (x, s)"
  by (simp add: State_Monad.return_def)

text \<open>How the primitives keep a relation: the leaves of every frame proof.\<close>

lemma io_prims:
  "(\<And>s w. R s (s\<lparr>world := w\<rparr>)) \<Longrightarrow> state_io_rel R (api call)"
  "(\<And>s ms. R s (s\<lparr>metrics := ms\<rparr>)) \<Longrightarrow> state_io_rel R (record_metrics ops)"
  "(\<And>s. R s (s\<lparr>heap := heap s @ [m]\<rparr>)) \<Longrightarrow> state_io_rel R (alloc m)"
  "(\<And>s. R s s) \<Longrightarrow> state_io_rel R (deref p)"
  "(\<And>s. R s s) \<Longrightarrow> state_io_rel R (get_sys f)"
  "(\<And>s. R s (g s)) \<Longrightarrow> state_io_rel R (modify_sys g)"
  by (simp_all add: state_io_rel_def)

end
