(* ===== verification/Source_Reader.thy ===== *)
theory Source_Reader
  imports Dto Reflection_Service
begin

text \<open>
  How an annotated object becomes a \<open>Source\<close>. The program has this code six times (adapters and
  the Source, Mirror, Certificate and Ingress reconcilers); the steps they share are defined here, and
  their common contract is a locale that each of them interprets in its own theory.
\<close>

section \<open>Shared steps\<close>

text \<open>\<open>if s := annotations[replicate-to]; s != "" { ... SetAllowedNamespaces }\<close>\<close>

definition read_allowed_namespaces :: "'a k8s_object_scheme \<Rightarrow> Source \<Rightarrow> Source" where
  "read_allowed_namespaces obj source =
     (let str = annotation obj AnnotationReplicationAllowedNamespaces
      in if str \<noteq> ''''
         then SetAllowedNamespaces (AllowedNamespaces_or_zero (ParseAllowedNamespacesAnnotation str)) source
         else source)"

definition read_auto_enabled :: "'a k8s_object_scheme \<Rightarrow> Source \<Rightarrow> Source" where
  "read_auto_enabled obj source =
     SetAutoEnabled (annotation obj AnnotationReplicationAutoEnabled = ''true'') source"

definition read_auto_namespaces :: "'a k8s_object_scheme \<Rightarrow> Source \<Rightarrow> Source" where
  "read_auto_namespaces obj source =
     (let str = annotation obj AnnotationReplicationAutoNamespaces
      in if str \<noteq> ''''
         then SetAutoNamespaces (AllowedNamespaces_or_zero (ParseAllowedNamespacesAnnotation str)) source
         else source)"

lemmas read_steps = read_allowed_namespaces_def read_auto_enabled_def read_auto_namespaces_def

section \<open>The contract\<close>

text \<open>The set of namespaces an annotation value describes, the empty set for a missing annotation and
  for one with a malformed pattern.\<close>

definition annotated_namespaces :: "string \<Rightarrow> AllowedNamespaces" where
  "annotated_namespaces str =
     (if str = '''' then AllowedNamespaces_zero
      else AllowedNamespaces_or_zero (ParseAllowedNamespacesAnnotation str))"

text \<open>The record every reader has to build for a source.\<close>

definition source_of :: "ResourceType \<Rightarrow> AllowedNamespaces \<Rightarrow> 'a k8s_object_scheme \<Rightarrow> Source" where
  "source_of typ auto obj =
     \<lparr>source_id = NewSourceID (Namespace obj) (Name obj), source_namespace = Namespace obj,
      source_name = Name obj, source_targetName = '''', source_resourceType = typ, source_allowed = True,
      source_allowedNamespaces = annotated_namespaces (annotation obj AnnotationReplicationAllowedNamespaces),
      source_autoEnabled = (annotation obj AnnotationReplicationAutoEnabled = ''true''),
      source_autoNamespaces = auto, source_version = ResourceVersion obj, source_enabled = True\<rparr>"

lemma wf_annotated_namespaces [simp]: "wf_allowed (annotated_namespaces str)"
  by (simp add: annotated_namespaces_def)

lemma wf_source_of [simp]: "wf_allowed auto \<Longrightarrow> wf_source (source_of typ auto obj)"
  by (simp add: source_of_def wf_source_def)

lemma source_of_sel [simp]:
  "source_namespace (source_of typ auto obj) = Namespace obj" "source_name (source_of typ auto obj) = Name obj"
  "source_id (source_of typ auto obj) = NewSourceID (Namespace obj) (Name obj)"
  "source_allowed (source_of typ auto obj)" "source_resourceType (source_of typ auto obj) = typ"
  "source_version (source_of typ auto obj) = ResourceVersion obj"
  "source_autoEnabled (source_of typ auto obj) \<longleftrightarrow> annotation obj AnnotationReplicationAutoEnabled = ''true''"
  "source_autoNamespaces (source_of typ auto obj) = auto"
  "source_allowedNamespaces (source_of typ auto obj) =
     annotated_namespaces (annotation obj AnnotationReplicationAllowedNamespaces)"
  "TargetName (source_of typ auto obj) = Name obj"
  by (simp_all add: source_of_def TargetName_def)

text \<open>Every reader builds that record by the same sequence of setters.\<close>

definition built_source :: "ResourceType \<Rightarrow> ('a k8s_object_scheme \<Rightarrow> Source \<Rightarrow> Source) \<Rightarrow> 'a k8s_object_scheme \<Rightarrow> Source" where
  "built_source typ read_auto obj =
     Source_SetVersion (ResourceVersion obj) (SetAllowed True
       (read_auto obj (read_auto_enabled obj (read_allowed_namespaces obj (NewSource (Namespace obj) (Name obj) typ)))))"

lemma built_source_of:
  "built_source typ read_auto_namespaces obj =
     source_of typ (annotated_namespaces (annotation obj AnnotationReplicationAutoNamespaces)) obj"
  "built_source typ (\<lambda>_ s. s) obj = source_of typ AllowedNamespaces_zero obj"
  by (simp_all add: built_source_def source_of_def read_steps annotated_namespaces_def record_defs Let_def)

text \<open>A reader returns a source exactly for the objects with the annotation \<open>replicate: "true"\<close>
  that pass its own filter; \<open>auto_value\<close> is the value it takes for the auto-replicate-to list.\<close>

locale source_reader =
  fixes read :: "'a k8s_object_scheme \<Rightarrow> Source option"
    and rtype :: ResourceType
    and accepts :: "'a k8s_object_scheme \<Rightarrow> bool"
    and auto_value :: "'a k8s_object_scheme \<Rightarrow> string"
  assumes read_eq: "read obj =
     (if annotation obj AnnotationReplicationAllowed = ''true'' \<and> accepts obj
      then Some (source_of rtype (annotated_namespaces (auto_value obj)) obj) else None)"
begin

lemma read_wf: "read obj = Some s \<Longrightarrow> wf_source s"
  by (auto simp: read_eq split: if_splits)

lemma read_permission:
  "read obj = Some s \<Longrightarrow> annotation obj AnnotationReplicationAllowed = ''true'' \<and> source_allowed s \<and>
     source_version s = ResourceVersion obj \<and> source_id s = NewSourceID (Namespace obj) (Name obj) \<and>
     source_resourceType s = rtype"
  by (auto simp: read_eq split: if_splits)

text \<open>Where such a source may be replicated to, in terms of the annotation's patterns read as globs.\<close>

lemma read_reflects_to:
  assumes "read obj = Some s" and "dns_label ns"
    and "\<forall>p \<in> set (ParseAllowedNamespacesAnnotation (annotation obj AnnotationReplicationAllowedNamespaces)).
           plain_pattern (strings_TrimSpace p)"
  shows "CanReflectToNamespace s ns \<longleftrightarrow>
     annotation obj AnnotationReplicationAllowedNamespaces \<noteq> '''' \<and>
     (\<exists>p \<in> set (ParseAllowedNamespacesAnnotation (annotation obj AnnotationReplicationAllowedNamespaces)).
        strings_TrimSpace p \<noteq> [] \<and> glob (strings_TrimSpace p) ns)"
proof -
  let ?str = "annotation obj AnnotationReplicationAllowedNamespaces"
  obtain an where an: "NewAllowedNamespaces (ParseAllowedNamespacesAnnotation ?str) = Inr an"
    and matches: "Matches an ns \<longleftrightarrow> (\<exists>p \<in> set (ParseAllowedNamespacesAnnotation ?str).
        strings_TrimSpace p \<noteq> [] \<and> glob (strings_TrimSpace p) ns)"
    using add_patterns_glob [OF assms(3,2), of AllowedNamespaces_zero]
    by (auto simp: NewAllowedNamespaces_def)
  have "source_allowed s" "source_allowedNamespaces s = annotated_namespaces ?str"
    using assms(1) by (auto simp: read_eq split: if_splits)
  then show ?thesis
    by (simp add: CanReflectToNamespace_def annotated_namespaces_def AllowedNamespaces_or_zero_def an matches)
qed

end

text \<open>What the two guards at the head of every reader decide.\<close>

lemma annotation_none: "Annotations obj = None \<Longrightarrow> annotation obj key = ''''"
  by (simp add: annotation_def)

end
