(* ===== verification/Adapters.thy ===== *)
theory Adapters
  imports System_State Source_Reader Keyed_Store
begin

text \<open>
  Package \<open>k8s\<close> (internal/infrastructure/adapter/k8s/adapters.go): the adapters between the use
  cases and the Kubernetes client, and the in-memory mirror store, the repository behind
  \<open>port.MirrorRepository\<close>.
\<close>

section \<open>KubernetesAdapter\<close>

definition ReflectorFinalizer :: string where
  "ReflectorFinalizer = ''reflector.k8s.emberstack.com/finalizer''"

definition GetSecret :: "'w client \<Rightarrow> string \<Rightarrow> string \<Rightarrow> ('w sys, go_error + Secret) state" where
  "GetSecret c namespace name = api (get_secret c namespace name)"

definition GetConfigMap :: "'w client \<Rightarrow> string \<Rightarrow> string \<Rightarrow> ('w sys, go_error + ConfigMap) state" where
  "GetConfigMap c namespace name = api (get_configmap c namespace name)"

definition ListSecrets :: "'w client \<Rightarrow> string \<Rightarrow> ('w sys, go_error + Secret list) state" where
  "ListSecrets c namespace = api (list_secrets c namespace)"

definition ListConfigMaps :: "'w client \<Rightarrow> string \<Rightarrow> ('w sys, go_error + ConfigMap list) state" where
  "ListConfigMaps c namespace = api (list_configmaps c namespace)"

definition CreateSecret :: "'w client \<Rightarrow> Secret \<Rightarrow> ('w sys, go_error option) state" where
  "CreateSecret c secret = api (create_secret c secret)"

definition UpdateSecret :: "'w client \<Rightarrow> Secret \<Rightarrow> ('w sys, go_error option) state" where
  "UpdateSecret c secret = api (update_secret c secret)"

definition DeleteSecret :: "'w client \<Rightarrow> string \<Rightarrow> string \<Rightarrow> ('w sys, go_error option) state" where
  "DeleteSecret c namespace name = do {
     r \<leftarrow> api (get_secret c namespace name);
     case r of
       Inl err \<Rightarrow> return (Some err)
     | Inr secret \<Rightarrow> api (delete_secret c secret) }"

definition CreateConfigMap :: "'w client \<Rightarrow> ConfigMap \<Rightarrow> ('w sys, go_error option) state" where
  "CreateConfigMap c cm = api (create_configmap c cm)"

definition UpdateConfigMap :: "'w client \<Rightarrow> ConfigMap \<Rightarrow> ('w sys, go_error option) state" where
  "UpdateConfigMap c cm = api (update_configmap c cm)"

definition DeleteConfigMap :: "'w client \<Rightarrow> string \<Rightarrow> string \<Rightarrow> ('w sys, go_error option) state" where
  "DeleteConfigMap c namespace name = do {
     r \<leftarrow> api (get_configmap c namespace name);
     case r of
       Inl err \<Rightarrow> return (Some err)
     | Inr cm \<Rightarrow> api (delete_configmap c cm) }"

text \<open>A \<open>metav1.Object\<close> as the type switches see it. \<open>EnsureFinalizer\<close> and
  \<open>RemoveFinalizer\<close> change the object they are given, so they return it.\<close>

datatype meta_object = MetaSecret Secret | MetaConfigMap ConfigMap | MetaOther k8s_object

fun GetFinalizers :: "meta_object \<Rightarrow> string list" where
  "GetFinalizers (MetaSecret v) = Finalizers v"
| "GetFinalizers (MetaConfigMap v) = Finalizers v"
| "GetFinalizers (MetaOther v) = Finalizers v"

fun SetFinalizers :: "string list \<Rightarrow> meta_object \<Rightarrow> meta_object" where
  "SetFinalizers fs (MetaSecret v) = MetaSecret (v\<lparr>Finalizers := fs\<rparr>)"
| "SetFinalizers fs (MetaConfigMap v) = MetaConfigMap (v\<lparr>Finalizers := fs\<rparr>)"
| "SetFinalizers fs (MetaOther v) = MetaOther (v\<lparr>Finalizers := fs\<rparr>)"

definition hasFinalizer :: "meta_object \<Rightarrow> string \<Rightarrow> bool" where
  "hasFinalizer obj finalizer \<longleftrightarrow> list_ex (\<lambda>f. f = finalizer) (GetFinalizers obj)"

definition update_typed :: "'w client \<Rightarrow> meta_object \<Rightarrow> ('w sys, go_error option) state" where
  "update_typed c obj =
     (case obj of
        MetaSecret v \<Rightarrow> api (update_secret c v)
      | MetaConfigMap v \<Rightarrow> api (update_configmap c v)
      | MetaOther _ \<Rightarrow> return None)"

definition EnsureFinalizer :: "'w client \<Rightarrow> meta_object \<Rightarrow> string \<Rightarrow> ('w sys, go_error option \<times> meta_object) state" where
  "EnsureFinalizer c obj finalizer =
     (if hasFinalizer obj finalizer then return (None, obj)
      else do {
        let obj' = SetFinalizers (GetFinalizers obj @ [finalizer]) obj;
        err \<leftarrow> update_typed c obj';
        return (err, obj') })"

definition RemoveFinalizer :: "'w client \<Rightarrow> meta_object \<Rightarrow> string \<Rightarrow> ('w sys, go_error option \<times> meta_object) state" where
  "RemoveFinalizer c obj finalizer = (
     let finalizers = GetFinalizers obj;
         newFinalizers = filter (\<lambda>f. f \<noteq> finalizer) finalizers
     in if length newFinalizers = length finalizers then return (None, obj)
        else do {
          let obj' = SetFinalizers newFinalizers obj;
          err \<leftarrow> update_typed c obj';
          return (err, obj') })"

section \<open>MirrorAdapter\<close>

definition splitReflects :: "string \<Rightarrow> string list" where
  "splitReflects value = split_back (length value) value"

fun any_meta :: "any_object \<Rightarrow> (string_map option \<times> string \<times> string \<times> ResourceType)" where
  "any_meta (PtrSecret v) = (Annotations v, Name v, Namespace v, ResourceTypeSecret)"
| "any_meta (PtrConfigMap v) = (Annotations v, Name v, Namespace v, ResourceTypeConfigMap)"
| "any_meta _ = (None, '''', '''', '''')"

definition secretToMirror :: "any_object \<Rightarrow> Mirror option" where
  "secretToMirror obj =
     (let (annots, name, namespace, resourceType) = any_meta obj in
      case annots of
        None \<Rightarrow> None
      | Some a \<Rightarrow>
          (case a AnnotationReflects of
             None \<Rightarrow> None
           | Some reflects \<Rightarrow>
               if reflects = '''' then None
               else
                 let parts = splitReflects reflects in
                 if length parts \<noteq> 2 then None
                 else
                   let sourceID = NewSourceID (parts ! 0) (parts ! 1);
                       mirrorID = NewMirrorID namespace name;
                       version = (case a AnnotationReflectedVersion of Some v \<Rightarrow> v | None \<Rightarrow> '''')
                   in Some (Mirror_SetVersion version (NewMirror mirrorID sourceID namespace name resourceType))))"

definition MirrorAdapter_Get :: "'w client \<Rightarrow> string \<Rightarrow> string \<Rightarrow> ('w sys, go_error + Mirror option) state" where
  "MirrorAdapter_Get c namespace name = do {
     r \<leftarrow> api (get_secret c namespace name);
     case r of
       Inl err \<Rightarrow>
         if IsNotFound err then do {
           r2 \<leftarrow> api (get_configmap c namespace name);
           case r2 of
             Inl err2 \<Rightarrow> return (Inl err2)
           | Inr cm \<Rightarrow> return (Inr (secretToMirror (PtrConfigMap cm))) }
         else return (Inl err)
     | Inr obj \<Rightarrow> return (Inr (secretToMirror (PtrSecret obj))) }"

section \<open>SourceAdapter\<close>

definition secretToSource :: "Secret \<Rightarrow> Source option" where
  "secretToSource obj =
     (case Annotations obj of
        None \<Rightarrow> None
      | Some _ \<Rightarrow>
          let allowed = (annotation obj AnnotationReplicationAllowed = ''true'') in
          if \<not> allowed then None
          else
            let source = NewSource (Namespace obj) (Name obj) ResourceTypeSecret;
                source1 = read_allowed_namespaces obj source;
                source2 = read_auto_enabled obj source1;
                source3 = read_auto_namespaces obj source2;
                source4 = SetAllowed allowed source3
            in Some (Source_SetVersion (ResourceVersion obj) source4))"

definition configMapToSource :: "ConfigMap \<Rightarrow> Source option" where
  "configMapToSource obj =
     (case Annotations obj of
        None \<Rightarrow> None
      | Some _ \<Rightarrow>
          let allowed = (annotation obj AnnotationReplicationAllowed = ''true'') in
          if \<not> allowed then None
          else
            let source = NewSource (Namespace obj) (Name obj) ResourceTypeConfigMap;
                source1 = read_allowed_namespaces obj source;
                source2 = read_auto_enabled obj source1;
                source3 = read_auto_namespaces obj source2;
                source4 = SetAllowed allowed source3
            in Some (Source_SetVersion (ResourceVersion obj) source4))"

definition SourceAdapter_Get :: "'w client \<Rightarrow> string \<Rightarrow> string \<Rightarrow> ('w sys, go_error + Source option) state" where
  "SourceAdapter_Get c namespace name = do {
     r \<leftarrow> api (get_secret c namespace name);
     case r of
       Inl err \<Rightarrow>
         if IsNotFound err then do {
           r2 \<leftarrow> api (get_configmap c namespace name);
           case r2 of
             Inl err2 \<Rightarrow> return (Inl err2)
           | Inr cm \<Rightarrow> return (Inr (configMapToSource cm)) }
         else return (Inl err)
     | Inr obj \<Rightarrow> return (Inr (secretToSource obj)) }"

section \<open>InMemoryMirrorStore\<close>

text \<open>Each operation holds the lock of the store, so it is one step. The results carry the error of
  the repository interface; only \<open>Get\<close> ever returns one.\<close>

definition mirror_rank :: "(string \<times> string \<Rightarrow> nat) \<Rightarrow> MirrorID \<Rightarrow> nat" where
  "mirror_rank rank i = rank (mirrorIDNamespace i, mirrorIDName i)"

definition MirrorStore_Get :: "string \<Rightarrow> string \<Rightarrow> ('w sys, go_error + nat) state" where
  "MirrorStore_Get namespace name = do {
     ms \<leftarrow> get_sys mirrors;
     return (case map_of ms (NewMirrorID namespace name) of
               None \<Rightarrow> Inl (ApiNotFound name)
             | Some p \<Rightarrow> Inr p) }"

definition GetBySourceID :: "'w client \<Rightarrow> SourceID \<Rightarrow> ('w sys, go_error + nat list) state" where
  "GetBySourceID c sourceID = do {
     rank \<leftarrow> api (map_order c);
     s \<leftarrow> get_sys id;
     return (Inr (filter (\<lambda>p. SourceID_Equals (mirror_sourceID (heap s ! p)) sourceID)
                    (map snd (go_range (mirror_rank rank) (mirrors s))))) }"

definition MirrorStore_List :: "'w client \<Rightarrow> ('w sys, go_error + nat list) state" where
  "MirrorStore_List c = do {
     rank \<leftarrow> api (map_order c);
     ms \<leftarrow> get_sys mirrors;
     return (Inr (map snd (go_range (mirror_rank rank) ms))) }"

definition ListByNamespace :: "'w client \<Rightarrow> string \<Rightarrow> ('w sys, go_error + nat list) state" where
  "ListByNamespace c namespace = do {
     rank \<leftarrow> api (map_order c);
     s \<leftarrow> get_sys id;
     return (Inr (filter (\<lambda>p. mirror_namespace (heap s ! p) = namespace)
                    (map snd (go_range (mirror_rank rank) (mirrors s))))) }"

definition store_put :: "MirrorID \<Rightarrow> nat \<Rightarrow> 'w sys \<Rightarrow> 'w sys" where
  "store_put i p s = s\<lparr>mirrors := AList.update i p (mirrors s)\<rparr>"

definition store_remove :: "MirrorID \<Rightarrow> 'w sys \<Rightarrow> 'w sys" where
  "store_remove i s = s\<lparr>mirrors := AList.delete i (mirrors s)\<rparr>"

definition MirrorStore_Create :: "nat \<Rightarrow> ('w sys, go_error option) state" where
  "MirrorStore_Create p = do {
     mirror \<leftarrow> deref p;
     modify_sys (store_put (mirror_id mirror) p);
     return None }"

definition MirrorStore_Update :: "nat \<Rightarrow> ('w sys, go_error option) state" where
  "MirrorStore_Update p = do {
     mirror \<leftarrow> deref p;
     modify_sys (store_put (mirror_id mirror) p);
     return None }"

definition MirrorStore_Delete :: "MirrorID \<Rightarrow> ('w sys, go_error option) state" where
  "MirrorStore_Delete i = do {
     modify_sys (store_remove i);
     return None }"

definition RegisterMirror :: "nat \<Rightarrow> ('w sys, unit) state" where
  "RegisterMirror p = do {
     mirror \<leftarrow> deref p;
     modify_sys (store_put (mirror_id mirror) p) }"

definition UnregisterMirror :: "MirrorID \<Rightarrow> ('w sys, unit) state" where
  "UnregisterMirror i = modify_sys (store_remove i)"

section \<open>NamespaceListerAdapter and OwnerReferenceHelper\<close>

definition NamespaceLister_List :: "'w client \<Rightarrow> ('w sys, go_error + string list) state" where
  "NamespaceLister_List c = api (list_namespaces c)"

text \<open>The group, version and kind of the owner, and \<open>GroupVersion.String\<close>.\<close>

definition gv_String :: "string \<Rightarrow> string \<Rightarrow> string" where
  "gv_String grp version = (if grp = '''' then version else grp @ ''/'' @ version)"

fun add_owner :: "owner_reference \<Rightarrow> meta_object \<Rightarrow> meta_object" where
  "add_owner r (MetaSecret v) = MetaSecret (v\<lparr>OwnerReferences := OwnerReferences v @ [r]\<rparr>)"
| "add_owner r (MetaConfigMap v) = MetaConfigMap (v\<lparr>OwnerReferences := OwnerReferences v @ [r]\<rparr>)"
| "add_owner r (MetaOther v) = MetaOther (v\<lparr>OwnerReferences := OwnerReferences v @ [r]\<rparr>)"

definition update_any :: "'w client \<Rightarrow> meta_object \<Rightarrow> ('w sys, go_error option) state" where
  "update_any c obj =
     (case obj of
        MetaSecret v \<Rightarrow> api (update_secret c v)
      | MetaConfigMap v \<Rightarrow> api (update_configmap c v)
      | MetaOther v \<Rightarrow> api (update_object c v))"

definition CreateOwnerReference ::
  "'w client \<Rightarrow> meta_object \<Rightarrow> 'a k8s_object_scheme \<Rightarrow> string \<times> string \<times> string \<Rightarrow> ('w sys, go_error option \<times> meta_object) state"
where
  "CreateOwnerReference c obj owner gvk = (
     let (grp, version, kind) = gvk;
         ownerRef = \<lparr>refAPIVersion = gv_String grp version, refKind = kind, refName = Name owner,
                     refUID = UID owner, refController = True\<rparr>;
         obj' = add_owner ownerRef obj
     in do {
       err \<leftarrow> update_any c obj';
       return (err, obj') })"

section \<open>ReflectorAdapter\<close>

text \<open>A placeholder in the source: every method returns nil.\<close>

definition ReflectorAdapter_Get :: "string \<Rightarrow> string \<Rightarrow> go_error + Source option" where
  "ReflectorAdapter_Get namespace name = Inr None"

definition ReflectorAdapter_List :: "go_error + Source list" where
  "ReflectorAdapter_List = Inr []"

definition ReflectorAdapter_Create :: "Source \<Rightarrow> go_error option" where
  "ReflectorAdapter_Create source = None"

definition ReflectorAdapter_Update :: "Source \<Rightarrow> go_error option" where
  "ReflectorAdapter_Update source = None"

definition ReflectorAdapter_Delete :: "SourceID \<Rightarrow> go_error option" where
  "ReflectorAdapter_Delete sid = None"

section \<open>Interfaces provided\<close>

interpretation adapter_split: reflects_splitter splitReflects
  using split_back_splitter by (simp add: splitReflects_def [abs_def])

interpretation adapter_secret: source_reader secretToSource ResourceTypeSecret "\<lambda>_. True"
  "\<lambda>obj. annotation obj AnnotationReplicationAutoNamespaces"
  by unfold_locales
    (auto simp: secretToSource_def built_source_def [symmetric] built_source_of annotation_none Let_def split: option.splits)

interpretation adapter_configmap: source_reader configMapToSource ResourceTypeConfigMap "\<lambda>_. True"
  "\<lambda>obj. annotation obj AnnotationReplicationAutoNamespaces"
  by unfold_locales
    (auto simp: configMapToSource_def built_source_def [symmetric] built_source_of annotation_none Let_def split: option.splits)

section \<open>The mirror store\<close>

text \<open>The store is well formed when its keys are distinct, every address is allocated, and the
  mirror behind an entry has the identity it is stored under.\<close>

definition wf_entry :: "Mirror list \<Rightarrow> MirrorID \<times> nat \<Rightarrow> bool" where
  "wf_entry h e \<longleftrightarrow> snd e < length h \<and> mirror_id (h ! snd e) = fst e \<and> wf_mirror (h ! snd e)"

definition wf_store :: "'w sys \<Rightarrow> bool" where
  "wf_store s \<longleftrightarrow> distinct (map fst (mirrors s)) \<and> (\<forall>e \<in> set (mirrors s). wf_entry (heap s) e)"

text \<open>The mirror stored under an identity.\<close>

definition stored :: "'w sys \<Rightarrow> MirrorID \<Rightarrow> Mirror option" where
  "stored s i = map_option (\<lambda>p. heap s ! p) (map_of (mirrors s) i)"

interpretation ms: keyed_store "\<lambda>s. map_of (mirrors s)" store_put store_remove "\<lambda>s. distinct (map fst (mirrors s))"
  by unfold_locales
    (auto simp: store_put_def store_remove_def map_of_update map_of_delete distinct_update distinct_delete)

lemma wf_entry_cong:
  "wf_entry h e \<Longrightarrow> wf_entry (h @ [m]) e"
  "wf_entry h e \<Longrightarrow> wf_entry (h[p := Mirror_SetVersion v (h ! p)]) e"
  by (simp add: wf_entry_def nth_append)
    (cases "p = snd e"; auto simp: wf_entry_def wf_mirror_def Mirror_SetVersion_def)

lemma wf_store_updates [simp]:
  "wf_store (s\<lparr>world := w\<rparr>) = wf_store s" "wf_store (s\<lparr>metrics := ms\<rparr>) = wf_store s"
  "wf_store (s\<lparr>notFoundCache := nf\<rparr>) = wf_store s" "wf_store (s\<lparr>mirrorCache := mcs\<rparr>) = wf_store s"
  "wf_store (s\<lparr>sessionManager := sm\<rparr>) = wf_store s" "wf_store (s\<lparr>propertiesCache := ps\<rparr>) = wf_store s"
  by (simp_all add: wf_store_def)

lemma wf_store_alloc: "wf_store s \<Longrightarrow> wf_store (s\<lparr>heap := heap s @ [m]\<rparr>)"
  by (simp add: wf_store_def wf_entry_cong(1))

lemma wf_store_put:
  assumes "wf_store s" and "wf_entry (heap s) (i, p)"
  shows "wf_store (store_put i p s)"
proof -
  have "set (AList.update i p ms) \<subseteq> insert (i, p) (set ms)" for ms :: "(MirrorID \<times> nat) list"
    by (induction ms) auto
  with assms show ?thesis
    by (auto simp: wf_store_def store_put_def distinct_update)
qed

lemma wf_store_remove: "wf_store s \<Longrightarrow> wf_store (store_remove i s)"
  by (auto simp: wf_store_def store_remove_def AList.delete_eq distinct_map_filter)

lemma wf_store_new: "wf_store s \<Longrightarrow> wf_mirror m \<Longrightarrow>
   wf_store (store_put (mirror_id m) (length (heap s)) (s\<lparr>heap := heap s @ [m]\<rparr>))"
  by (rule wf_store_put) (simp_all add: wf_store_alloc wf_entry_def)

text \<open>Rules for the frame proofs of the components that use the store.\<close>

lemma io_wf_prims [frame_rules]:
  "state_io_rel (keeps wf_store) (api call)" "state_io_rel (keeps wf_store) (record_metrics ops)"
  "state_io_rel (keeps wf_store) (alloc m)" "state_io_rel (keeps wf_store) (deref p)"
  "state_io_rel (keeps wf_store) (get_sys f)"
  "(\<And>s. wf_store s \<Longrightarrow> wf_store (g s)) \<Longrightarrow> state_io_rel (keeps wf_store) (modify_sys g)"
  by (auto intro!: io_prims simp: keeps_def wf_store_alloc)

lemma io_wf_create_last [frame_rules]:
  "wf_mirror m \<Longrightarrow> state_io_rel (keeps wf_store) (do { p \<leftarrow> alloc m; MirrorStore_Create p })"
  by (auto simp: state_io_rel_def keeps_def MirrorStore_Create_def Let_def wf_store_new)

lemma io_wf_create [frame_rules]:
  "wf_mirror m \<Longrightarrow> (\<And>p r. state_io_rel (keeps wf_store) (k p r)) \<Longrightarrow>
   state_io_rel (keeps wf_store) (do { p \<leftarrow> alloc m; r \<leftarrow> MirrorStore_Create p; k p r })"
  by (auto simp: state_io_rel_def keeps_def MirrorStore_Create_def Let_def wf_store_new split: prod.splits)

lemma io_wf_register [frame_rules]:
  "wf_mirror m \<Longrightarrow> (\<And>p. state_io_rel (keeps wf_store) (k p)) \<Longrightarrow>
   state_io_rel (keeps wf_store) (do { p \<leftarrow> alloc m; RegisterMirror p; k p })"
  by (auto simp: state_io_rel_def keeps_def RegisterMirror_def Let_def wf_store_new split: prod.splits)

lemmas adapter_ops = GetSecret_def GetConfigMap_def CreateSecret_def UpdateSecret_def DeleteSecret_def
  CreateConfigMap_def UpdateConfigMap_def DeleteConfigMap_def NamespaceLister_List_def
  MirrorStore_Get_def GetBySourceID_def MirrorStore_Delete_def ListByNamespace_def UnregisterMirror_def
  time_Now_def time_Since_def ListSecrets_def ListConfigMaps_def

lemma GetBySourceID_run:
  "\<exists>ps w. run_state (GetBySourceID c sid) s = (Inr ps, s\<lparr>world := w\<rparr>) \<and>
     set ps = {p. \<exists>i. (i, p) \<in> set (mirrors s) \<and> mirror_sourceID (heap s ! p) = sid}"
  by (force simp: GetBySourceID_def Let_def image_iff)

lemma wf_store_entry:
  assumes "wf_store s" and "(i, p) \<in> set (mirrors s)"
  shows "p < length (heap s)" "mirror_id (heap s ! p) = i" "map_of (mirrors s) i = Some p"
  using assms by (auto simp: wf_store_def wf_entry_def)

lemma GetFinalizers_Set [simp]: "GetFinalizers (SetFinalizers fs obj) = fs"
  by (cases obj) simp_all

lemma SetFinalizers_twice [simp]: "SetFinalizers fs (SetFinalizers gs obj) = SetFinalizers fs obj"
  by (cases obj) simp_all

lemma SetFinalizers_same [simp]: "SetFinalizers (GetFinalizers obj) obj = obj"
  by (cases obj) simp_all

lemma filter_same_length: "length (filter P xs) = length xs \<Longrightarrow> filter P xs = xs"
  by (metis filter_id_conv length_filter_less less_irrefl)

lemma EnsureFinalizer_obj:
  "snd (fst (run_state (EnsureFinalizer c obj f) s)) =
     (if f \<in> set (GetFinalizers obj) then obj else SetFinalizers (GetFinalizers obj @ [f]) obj)"
  by (simp add: EnsureFinalizer_def hasFinalizer_def list_ex_iff Let_def case_prod_beta)

lemma EnsureFinalizer_present:
  "f \<in> set (GetFinalizers obj) \<Longrightarrow> run_state (EnsureFinalizer c obj f) t = ((None, obj), t)"
  by (auto simp: EnsureFinalizer_def hasFinalizer_def list_ex_iff)

lemma RemoveFinalizer_obj:
  "snd (fst (run_state (RemoveFinalizer c obj f) s)) = SetFinalizers (filter (\<lambda>g. g \<noteq> f) (GetFinalizers obj)) obj"
  by (simp add: RemoveFinalizer_def Let_def case_prod_beta filter_same_length)

section \<open>Properties\<close>

text \<open>Register, then look up: after \<open>Create\<close> of a newly allocated mirror the store returns
  a pointer to that very mirror under its identity and leaves every other entry as it was; after
  \<open>Delete\<close> the lookup reports not found; both keep the store well formed.\<close>

theorem mirror_store_create_get:
  assumes "wf_store s" and "wf_mirror m"
  shows "(let (r, s') = run_state (do { p \<leftarrow> alloc m; MirrorStore_Create p }) s;
              s'' = snd (run_state (MirrorStore_Delete (mirror_id m)) s') in
     r = None \<and> wf_store s' \<and> wf_store s'' \<and>
     (\<forall>i. stored s' i = (if i = mirror_id m then Some m else stored s i)) \<and>
     (\<forall>i. stored s'' i = (if i = mirror_id m then None else stored s i)) \<and>
     fst (run_state (MirrorStore_Get (mirror_namespace m) (mirror_name m)) s'') = Inl (ApiNotFound (mirror_name m)))"
proof -
  have "map_of (mirrors s) i = Some p \<Longrightarrow> p < length (heap s)" for i p
    using wf_store_entry(1) [OF assms(1)] by (auto dest: map_of_SomeD)
  moreover have "mirror_id m = NewMirrorID (mirror_namespace m) (mirror_name m)"
    using assms(2) by (simp only: wf_mirror_def)
  moreover have "wf_store (store_put (mirror_id m) (length (heap s)) (s\<lparr>heap := heap s @ [m]\<rparr>))"
    using assms by (rule wf_store_new)
  moreover from this have
    "wf_store (store_remove (mirror_id m) (store_put (mirror_id m) (length (heap s)) (s\<lparr>heap := heap s @ [m]\<rparr>)))"
    by (rule wf_store_remove)
  ultimately show ?thesis
    by (auto simp: MirrorStore_Create_def MirrorStore_Delete_def MirrorStore_Get_def Let_def stored_def nth_append
        map_of_update map_of_delete store_put_def store_remove_def map_option_case split: option.splits)
qed

theorem mirror_store_create_get_witness:
  "\<exists>(s :: unit sys) s'. stored s (NewMirrorID ''dev'' ''db'') = None \<and>
     s' = snd (run_state (do { p \<leftarrow> alloc (NewMirror (NewMirrorID ''dev'' ''db'') (NewSourceID ''prod'' ''db'') ''dev'' ''db''
                                        ResourceTypeSecret); MirrorStore_Create p }) s) \<and>
     stored s' (NewMirrorID ''dev'' ''db'') \<noteq> None"
proof -
  let ?s = "\<lparr>world = (), heap = [], mirrors = [], dispatcher = NewInMemoryDispatcher, metrics = [],
     notFoundCache = NewNotFoundCache 0, propertiesCache = NewPropertiesCache 0, mirrorCache = NewMirrorCache,
     sessionManager = NewSessionManager 0\<rparr> :: unit sys"
  let ?m = "NewMirror (NewMirrorID ''dev'' ''db'') (NewSourceID ''prod'' ''db'') ''dev'' ''db'' ResourceTypeSecret"
  have "wf_store ?s" "wf_mirror ?m"
    by (simp_all add: wf_store_def)
  from mirror_store_create_get [OF this]
  have "stored (snd (run_state (do { p \<leftarrow> alloc ?m; MirrorStore_Create p }) ?s)) (mirror_id ?m) = Some ?m"
    by (simp add: Let_def case_prod_beta)
  moreover have "mirror_id ?m = NewMirrorID ''dev'' ''db''" "stored ?s (NewMirrorID ''dev'' ''db'') = None"
    by (simp_all add: record_defs stored_def)
  ultimately show ?thesis
    by (metis option.distinct(1))
qed



text \<open>Finalizers: adding a finalizer is idempotent (a second \<open>EnsureFinalizer\<close> changes nothing
  and makes no call), and \<open>RemoveFinalizer\<close> after \<open>EnsureFinalizer\<close> gives back the finalizers
  of an object that did not have it.\<close>

theorem finalizer_roundtrip:
  "(let (e1, obj1) = fst (run_state (EnsureFinalizer c obj f) s) in
     hasFinalizer obj1 f \<and>
     (\<forall>t. run_state (EnsureFinalizer c obj1 f) t = ((None, obj1), t)) \<and>
     (\<forall>t. snd (fst (run_state (RemoveFinalizer c obj1 f) t)) =
        SetFinalizers (filter (\<lambda>g. g \<noteq> f) (GetFinalizers obj)) obj))"
proof -
  let ?obj1 = "snd (fst (run_state (EnsureFinalizer c obj f) s))"
  have has: "f \<in> set (GetFinalizers ?obj1)"
    by (simp add: EnsureFinalizer_obj)
  then have "run_state (EnsureFinalizer c ?obj1 f) t = ((None, ?obj1), t)" for t
    by (rule EnsureFinalizer_present)
  moreover have "SetFinalizers (filter (\<lambda>g. g \<noteq> f) (GetFinalizers ?obj1)) ?obj1 =
      SetFinalizers (filter (\<lambda>g. g \<noteq> f) (GetFinalizers obj)) obj"
    by (simp add: EnsureFinalizer_obj)
  ultimately show ?thesis
    using has by (simp add: Let_def case_prod_beta RemoveFinalizer_obj hasFinalizer_def list_ex_iff)
qed

end
