(* ===== verification/Example_Cluster.thy ===== *)
theory Example_Cluster
  imports System_State
begin

text \<open>
  A small API server on which theorems about arbitrary clients are instantiated: objects by namespace
  and name, a clock, and a log of the writes it has accepted. It shows that what the theorems assume
  of a client can be met; no component depends on it.
\<close>

record cluster =
  cl_secrets :: "string \<times> string \<Rightarrow> Secret option"
  cl_configmaps :: "string \<times> string \<Rightarrow> ConfigMap option"
  cl_namespaces :: "string list"
  cl_rules :: "string \<Rightarrow> ClusterReplicationRule option"
  cl_now :: gotime
  cl_log :: "(string \<times> string) list"

definition not_found :: "string \<Rightarrow> 'a option \<Rightarrow> go_error + 'a" where
  "not_found name x = (case x of None \<Rightarrow> Inl (ApiNotFound name) | Some o' \<Rightarrow> Inr o')"

definition put_secret :: "Secret \<Rightarrow> cluster \<Rightarrow> cluster" where
  "put_secret obj w = w\<lparr>cl_secrets := (cl_secrets w)((Namespace obj, Name obj) \<mapsto> obj),
     cl_log := cl_log w @ [(Namespace obj, Name obj)]\<rparr>"

definition put_configmap :: "ConfigMap \<Rightarrow> cluster \<Rightarrow> cluster" where
  "put_configmap obj w = w\<lparr>cl_configmaps := (cl_configmaps w)((Namespace obj, Name obj) \<mapsto> obj),
     cl_log := cl_log w @ [(Namespace obj, Name obj)]\<rparr>"

text \<open>A read answers with the object as it is stored under the requested name.\<close>

definition cluster_client :: "cluster client" where
  "cluster_client =
     \<lparr>get_secret = (\<lambda>ns n w. (not_found n (map_option (\<lambda>obj. obj\<lparr>Namespace := ns, Name := n\<rparr>) (cl_secrets w (ns, n))), w)),
      get_configmap = (\<lambda>ns n w. (not_found n (map_option (\<lambda>obj. obj\<lparr>Namespace := ns, Name := n\<rparr>) (cl_configmaps w (ns, n))), w)),
      get_namespace = (\<lambda>n w. (if n \<in> set (cl_namespaces w) then Inr () else Inl (ApiNotFound n), w)),
      get_certificate = (\<lambda>ns n w. (Inl (ApiNotFound n), w)),
      get_ingress = (\<lambda>ns n w. (Inl (ApiNotFound n), w)),
      list_secrets = (\<lambda>ns w. (Inr [], w)),
      list_configmaps = (\<lambda>ns w. (Inr [], w)),
      list_namespaces = (\<lambda>w. (Inr (cl_namespaces w), w)),
      create_secret = (\<lambda>obj w. (None, put_secret obj w)),
      update_secret = (\<lambda>obj w. (None, put_secret obj w)),
      delete_secret = (\<lambda>obj w. (None, w\<lparr>cl_secrets := (cl_secrets w)((Namespace obj, Name obj) := None)\<rparr>)),
      create_configmap = (\<lambda>obj w. (None, put_configmap obj w)),
      update_configmap = (\<lambda>obj w. (None, put_configmap obj w)),
      delete_configmap = (\<lambda>obj w. (None, w\<lparr>cl_configmaps := (cl_configmaps w)((Namespace obj, Name obj) := None)\<rparr>)),
      update_object = (\<lambda>obj w. (None, w)),
      get_rule = (\<lambda>n w. (not_found n (cl_rules w n), w)),
      update_rule_status = (\<lambda>rule w. (None, w\<lparr>cl_rules := (cl_rules w)(Name rule \<mapsto> rule)\<rparr>)),
      ctx_Err = (\<lambda>w. (None, w)),
      wait_for = (\<lambda>d w. (None, w\<lparr>cl_now := cl_now w + d\<rparr>)),
      rand_Intn = (\<lambda>k w. (0, w)),
      clock = (\<lambda>w. (cl_now w, w\<lparr>cl_now := cl_now w + 1\<rparr>)),
      map_order = (\<lambda>w. ((\<lambda>_. 0), w))\<rparr>"

definition empty_cluster :: cluster where
  "empty_cluster = \<lparr>cl_secrets = Map.empty, cl_configmaps = Map.empty, cl_namespaces = [''prod'', ''dev''],
     cl_rules = Map.empty, cl_now = 0, cl_log = []\<rparr>"

text \<open>The program as main.go starts it.\<close>

definition started :: "'w \<Rightarrow> 'w sys" where
  "started w =
     \<lparr>world = w, heap = [], mirrors = [], dispatcher = NewInMemoryDispatcher, metrics = [],
      notFoundCache = NewNotFoundCache 3600000000000, propertiesCache = NewPropertiesCache 3600000000000,
      mirrorCache = NewMirrorCache,
      sessionManager = OnSessionEnd ClearCaches (NewSessionManager 3600000000000)\<rparr>"

lemma started_sel [simp]:
  "world (started w) = w" "heap (started w) = []" "mirrors (started w) = []"
  "dispatcher (started w) = NewInMemoryDispatcher" "metrics (started w) = []"
  by (simp_all add: started_def)

end
