(* ===== verification/Usecases.thy ===== *)
theory Usecases
  imports Adapters Example_Cluster
begin

text \<open>
  Package \<open>usecase\<close> (internal/application/usecase/reflection.go): replicating a source to its
  mirrors, and the three use cases that create and delete mirrors. They reach Kubernetes through the
  client \<open>c\<close> and keep their mirrors in the in-memory store.
\<close>

section \<open>ReflectResourcesUseCase\<close>

text \<open>A call of \<open>reflectionService.Reflect\<close> with the mirror at address \<open>p\<close>, which it changes
  in place; the mirror it leaves is returned with the error.\<close>

definition service_Reflect :: "'w client \<Rightarrow> Source \<Rightarrow> nat \<Rightarrow> ('w sys, go_error option \<times> Mirror) state" where
  "service_Reflect c source p = State (\<lambda>s.
     let (err, mirror, w) = Reflect (clock c) (Dispatch (dispatcher s)) source (heap s ! p) (world s)
     in ((err, mirror), s\<lparr>heap := (heap s)[p := mirror], world := w\<rparr>))"

definition already_exists :: "string \<Rightarrow> string \<Rightarrow> go_error" where
  "already_exists namespace name = ErrorText (''resource '' @ namespace @ ''/'' @ name @ '' already exists'')"

definition checkForConflicts :: "'w client \<Rightarrow> Source \<Rightarrow> string \<Rightarrow> ('w sys, go_error option) state" where
  "checkForConflicts c source targetNamespace =
     (if source_resourceType source = ResourceTypeSecret then do {
        r \<leftarrow> GetSecret c targetNamespace (TargetName source);
        case r of
          Inr secret \<Rightarrow>
            if IsHelmSecret secret then return None
            else if Annotations secret \<noteq> None \<and> annotation secret AnnotationReflects \<noteq> '''' then return None
            else return (Some (already_exists targetNamespace (TargetName source)))
        | Inl err \<Rightarrow>
            if \<not> IsNotFound err then return (Some (Wrapped ''failed to check for conflicts'' err))
            else return None }
      else if source_resourceType source = ResourceTypeConfigMap then do {
        r \<leftarrow> GetConfigMap c targetNamespace (TargetName source);
        case r of
          Inr cm \<Rightarrow>
            if IsHelmConfigMap cm then return None
            else if Annotations cm \<noteq> None \<and> annotation cm AnnotationReflects \<noteq> '''' then return None
            else return (Some (already_exists targetNamespace (TargetName source)))
        | Inl err \<Rightarrow>
            if \<not> IsNotFound err then return (Some (Wrapped ''failed to check for conflicts'' err))
            else return None }
      else return None)"

definition createAutoMirrorIfNotExists :: "'w client \<Rightarrow> Source \<Rightarrow> string \<Rightarrow> ('w sys, go_error option) state" where
  "createAutoMirrorIfNotExists c source targetNamespace = do {
     r \<leftarrow> MirrorStore_Get targetNamespace (TargetName source);
     case r of
       Inr _ \<Rightarrow> return None
     | Inl err \<Rightarrow>
         if \<not> IsNotFound err then return (Some (Wrapped ''failed to check existing mirror'' err))
         else do {
           conflict \<leftarrow> checkForConflicts c source targetNamespace;
           case conflict of
             Some _ \<Rightarrow> return None
           | None \<Rightarrow> do {
               p \<leftarrow> alloc (NewAutoMirror (NewMirrorID targetNamespace (TargetName source)) (source_id source)
                            targetNamespace (TargetName source) (source_resourceType source));
               created \<leftarrow> MirrorStore_Create p;
               case created of
                 Some err2 \<Rightarrow> do {
                   record_metrics (RecordReflectionError (source_namespace source) (TargetName source)
                                     targetNamespace ''mirror_create_failed'');
                   return (Some (Wrapped ''failed to create mirror'' err2)) }
               | None \<Rightarrow> do {
                   record_metrics (RecordAutoMirrorCreated targetNamespace);
                   return None } } } }"

definition handleAutoMirrors :: "'w client \<Rightarrow> Source \<Rightarrow> ('w sys, go_error option) state" where
  "handleAutoMirrors c source = do {
     r \<leftarrow> NamespaceLister_List c;
     case r of
       Inl err \<Rightarrow> return (Some (Wrapped ''failed to list namespaces'' err))
     | Inr namespaces \<Rightarrow> do {
         for_each namespaces (\<lambda>ns.
           if ns = source_namespace source then return None
           else if \<not> CanAutoMirrorToNamespace source ns then return None
           else createAutoMirrorIfNotExists c source ns);
         return None } }"

definition cleanupAutoMirrorsWhenDisabled :: "'w client \<Rightarrow> Source \<Rightarrow> ('w sys, unit) state" where
  "cleanupAutoMirrorsWhenDisabled c source = do {
     r \<leftarrow> GetBySourceID c (source_id source);
     case r of
       Inl _ \<Rightarrow> return ()
     | Inr ps \<Rightarrow> for_each ps (\<lambda>p. do { m \<leftarrow> deref p; MirrorStore_Delete (mirror_id m) }) }"

definition cleanupAutoMirrorsWhenNoLongerAllowed :: "'w client \<Rightarrow> Source \<Rightarrow> ('w sys, unit) state" where
  "cleanupAutoMirrorsWhenNoLongerAllowed c source = do {
     r \<leftarrow> GetBySourceID c (source_id source);
     case r of
       Inl _ \<Rightarrow> return ()
     | Inr ps \<Rightarrow> for_each ps (\<lambda>p. do {
         m \<leftarrow> deref p;
         if \<not> CanAutoMirrorToNamespace source (mirror_namespace m) then MirrorStore_Delete (mirror_id m)
         else return None }) }"

definition isPrintable :: "string \<Rightarrow> bool" where
  "isPrintable dat \<longleftrightarrow> list_all (\<lambda>b. \<not> (of_char b < (32 :: nat) \<or> of_char b > (126 :: nat))) dat"

text \<open>The loop that distributes the source's entries over \<open>Data\<close> and \<open>BinaryData\<close>.\<close>

definition text_entries :: "string_map \<Rightarrow> string_map" where
  "text_entries sourceData k =
     (case sourceData k of
        None \<Rightarrow> None
      | Some v \<Rightarrow> if length v > 0 \<and> \<not> isPrintable v then None else Some v)"

definition binary_entries :: "string_map \<Rightarrow> string_map" where
  "binary_entries sourceData k =
     (case sourceData k of
        None \<Rightarrow> None
      | Some v \<Rightarrow> if length v > 0 \<and> \<not> isPrintable v then Some v else None)"

definition updateMirrorData ::
  "'w client \<Rightarrow> Source \<Rightarrow> Mirror \<Rightarrow> string_map \<Rightarrow> string \<Rightarrow> ('w sys, go_error option) state"
where
  "updateMirrorData c source mirror sourceData sourceSecretType = do {
     now \<leftarrow> time_Now c;
     let annotationsMap0 = MirrorAnnotations now (SourceID_String (source_id source)) (source_version source);
     annotationsMap \<leftarrow>
       (if mirror_isAutoCreated mirror then do {
          now2 \<leftarrow> time_Now c;
          return (AutoMirrorAnnotations now2 (SourceID_String (source_id source)) (source_version source)) }
        else return annotationsMap0);
     if mirror_resourceType mirror = ResourceTypeSecret then do {
       r \<leftarrow> GetSecret c (mirror_namespace mirror) (mirror_name mirror);
       case r of
         Inl err \<Rightarrow>
           if \<not> IsNotFound err then return (Some err)
           else CreateSecret c (new_Secret (mirror_name mirror) (mirror_namespace mirror) annotationsMap
                                  sourceData sourceSecretType)
       | Inr secret \<Rightarrow>
           if Annotations secret \<noteq> None \<and> annotation secret AnnotationReflectedVersion = source_version source
           then return None
           else UpdateSecret c (secret\<lparr>Data := sourceData, Annotations := Some annotationsMap, Type := sourceSecretType\<rparr>) }
     else if mirror_resourceType mirror = ResourceTypeConfigMap then do {
       r \<leftarrow> GetConfigMap c (mirror_namespace mirror) (mirror_name mirror);
       case r of
         Inl err \<Rightarrow>
           if \<not> IsNotFound err then return (Some err)
           else CreateConfigMap c (new_ConfigMap (mirror_name mirror) (mirror_namespace mirror) annotationsMap
                                     (text_entries sourceData) (binary_entries sourceData))
       | Inr cm \<Rightarrow>
           if Annotations cm \<noteq> None \<and> annotation cm AnnotationReflectedVersion = source_version source
           then return None
           else UpdateConfigMap c (cm\<lparr>cmData := text_entries sourceData, BinaryData := binary_entries sourceData,
                                      Annotations := Some annotationsMap\<rparr>) }
     else return None }"

text \<open>The first switch of \<open>reflectToMirror\<close>: the source's data and secret type.\<close>

definition read_source_data :: "'w client \<Rightarrow> Source \<Rightarrow> ('w sys, go_error + string_map \<times> string) state" where
  "read_source_data c source =
     (if source_resourceType source = ResourceTypeSecret then do {
        r \<leftarrow> GetSecret c (source_namespace source) (source_name source);
        return (case r of Inl err \<Rightarrow> Inl err | Inr secret \<Rightarrow> Inr (Data secret, Type secret)) }
      else if source_resourceType source = ResourceTypeConfigMap then do {
        r \<leftarrow> GetConfigMap c (source_namespace source) (source_name source);
        return (case r of Inl err \<Rightarrow> Inl err | Inr cm \<Rightarrow> Inr (cmData cm ++ BinaryData cm, '''')) }
      else return (Inr (Map.empty, '''')))"

definition reflectToMirror :: "'w client \<Rightarrow> Source \<Rightarrow> nat \<Rightarrow> ('w sys, go_error option) state" where
  "reflectToMirror c source p = do {
     start \<leftarrow> time_Now c;
     m \<leftarrow> deref p;
     r \<leftarrow> read_source_data c source;
     case r of
       Inl err \<Rightarrow> do {
         record_metrics (RecordReflectionError (source_namespace source) (source_name source) (mirror_namespace m) ''source_not_found'');
         return (Some err) }
     | Inr (sourceData, sourceSecretType) \<Rightarrow> do {
         (err, mirror) \<leftarrow> service_Reflect c source p;
         case err of
           Some e \<Rightarrow> do {
             record_metrics (RecordReflectionError (source_namespace source) (source_name source) (mirror_namespace m)
                               ''reflection_validation_failed'');
             return (Some e) }
         | None \<Rightarrow> do {
             err2 \<leftarrow> updateMirrorData c source mirror sourceData sourceSecretType;
             case err2 of
               Some e \<Rightarrow> do {
                 record_metrics (RecordReflectionError (source_namespace source) (source_name source) (mirror_namespace m)
                                   ''update_failed'');
                 return (Some e) }
             | None \<Rightarrow> do {
                 d \<leftarrow> time_Since c start;
                 now \<leftarrow> time_Now c;
                 record_metrics (RecordReflectionSuccess now (source_namespace source) (source_name source)
                                   (mirror_namespace m) d);
                 return None } } } }"

definition ReflectResources_Execute :: "'w client \<Rightarrow> Source \<Rightarrow> ('w sys, go_error option) state" where
  "ReflectResources_Execute c source =
     (case ValidateSource (Some source) of
        Some err \<Rightarrow> return (Some err)
      | None \<Rightarrow>
          if \<not> source_allowed source then do {
            cleanupAutoMirrorsWhenDisabled c source;
            return None }
          else do {
            autoErr \<leftarrow> (if source_autoEnabled source then handleAutoMirrors c source else return None);
            case autoErr of
              Some err \<Rightarrow> return (Some err)
            | None \<Rightarrow> do {
                cleanupAutoMirrorsWhenNoLongerAllowed c source;
                r \<leftarrow> GetBySourceID c (source_id source);
                case r of
                  Inl err \<Rightarrow>
                    return (Some (Wrapped (''failed to get mirrors for source '' @ SourceID_String (source_id source)) err))
                | Inr ps \<Rightarrow> do {
                    for_each ps (\<lambda>p. reflectToMirror c source p);
                    return None } } })"

section \<open>The other use cases\<close>

text \<open>\<open>switch resourceType\<close> around the deletion of the mirrored object; its result is dropped.\<close>

definition delete_object :: "'w client \<Rightarrow> ResourceType \<Rightarrow> string \<Rightarrow> string \<Rightarrow> ('w sys, go_error option) state" where
  "delete_object c resourceType namespace name =
     (if resourceType = ResourceTypeSecret then DeleteSecret c namespace name
      else if resourceType = ResourceTypeConfigMap then DeleteConfigMap c namespace name
      else return None)"

definition HandleSourceDeletion_Execute ::
  "'w client \<Rightarrow> bool \<Rightarrow> SourceID \<Rightarrow> ResourceType \<Rightarrow> ('w sys, go_error option) state"
where
  "HandleSourceDeletion_Execute c deleteOrphaned sourceID resourceType = do {
     r \<leftarrow> GetBySourceID c sourceID;
     case r of
       Inl err \<Rightarrow> return (Some (Wrapped ''failed to get mirrors'' err))
     | Inr ps \<Rightarrow> do {
         for_each ps (\<lambda>p. do {
           m \<leftarrow> deref p;
           (if deleteOrphaned then delete_object c resourceType (mirror_namespace m) (mirror_name m) else return None);
           MirrorStore_Delete (mirror_id m) });
         return None } }"

definition CreateMirror_Execute :: "SourceID \<Rightarrow> string \<Rightarrow> string \<Rightarrow> ResourceType \<Rightarrow> ('w sys, go_error option) state" where
  "CreateMirror_Execute sourceID targetNamespace targetName resourceType = do {
     p \<leftarrow> alloc (NewMirror (NewMirrorID targetNamespace targetName) sourceID targetNamespace targetName resourceType);
     MirrorStore_Create p }"

definition DeleteMirror_Execute :: "'w client \<Rightarrow> bool \<Rightarrow> MirrorID \<Rightarrow> ResourceType \<Rightarrow> ('w sys, go_error option) state" where
  "DeleteMirror_Execute c deleteOrphaned mirrorID resourceType = do {
     (if deleteOrphaned then delete_object c resourceType (mirrorIDNamespace mirrorID) (mirrorIDName mirrorID)
      else return None);
     MirrorStore_Delete mirrorID }"

section \<open>What the client is assumed to do\<close>

text \<open>
  The theorems about calls to Kubernetes hold for every client and every preorder \<open>W\<close> on worlds
  that the read calls respect: with \<open>W\<close> as ``no write is logged that was not logged before'', for
  instance, a statement that an operation stays within \<open>W\<close> says that it writes nothing.
\<close>

definition reads_keep :: "('w \<Rightarrow> 'w \<Rightarrow> bool) \<Rightarrow> 'w client \<Rightarrow> bool" where
  "reads_keep W c \<longleftrightarrow> reflp W \<and> transp W \<and>
     (\<forall>ns n w. W w (snd (get_secret c ns n w)) \<and> W w (snd (get_configmap c ns n w)) \<and>
        W w (snd (get_certificate c ns n w)) \<and> W w (snd (get_ingress c ns n w)) \<and>
        W w (snd (get_namespace c n w)) \<and> W w (snd (list_secrets c ns w)) \<and> W w (snd (list_configmaps c ns w)) \<and>
        W w (snd (list_namespaces c w)) \<and> W w (snd (get_rule c n w)) \<and> W w (snd (clock c w)) \<and>
        W w (snd (map_order c w)) \<and> W w (snd (ctx_Err c w))) \<and>
     (\<forall>d w. W w (snd (wait_for c d w))) \<and> (\<forall>k w. W w (snd (rand_Intn c k w)))"

definition handlers_keep :: "('w \<Rightarrow> 'w \<Rightarrow> bool) \<Rightarrow> 'w InMemoryDispatcher \<Rightarrow> bool" where
  "handlers_keep W d \<longleftrightarrow> (\<forall>ev w. W w (snd (Dispatch d ev w)))"

text \<open>A read returns the object that was asked for.\<close>

definition gets_requested :: "'w client \<Rightarrow> bool" where
  "gets_requested c \<longleftrightarrow>
     (\<forall>ns n w obj. fst (get_secret c ns n w) = Inr obj \<longrightarrow> Namespace obj = ns \<and> Name obj = n) \<and>
     (\<forall>ns n w obj. fst (get_configmap c ns n w) = Inr obj \<longrightarrow> Namespace obj = ns \<and> Name obj = n)"

text \<open>The relation between the states before and after an operation.\<close>

definition world_rel :: "('w \<Rightarrow> 'w \<Rightarrow> bool) \<Rightarrow> 'w sys \<Rightarrow> 'w sys \<Rightarrow> bool" where
  "world_rel W s t \<longleftrightarrow> dispatcher t = dispatcher s \<and> (handlers_keep W (dispatcher s) \<longrightarrow> W (world s) (world t))"

lemma frame_world_rel: "reads_keep W c \<Longrightarrow> frame (world_rel W)"
  by (auto simp: frame_def world_rel_def reads_keep_def reflp_def transp_def)

lemma world_rel_world: "W (world s) w \<Longrightarrow> world_rel W s (s\<lparr>world := w\<rparr>)"
  by (simp add: world_rel_def)

lemma io_world_api: "(\<And>w. W w (snd (call w))) \<Longrightarrow> state_io_rel (world_rel W) (api call)"
  by (simp add: state_io_rel_def world_rel_def)

lemma io_world_reads [frame_rules]:
  assumes "reads_keep W c"
  shows "state_io_rel (world_rel W) (api (get_secret c ns n))" "state_io_rel (world_rel W) (api (get_configmap c ns n))"
    "state_io_rel (world_rel W) (api (get_certificate c ns n))" "state_io_rel (world_rel W) (api (get_ingress c ns n))"
    "state_io_rel (world_rel W) (api (get_namespace c n))" "state_io_rel (world_rel W) (api (list_secrets c ns))"
    "state_io_rel (world_rel W) (api (list_configmaps c ns))" "state_io_rel (world_rel W) (api (list_namespaces c))"
    "state_io_rel (world_rel W) (api (get_rule c n))" "state_io_rel (world_rel W) (api (clock c))"
    "state_io_rel (world_rel W) (api (map_order c))" "state_io_rel (world_rel W) (api (ctx_Err c))"
    "state_io_rel (world_rel W) (api (wait_for c d))" "state_io_rel (world_rel W) (api (rand_Intn c k))"
  using assms by (auto intro!: io_world_api simp: reads_keep_def)

lemma io_world_prims [frame_rules]:
  assumes "reads_keep W c"
  shows "state_io_rel (world_rel W) (record_metrics ops)" "state_io_rel (world_rel W) (alloc m)"
    "state_io_rel (world_rel W) (deref p)" "state_io_rel (world_rel W) (get_sys f)"
    "(\<And>s. world (g s) = world s \<and> dispatcher (g s) = dispatcher s) \<Longrightarrow> state_io_rel (world_rel W) (modify_sys g)"
  using assms by (auto intro!: io_prims simp: world_rel_def reads_keep_def reflp_def)

lemma store_ops_world [simp]:
  "world (store_put i p s) = world s" "dispatcher (store_put i p s) = dispatcher s"
  "world (store_remove i s) = world s" "dispatcher (store_remove i s) = dispatcher s"
  by (simp_all add: store_put_def store_remove_def)

lemma service_Reflect_result:
  "fst (fst (run_state (service_Reflect c source p) s)) = None \<Longrightarrow>
   CanReflectToNamespace source (mirror_namespace (snd (fst (run_state (service_Reflect c source p) s))))"
  by (auto simp: service_Reflect_def Reflect_def Let_def Mirror_SetVersion_def case_prod_beta split: if_splits)

lemma io_world_Reflect [frame_rules]:
  assumes "reads_keep W c"
  shows "state_io_rel (world_rel W) (service_Reflect c source p)"
proof -
  have clk: "W w (snd (clock c w))" and refl: "W w w" for w
    using assms by (auto simp: reads_keep_def reflp_def)
  have trans: "W u v \<Longrightarrow> W v w \<Longrightarrow> W u w" for u v w
    using assms by (auto simp: reads_keep_def transp_def)
  have "W w (snd (snd (Reflect (clock c) (Dispatch d) source m w)))" if "handlers_keep W d" for d m w
  proof -
    have "W w (snd (Dispatch d ev (snd (clock c w))))" for ev
      using that clk trans unfolding handlers_keep_def by blast
    then show ?thesis
      by (simp add: Reflect_def Let_def case_prod_beta refl)
  qed
  then show ?thesis
    by (auto simp: state_io_rel_def world_rel_def service_Reflect_def Let_def case_prod_beta)
qed

section \<open>What a replication may write\<close>

text \<open>The answers from which \<open>read_source_data\<close> takes data and secret type.\<close>

definition source_answer :: "'w client \<Rightarrow> Source \<Rightarrow> string_map \<Rightarrow> string \<Rightarrow> bool" where
  "source_answer c source dat st \<longleftrightarrow>
     (if source_resourceType source = ResourceTypeSecret
      then \<exists>w obj. fst (get_secret c (source_namespace source) (source_name source) w) = Inr obj \<and> dat = Data obj \<and> st = Type obj
      else if source_resourceType source = ResourceTypeConfigMap
      then \<exists>w obj. fst (get_configmap c (source_namespace source) (source_name source) w) = Inr obj \<and>
             dat = cmData obj ++ BinaryData obj \<and> st = ''''
      else dat = Map.empty \<and> st = '''')"

definition permitted_meta :: "Source \<Rightarrow> 'a k8s_object_scheme \<Rightarrow> bool" where
  "permitted_meta source obj \<longleftrightarrow>
     source_allowed source \<and> CanReflectToNamespace source (Namespace obj) \<and>
     annotation obj AnnotationReflects = SourceID_String (source_id source) \<and>
     annotation obj AnnotationReflectedVersion = source_version source"

definition permitted_secret :: "'w client \<Rightarrow> Source \<Rightarrow> Secret \<Rightarrow> bool" where
  "permitted_secret c source obj \<longleftrightarrow> permitted_meta source obj \<and> source_answer c source (Data obj) (Type obj)"

definition permitted_configmap :: "'w client \<Rightarrow> Source \<Rightarrow> ConfigMap \<Rightarrow> bool" where
  "permitted_configmap c source obj \<longleftrightarrow> permitted_meta source obj \<and>
     (\<exists>dat st. source_answer c source dat st \<and> cmData obj = text_entries dat \<and> BinaryData obj = binary_entries dat)"

text \<open>The writes of permitted objects respect \<open>W\<close>; nothing is said of other writes or of deletions.\<close>

definition permitted_writes_keep :: "('w \<Rightarrow> 'w \<Rightarrow> bool) \<Rightarrow> 'w client \<Rightarrow> Source \<Rightarrow> bool" where
  "permitted_writes_keep W c source \<longleftrightarrow>
     (\<forall>obj w. permitted_secret c source obj \<longrightarrow> W w (snd (create_secret c obj w)) \<and> W w (snd (update_secret c obj w))) \<and>
     (\<forall>obj w. permitted_configmap c source obj \<longrightarrow> W w (snd (create_configmap c obj w)) \<and> W w (snd (update_configmap c obj w)))"

lemma read_source_data_answer:
  "fst (run_state (read_source_data c source) s) = Inr (dat, st) \<Longrightarrow> source_answer c source dat st"
  by (auto simp: read_source_data_def source_answer_def adapter_ops Let_def split: if_splits sum.splits)

definition mirror_annotation_map :: "Source \<Rightarrow> string_map \<Rightarrow> bool" where
  "mirror_annotation_map source a \<longleftrightarrow>
     a AnnotationReflects = Some (SourceID_String (source_id source)) \<and> a AnnotationReflectedVersion = Some (source_version source)"

lemma mirror_annotation_maps [simp]:
  "mirror_annotation_map source (MirrorAnnotations now (SourceID_String (source_id source)) (source_version source))"
  "mirror_annotation_map source (AutoMirrorAnnotations now (SourceID_String (source_id source)) (source_version source))"
  by (simp_all add: mirror_annotation_map_def MirrorAnnotations_def AutoMirrorAnnotations_def)

lemma permitted_metaI:
  "source_allowed source \<Longrightarrow> CanReflectToNamespace source (Namespace obj) \<Longrightarrow> Annotations obj = Some a \<Longrightarrow>
   mirror_annotation_map source a \<Longrightarrow> permitted_meta source obj"
  by (simp add: permitted_meta_def mirror_annotation_map_def annotation_def)

lemma io_update_secret_mirror:
  assumes "reads_keep W c" "gets_requested c" "permitted_writes_keep W c source" "source_allowed source"
    and "CanReflectToNamespace source ns" "source_answer c source dat st" "mirror_annotation_map source a"
  shows "state_io_rel (world_rel W) (do {
       r \<leftarrow> GetSecret c ns n;
       case r of
         Inl err \<Rightarrow> if \<not> IsNotFound err then return (Some err) else CreateSecret c (new_Secret n ns a dat st)
       | Inr secret \<Rightarrow>
           if Annotations secret \<noteq> None \<and> annotation secret AnnotationReflectedVersion = v then return None
           else UpdateSecret c (secret\<lparr>Data := dat, Annotations := Some a, Type := st\<rparr>) })"
proof (rule io_bind_post [where Q = "\<lambda>r. \<forall>obj. r = Inr obj \<longrightarrow> Namespace obj = ns"])
  note fr = frame_world_rel [OF assms(1)]
  show "frame (world_rel W)" by (rule fr)
  show "state_io_rel (world_rel W) (GetSecret c ns n)"
    unfolding GetSecret_def by (rule io_world_reads [OF assms(1)])
  show "\<forall>obj. fst (run_state (GetSecret c ns n) s) = Inr obj \<longrightarrow> Namespace obj = ns" for s
    using assms(2) by (simp add: GetSecret_def gets_requested_def)
  have wr: "state_io_rel (world_rel W) (CreateSecret c obj)" "state_io_rel (world_rel W) (UpdateSecret c obj)"
    if "Namespace obj = ns" "Annotations obj = Some a" "Data obj = dat" "Type obj = st" for obj
  proof -
    have "permitted_secret c source obj"
      using that assms(4-7) by (auto simp: permitted_secret_def intro: permitted_metaI)
    then show "state_io_rel (world_rel W) (CreateSecret c obj)" "state_io_rel (world_rel W) (UpdateSecret c obj)"
      using assms(3) unfolding CreateSecret_def UpdateSecret_def permitted_writes_keep_def
      by (auto intro!: io_world_api)
  qed
  show "state_io_rel (world_rel W) (case r of
         Inl err \<Rightarrow> if \<not> IsNotFound err then return (Some err) else CreateSecret c (new_Secret n ns a dat st)
       | Inr secret \<Rightarrow>
           if Annotations secret \<noteq> None \<and> annotation secret AnnotationReflectedVersion = v then return None
           else UpdateSecret c (secret\<lparr>Data := dat, Annotations := Some a, Type := st\<rparr>))"
    if "\<forall>obj. r = Inr obj \<longrightarrow> Namespace obj = ns" for r
    using that by (auto intro!: io_case_sum io_if io_return [OF fr] wr simp: new_Secret_def)
qed

lemma io_update_configmap_mirror:
  assumes "reads_keep W c" "gets_requested c" "permitted_writes_keep W c source" "source_allowed source"
    and "CanReflectToNamespace source ns" "source_answer c source dat st" "mirror_annotation_map source a"
  shows "state_io_rel (world_rel W) (do {
       r \<leftarrow> GetConfigMap c ns n;
       case r of
         Inl err \<Rightarrow> if \<not> IsNotFound err then return (Some err)
           else CreateConfigMap c (new_ConfigMap n ns a (text_entries dat) (binary_entries dat))
       | Inr cm \<Rightarrow>
           if Annotations cm \<noteq> None \<and> annotation cm AnnotationReflectedVersion = v then return None
           else UpdateConfigMap c (cm\<lparr>cmData := text_entries dat, BinaryData := binary_entries dat, Annotations := Some a\<rparr>) })"
proof (rule io_bind_post [where Q = "\<lambda>r. \<forall>obj. r = Inr obj \<longrightarrow> Namespace obj = ns"])
  note fr = frame_world_rel [OF assms(1)]
  show "frame (world_rel W)" by (rule fr)
  show "state_io_rel (world_rel W) (GetConfigMap c ns n)"
    unfolding GetConfigMap_def by (rule io_world_reads [OF assms(1)])
  show "\<forall>obj. fst (run_state (GetConfigMap c ns n) s) = Inr obj \<longrightarrow> Namespace obj = ns" for s
    using assms(2) by (simp add: GetConfigMap_def gets_requested_def)
  have wr: "state_io_rel (world_rel W) (CreateConfigMap c obj)" "state_io_rel (world_rel W) (UpdateConfigMap c obj)"
    if "Namespace obj = ns" "Annotations obj = Some a" "cmData obj = text_entries dat" "BinaryData obj = binary_entries dat" for obj
  proof -
    have "permitted_configmap c source obj"
      using that assms(4-7) by (auto simp: permitted_configmap_def intro: permitted_metaI)
    then show "state_io_rel (world_rel W) (CreateConfigMap c obj)" "state_io_rel (world_rel W) (UpdateConfigMap c obj)"
      using assms(3) unfolding CreateConfigMap_def UpdateConfigMap_def permitted_writes_keep_def
      by (auto intro!: io_world_api)
  qed
  show "state_io_rel (world_rel W) (case r of
         Inl err \<Rightarrow> if \<not> IsNotFound err then return (Some err)
           else CreateConfigMap c (new_ConfigMap n ns a (text_entries dat) (binary_entries dat))
       | Inr cm \<Rightarrow>
           if Annotations cm \<noteq> None \<and> annotation cm AnnotationReflectedVersion = v then return None
           else UpdateConfigMap c (cm\<lparr>cmData := text_entries dat, BinaryData := binary_entries dat, Annotations := Some a\<rparr>))"
    if "\<forall>obj. r = Inr obj \<longrightarrow> Namespace obj = ns" for r
    using that by (auto intro!: io_case_sum io_if io_return [OF fr] wr simp: new_ConfigMap_def)
qed

lemma io_updateMirrorData:
  assumes "reads_keep W c" "gets_requested c" "permitted_writes_keep W c source" "source_allowed source"
    and "CanReflectToNamespace source (mirror_namespace m)" "source_answer c source dat st"
  shows "state_io_rel (world_rel W) (updateMirrorData c source m dat st)"
proof -
  note fr = frame_world_rel [OF assms(1)]
  have now: "state_io_rel (world_rel W) (time_Now c)"
    unfolding time_Now_def by (rule io_world_reads [OF assms(1)])
  show ?thesis
    unfolding updateMirrorData_def Let_def
    by (intro io_bind [OF fr now] io_bind_post [where Q = "mirror_annotation_map source", OF fr] io_if
        io_return [OF fr] io_update_secret_mirror [OF assms] io_update_configmap_mirror [OF assms])
      (auto simp: time_Now_def Let_def case_prod_beta)
qed

lemma io_reflectToMirror:
  assumes "reads_keep W c" "gets_requested c" "permitted_writes_keep W c source" "source_allowed source"
  shows "state_io_rel (world_rel W) (reflectToMirror c source p)"
proof -
  note fr = frame_world_rel [OF assms(1)] and reads = io_world_reads [OF assms(1)]
  note prims = io_world_prims [OF assms(1)]
  have clk: "state_io_rel (world_rel W) (time_Now c)" "state_io_rel (world_rel W) (time_Since c start)" for start
    unfolding time_Since_def time_Now_def by (intro io_bind [OF fr] io_return [OF fr] reads)+
  have rd: "state_io_rel (world_rel W) (read_source_data c source)"
    unfolding read_source_data_def GetSecret_def GetConfigMap_def
    by (intro io_if io_bind [OF fr] io_return [OF fr] reads)
  have rf: "state_io_rel (world_rel W) (service_Reflect c source p)"
    by (rule io_world_Reflect [OF assms(1)])
  have permitted: "fst x = None \<longrightarrow> CanReflectToNamespace source (mirror_namespace (snd x))"
    if "x = fst (run_state (service_Reflect c source p) s)" for x s
    using that service_Reflect_result by blast
  show ?thesis
    unfolding reflectToMirror_def
  proof (intro io_bind [OF fr clk(1)] io_bind [OF fr prims(3)])
    fix m start
    let ?Q = "\<lambda>r. \<forall>dat st. r = Inr (dat, st) \<longrightarrow> source_answer c source dat st"
    let ?P = "\<lambda>x. fst x = None \<longrightarrow> CanReflectToNamespace source (mirror_namespace (snd x))"
    show "state_io_rel (world_rel W) (do {
       r \<leftarrow> read_source_data c source;
       case r of
         Inl err \<Rightarrow> do {
           record_metrics (RecordReflectionError (source_namespace source) (source_name source) (mirror_namespace m) ''source_not_found'');
           return (Some err) }
       | Inr (sourceData, sourceSecretType) \<Rightarrow> do {
           (err, mirror) \<leftarrow> service_Reflect c source p;
           case err of
             Some e \<Rightarrow> do {
               record_metrics (RecordReflectionError (source_namespace source) (source_name source) (mirror_namespace m)
                                 ''reflection_validation_failed'');
               return (Some e) }
           | None \<Rightarrow> do {
               err2 \<leftarrow> updateMirrorData c source mirror sourceData sourceSecretType;
               case err2 of
                 Some e \<Rightarrow> do {
                   record_metrics (RecordReflectionError (source_namespace source) (source_name source) (mirror_namespace m)
                                     ''update_failed'');
                   return (Some e) }
               | None \<Rightarrow> do {
                   d \<leftarrow> time_Since c start;
                   now \<leftarrow> time_Now c;
                   record_metrics (RecordReflectionSuccess now (source_namespace source) (source_name source)
                                     (mirror_namespace m) d);
                   return None } } } })"
      by (intro io_bind_post [where Q = ?Q, OF fr rd] io_case_sum io_bind [OF fr prims(1)] io_return [OF fr]
          io_case_prod io_bind_post [where Q = ?P, OF fr rf] io_case_option io_bind [OF fr] clk
          io_updateMirrorData [OF assms])
        (auto simp: read_source_data_answer permitted)
  qed
qed

lemma io_world_create [frame_rules]:
  assumes "reads_keep W c"
  shows "state_io_rel (world_rel W) (MirrorStore_Create p)" "state_io_rel (world_rel W) (MirrorStore_Delete i)"
    "state_io_rel (world_rel W) (MirrorStore_Get ns n)" "state_io_rel (world_rel W) (GetBySourceID c sid)"
    "state_io_rel (world_rel W) (NamespaceLister_List c)" "state_io_rel (world_rel W) (GetSecret c ns n)"
    "state_io_rel (world_rel W) (GetConfigMap c ns n)" "state_io_rel (world_rel W) (RegisterMirror p)"
    "state_io_rel (world_rel W) (UnregisterMirror i)" "state_io_rel (world_rel W) (ListByNamespace c ns)"
    "state_io_rel (world_rel W) (time_Now c)" "state_io_rel (world_rel W) (time_Since c t)"
  unfolding MirrorStore_Create_def RegisterMirror_def adapter_ops
  by (intro io_bind [OF frame_world_rel [OF assms]] io_return [OF frame_world_rel [OF assms]]
      io_world_reads [OF assms] io_world_prims [OF assms]; simp)+

lemma io_world_createAutoMirror:
  assumes "reads_keep W c"
  shows "state_io_rel (world_rel W) (createAutoMirrorIfNotExists c source ns)"
proof -
  note fr = frame_world_rel [OF assms]
  have "state_io_rel (world_rel W) (checkForConflicts c source ns)"
    unfolding checkForConflicts_def
    by (intro io_if io_bind [OF fr] io_case_sum io_return [OF fr] io_world_create [OF assms])
  then show ?thesis
    unfolding createAutoMirrorIfNotExists_def
    by (intro io_if io_bind [OF fr] io_case_sum io_case_option io_return [OF fr]
        io_world_create [OF assms] io_world_prims [OF assms])
qed

lemma io_world_handleAutoMirrors:
  assumes "reads_keep W c"
  shows "state_io_rel (world_rel W) (handleAutoMirrors c source)"
  unfolding handleAutoMirrors_def
  by (intro io_if io_bind [OF frame_world_rel [OF assms]] io_case_sum io_return [OF frame_world_rel [OF assms]]
      io_for_each [OF frame_world_rel [OF assms]] io_world_create [OF assms] io_world_createAutoMirror [OF assms])

lemma io_world_cleanup:
  assumes "reads_keep W c"
  shows "state_io_rel (world_rel W) (cleanupAutoMirrorsWhenDisabled c source)"
    "state_io_rel (world_rel W) (cleanupAutoMirrorsWhenNoLongerAllowed c source)"
  unfolding cleanupAutoMirrorsWhenDisabled_def cleanupAutoMirrorsWhenNoLongerAllowed_def
  by (intro io_if io_bind [OF frame_world_rel [OF assms]] io_case_sum io_return [OF frame_world_rel [OF assms]]
      io_for_each [OF frame_world_rel [OF assms]] io_world_create [OF assms] io_world_prims [OF assms])+

lemma io_Execute:
  assumes "reads_keep W c" "gets_requested c" "permitted_writes_keep W c source"
  shows "state_io_rel (world_rel W) (ReflectResources_Execute c source)"
  unfolding ReflectResources_Execute_def
  using frame_world_rel [OF assms(1)] assms
  by (intro io_case_option io_if io_bind io_return io_case_sum io_for_each io_world_handleAutoMirrors
      io_world_cleanup io_world_create(4) io_reflectToMirror) auto

section \<open>The store during a replication\<close>

text \<open>The loop that removes the mirrors with a property.\<close>

lemma run_removal_loop:
  "run_state (for_each ps (\<lambda>p. do { m \<leftarrow> deref p; if P m then MirrorStore_Delete (mirror_id m) else return None })) s =
     ((), fold store_remove (map (\<lambda>p. mirror_id (heap s ! p)) (filter (\<lambda>p. P (heap s ! p)) ps)) s)"
  by (induction ps arbitrary: s) (auto simp: MirrorStore_Delete_def Let_def store_remove_def)

lemma store_remove_sel [simp]:
  "heap (store_remove i s) = heap s" "metrics (store_remove i s) = metrics s"
  "stored (store_remove i s) = (stored s)(i := None)"
  by (auto simp: store_remove_def stored_def map_of_delete)

lemma fold_store_remove [simp]:
  "world (fold store_remove is s) = world s" "heap (fold store_remove is s) = heap s"
  "dispatcher (fold store_remove is s) = dispatcher s"
  "stored (fold store_remove is s) i = (if i \<in> set is then None else stored s i)"
  "wf_store s \<Longrightarrow> wf_store (fold store_remove is s)"
  by (induction "is" arbitrary: s) (auto simp: wf_store_remove)

lemma stored_world [simp]: "stored (s\<lparr>world := w\<rparr>) = stored s" "stored (s\<lparr>metrics := ms\<rparr>) = stored s"
  by (simp_all add: stored_def fun_eq_iff)

lemma stored_iff:
  "wf_store s \<Longrightarrow> stored s i = Some m \<longleftrightarrow> (\<exists>p. (i, p) \<in> set (mirrors s) \<and> heap s ! p = m)"
  by (auto simp: stored_def wf_store_def dest: map_of_SomeD)

lemma stored_id: "wf_store s \<Longrightarrow> stored s i = Some m \<Longrightarrow> mirror_id m = i"
  by (auto simp: stored_iff wf_store_entry)

text \<open>Removing the mirrors of a source that have a property.\<close>

lemma removal_by_source:
  assumes "wf_store s"
  shows "\<exists>w ids. snd (run_state (do { r \<leftarrow> GetBySourceID c sid;
        case r of Inl _ \<Rightarrow> return ()
        | Inr ps \<Rightarrow> for_each ps (\<lambda>p. do { m \<leftarrow> deref p; if P m then MirrorStore_Delete (mirror_id m) else return None }) }) s) =
      fold store_remove ids (s\<lparr>world := w\<rparr>) \<and>
      (\<forall>i. i \<in> set ids \<longleftrightarrow> (\<exists>m. stored s i = Some m \<and> mirror_sourceID m = sid \<and> P m))"
proof -
  obtain ps w where run: "run_state (GetBySourceID c sid) s = (Inr ps, s\<lparr>world := w\<rparr>)"
    and ps: "set ps = {p. \<exists>i. (i, p) \<in> set (mirrors s) \<and> mirror_sourceID (heap s ! p) = sid}"
    using GetBySourceID_run [of c sid s] by blast
  let ?ids = "map (\<lambda>p. mirror_id (heap s ! p)) (filter (\<lambda>p. P (heap s ! p)) ps)"
  have own: "(j, p) \<in> set (mirrors s) \<Longrightarrow> mirror_id (heap s ! p) = j" for j p
    by (rule wf_store_entry(2) [OF assms])
  have "i \<in> set ?ids \<longleftrightarrow> (\<exists>m. stored s i = Some m \<and> mirror_sourceID m = sid \<and> P m)" for i
  proof -
    have "i \<in> set ?ids \<longleftrightarrow> (\<exists>p j. (j, p) \<in> set (mirrors s) \<and> mirror_sourceID (heap s ! p) = sid \<and> P (heap s ! p) \<and>
        i = mirror_id (heap s ! p))"
      unfolding set_map set_filter ps image_iff by blast
    also have "\<dots> \<longleftrightarrow> (\<exists>m. stored s i = Some m \<and> mirror_sourceID m = sid \<and> P m)"
      unfolding stored_iff [OF assms] using own by blast
    finally show ?thesis .
  qed
  then show ?thesis
    by (intro exI [of _ w] exI [of _ ?ids]) (simp add: run run_removal_loop)
qed

lemma cleanup_stored:
  assumes "wf_store s" and "s' = snd (run_state (cleanupAutoMirrorsWhenNoLongerAllowed c source) s)"
  shows "wf_store s'" "heap s' = heap s" "dispatcher s' = dispatcher s"
    "stored s' i = (case stored s i of None \<Rightarrow> None | Some m \<Rightarrow>
       if mirror_sourceID m = source_id source \<and> \<not> CanAutoMirrorToNamespace source (mirror_namespace m)
       then None else Some m)"
  using removal_by_source [OF assms(1), of c "source_id source" "\<lambda>m. \<not> CanAutoMirrorToNamespace source (mirror_namespace m)"]
    assms unfolding cleanupAutoMirrorsWhenNoLongerAllowed_def
  by (auto split: option.splits)

lemma cleanup_disabled_stored:
  assumes "wf_store s" and "s' = snd (run_state (cleanupAutoMirrorsWhenDisabled c source) s)"
  shows "wf_store s'" "stored s' i = (case stored s i of None \<Rightarrow> None | Some m \<Rightarrow>
       if mirror_sourceID m = source_id source then None else Some m)"
  using removal_by_source [OF assms(1), of c "source_id source" "\<lambda>_. True", unfolded if_True]
    assms unfolding cleanupAutoMirrorsWhenDisabled_def
  by (auto split: option.splits)

lemma GetBySourceID_stored:
  assumes "wf_store s"
  shows "\<exists>ps w. run_state (GetBySourceID c sid) s = (Inr ps, s\<lparr>world := w\<rparr>) \<and>
     set ps = {p. \<exists>i. map_of (mirrors s) i = Some p \<and> mirror_sourceID (heap s ! p) = sid}"
  using GetBySourceID_run [of c sid s] assms by (auto simp: wf_store_def)

text \<open>The last loop of a replication changes nothing in the store but versions.\<close>

definition store_view :: "'w sys \<Rightarrow> (MirrorID \<times> nat) list \<times> Mirror list" where
  "store_view s = (mirrors s, map (Mirror_SetVersion '''') (heap s))"

lemma list_update_SetVersion:
  "map (Mirror_SetVersion '''') (h[p := Mirror_SetVersion v (h ! p)]) = map (Mirror_SetVersion '''') h"
  by (cases "p < length h") (simp_all add: map_update list_update_same_conv list_update_beyond Mirror_SetVersion_def)

lemma service_Reflect_heap:
  "\<exists>v. heap (snd (run_state (service_Reflect c source p) s)) = (heap s)[p := Mirror_SetVersion v (heap s ! p)]"
  using Reflect_mirror [of "clock c" "Dispatch (dispatcher s)" source "heap s ! p" "world s"]
  by (auto simp: service_Reflect_def Let_def case_prod_beta)

lemma io_view_Reflect: "state_io_rel (same store_view) (service_Reflect c source p)"
  unfolding state_io_rel_def
proof
  fix s
  obtain v where "heap (snd (run_state (service_Reflect c source p) s)) = (heap s)[p := Mirror_SetVersion v (heap s ! p)]"
    using service_Reflect_heap by blast
  then show "same store_view s (snd (run_state (service_Reflect c source p) s))"
    by (simp add: same_def store_view_def list_update_SetVersion) (simp add: service_Reflect_def Let_def case_prod_beta)
qed

lemma io_wf_Reflect [frame_rules]: "state_io_rel (keeps wf_store) (service_Reflect c source p)"
  unfolding state_io_rel_def
proof
  fix s
  obtain v where "heap (snd (run_state (service_Reflect c source p) s)) = (heap s)[p := Mirror_SetVersion v (heap s ! p)]"
    using service_Reflect_heap by blast
  moreover have "mirrors (snd (run_state (service_Reflect c source p) s)) = mirrors s"
    by (simp add: service_Reflect_def Let_def case_prod_beta)
  ultimately show "keeps wf_store s (snd (run_state (service_Reflect c source p) s))"
    by (auto simp: keeps_def wf_store_def wf_entry_cong(2))
qed

lemma io_view_prims:
  "state_io_rel (same store_view) (api call)" "state_io_rel (same store_view) (record_metrics ops)"
  "state_io_rel (same store_view) (deref p)" "state_io_rel (same store_view) (get_sys f)"
  by (auto intro!: io_prims simp: same_def store_view_def)

lemma io_view_updateMirrorData: "state_io_rel (same store_view) (updateMirrorData c source m dat st)"
  unfolding updateMirrorData_def Let_def adapter_ops
  by (intro io_if io_bind io_return io_case_sum io_view_prims frame_same)

lemma io_view_reflectToMirror: "state_io_rel (same store_view) (reflectToMirror c source p)"
  unfolding reflectToMirror_def read_source_data_def adapter_ops
  by (intro io_if io_bind io_return io_case_sum io_case_prod io_case_option io_view_prims io_view_Reflect
      io_view_updateMirrorData frame_same)

lemma io_wf_updateMirrorData [frame_rules]: "state_io_rel (keeps wf_store) (updateMirrorData c source m dat st)"
  unfolding updateMirrorData_def Let_def adapter_ops
  by (intro io_if io_bind io_return io_case_sum io_wf_prims frame_keeps)

lemma io_wf_reflectToMirror [frame_rules]: "state_io_rel (keeps wf_store) (reflectToMirror c source p)"
  unfolding reflectToMirror_def read_source_data_def adapter_ops
  by (intro io_if io_bind io_return io_case_sum io_case_prod io_case_option io_wf_prims io_wf_Reflect
      io_wf_updateMirrorData frame_keeps)

lemma io_wf_adapters [frame_rules]:
  "state_io_rel (keeps wf_store) (MirrorStore_Delete i)" "state_io_rel (keeps wf_store) (MirrorStore_Get ns n)"
  "state_io_rel (keeps wf_store) (GetBySourceID c sid)" "state_io_rel (keeps wf_store) (NamespaceLister_List c)"
  "state_io_rel (keeps wf_store) (GetSecret c ns n)" "state_io_rel (keeps wf_store) (GetConfigMap c ns n)"
  "state_io_rel (keeps wf_store) (UnregisterMirror i)" "state_io_rel (keeps wf_store) (ListByNamespace c ns)"
  "state_io_rel (keeps wf_store) (time_Now c)" "state_io_rel (keeps wf_store) (time_Since c t)"
  "state_io_rel (keeps wf_store) (DeleteSecret c ns n)" "state_io_rel (keeps wf_store) (DeleteConfigMap c ns n)"
  unfolding adapter_ops
  by (intro io_if io_bind io_return io_case_sum io_wf_prims frame_keeps; simp add: wf_store_remove)+

lemma io_wf_createAutoMirror: "state_io_rel (keeps wf_store) (createAutoMirrorIfNotExists c source ns)"
proof -
  have "state_io_rel (keeps wf_store) (checkForConflicts c source ns)"
    unfolding checkForConflicts_def by (intro io_if io_bind io_return io_case_sum io_wf_adapters frame_keeps)
  then show ?thesis
    unfolding createAutoMirrorIfNotExists_def
    by (intro io_bind [OF frame_keeps] io_if io_return io_case_sum io_case_option io_wf_adapters frame_keeps
        io_wf_create io_wf_prims) auto
qed

lemma io_wf_handleAutoMirrors: "state_io_rel (keeps wf_store) (handleAutoMirrors c source)"
  unfolding handleAutoMirrors_def
  by (intro io_if io_bind io_return io_case_sum io_for_each io_wf_adapters io_wf_createAutoMirror frame_keeps)

lemma io_wf_Execute [frame_rules]: "state_io_rel (keeps wf_store) (ReflectResources_Execute c source)"
  unfolding ReflectResources_Execute_def cleanupAutoMirrorsWhenDisabled_def cleanupAutoMirrorsWhenNoLongerAllowed_def
  by (intro io_if io_bind io_return io_case_sum io_case_option io_for_each io_wf_handleAutoMirrors io_wf_adapters
      io_wf_prims(4) io_wf_reflectToMirror frame_keeps)

section \<open>Properties\<close>

lemma NonDeleting_reads [simp]:
  "reads_keep W (NonDeletingClient c) = reads_keep W c" "gets_requested (NonDeletingClient c) = gets_requested c"
  "clock (NonDeletingClient c) = clock c" "map_order (NonDeletingClient c) = map_order c"
  by (simp_all add: NonDeletingClient_def reads_keep_def gets_requested_def)

text \<open>The log of the example cluster grows by entries with a property only.\<close>

definition log_grows :: "(string \<times> string \<Rightarrow> bool) \<Rightarrow> cluster \<Rightarrow> cluster \<Rightarrow> bool" where
  "log_grows P w w' \<longleftrightarrow> (\<forall>k \<in> set (cl_log w'). k \<in> set (cl_log w) \<or> P k)"

lemma frame_log_grows: "reflp (log_grows P)" "transp (log_grows P)"
  by (auto simp: reflp_def transp_def log_grows_def)

lemma cluster_hyps [simp]:
  "reads_keep (log_grows P) cluster_client" "gets_requested cluster_client"
  "handlers_keep (log_grows P) NewInMemoryDispatcher"
  using frame_log_grows
  by (auto simp: reads_keep_def cluster_client_def gets_requested_def not_found_def handlers_keep_def log_grows_def
      split: option.splits)

lemma log_grows_nothing: "cl_log w = [] \<Longrightarrow> log_grows (\<lambda>_. False) w w' \<longleftrightarrow> cl_log w' = []"
  by (cases "cl_log w'") (auto simp: log_grows_def)

lemma empty_cluster_log [simp]: "cl_log empty_cluster = []"
  by (simp add: empty_cluster_def)

lemma cluster_permitted [simp]:
  "permitted_writes_keep (log_grows (\<lambda>k. CanReflectToNamespace source (fst k))) cluster_client source"
  by (auto simp: permitted_writes_keep_def permitted_secret_def permitted_configmap_def permitted_meta_def
      cluster_client_def put_secret_def put_configmap_def log_grows_def)

text \<open>The source of the examples: a Secret \<open>prod/db\<close> at version 7, for all namespaces.\<close>

definition example_source :: Source where
  "example_source = SetAllowedNamespaces (AllowedNamespaces_zero\<lparr>isAll := True\<rparr>)
     (SetAutoEnabled True (SetAllowed True (Source_SetVersion ''7'' (NewSource ''prod'' ''db'' ResourceTypeSecret))))"

text \<open>C1. Replication stays within its permission. Whatever the API answers and whatever the state,
  every Secret and ConfigMap that a replication writes lies in a namespace that the source's replicate-to
  set contains, carries the source's identity and version in its annotations, and holds data that the API
  returned for the source; nothing else is written, and nothing is deleted. (Stated for every preorder
  \<open>W\<close> on worlds that reads, event handlers and such permitted writes respect.)\<close>

theorem replication_within_permission:
  assumes "reads_keep W c" and "gets_requested c" and "handlers_keep W (dispatcher s)"
    and "permitted_writes_keep W c source"
  shows "W (world s) (world (snd (run_state (ReflectResources_Execute c source) s)))"
  using io_run [OF io_Execute [OF assms(1,2,4)], of s] assms(3) by (simp add: world_rel_def)

theorem replication_within_permission_witness:
  "log_grows (\<lambda>k. CanReflectToNamespace example_source (fst k)) empty_cluster
     (world (snd (run_state (ReflectResources_Execute cluster_client example_source) (started empty_cluster))))"
  using replication_within_permission [of _ cluster_client "started empty_cluster" example_source,
      OF cluster_hyps(1,2) _ cluster_permitted]
  by simp

text \<open>C17. A source without permission writes nothing: when its replicate-to set contains no namespace
  (which is the case for a source that has the annotation auto-replicate-to but not replicate-to), a
  replication makes no write at all, whichever mirrors its auto-replicate-to set makes it register.\<close>

theorem no_permission_no_write:
  assumes "reads_keep W c" and "gets_requested c" and "handlers_keep W (dispatcher s)"
    and "\<forall>ns. \<not> CanReflectToNamespace source ns"
  shows "W (world s) (world (snd (run_state (ReflectResources_Execute c source) s)))"
proof -
  have "permitted_writes_keep W c source"
    using assms(4)
    by (simp add: permitted_writes_keep_def permitted_secret_def permitted_configmap_def permitted_meta_def)
  from io_run [OF io_Execute [OF assms(1,2) this], of s] assms(3) show ?thesis
    by (simp add: world_rel_def)
qed

theorem no_permission_no_write_witness:
  "(let source = SetAutoNamespaces (AllowedNamespaces_zero\<lparr>isAll := True\<rparr>)
          (SetAutoEnabled True (SetAllowed True (Source_SetVersion ''7'' (NewSource ''prod'' ''db'' ResourceTypeSecret))))
    in CanAutoMirrorToNamespace source ''dev'' \<and>
       cl_log (world (snd (run_state (ReflectResources_Execute cluster_client source) (started empty_cluster)))) = [])"
proof -
  let ?s = "SetAutoNamespaces (AllowedNamespaces_zero\<lparr>isAll := True\<rparr>)
      (SetAutoEnabled True (SetAllowed True (Source_SetVersion ''7'' (NewSource ''prod'' ''db'' ResourceTypeSecret))))"
  have "\<forall>ns. \<not> CanReflectToNamespace ?s ns"
    by (simp add: CanReflectToNamespace_def record_defs)
  then have "log_grows (\<lambda>_. False) (world (started empty_cluster))
      (world (snd (run_state (ReflectResources_Execute cluster_client ?s) (started empty_cluster))))"
    using no_permission_no_write [of _ cluster_client "started empty_cluster" ?s, OF cluster_hyps(1,2)] by simp
  then have "cl_log (world (snd (run_state (ReflectResources_Execute cluster_client ?s) (started empty_cluster)))) = []"
    by (simp add: log_grows_nothing)
  moreover have "CanAutoMirrorToNamespace ?s ''dev''"
    by (simp add: CanAutoMirrorToNamespace_def record_defs IsEmpty_def Matches_def)
  ultimately show ?thesis
    by (simp add: Let_def)
qed

lemma Execute_run_manual:
  assumes "wf_store s" "ValidateSource (Some source) = None" "source_allowed source" "\<not> source_autoEnabled source"
  shows "\<exists>w s'. s' = snd (run_state (cleanupAutoMirrorsWhenNoLongerAllowed c source) s) \<and>
     run_state (ReflectResources_Execute c source) s = (None, s'\<lparr>world := w\<rparr>) \<and>
     w = world (snd (run_state (GetBySourceID c (source_id source)) s'))"
proof -
  let ?s' = "snd (run_state (cleanupAutoMirrorsWhenNoLongerAllowed c source) s)"
  have no: "\<not> CanAutoMirrorToNamespace source ns" for ns
    using assms(4) CanAutoMirror_allowed by blast
  obtain ps w where run: "run_state (GetBySourceID c (source_id source)) ?s' = (Inr ps, ?s'\<lparr>world := w\<rparr>)"
    and ps: "set ps = {p. \<exists>i. map_of (mirrors ?s') i = Some p \<and> mirror_sourceID (heap ?s' ! p) = source_id source}"
    using GetBySourceID_stored [OF cleanup_stored(1) [OF assms(1) refl], of c "source_id source" c source] by blast
  have "\<not> (map_of (mirrors ?s') i = Some p \<and> mirror_sourceID (heap ?s' ! p) = source_id source)" for i p
    using cleanup_stored(4) [OF assms(1) refl, of c source i] no
    by (auto simp: stored_def [of ?s'] split: option.splits if_splits)
  then have "set ps = {}"
    unfolding ps by blast
  then have "ps = []"
    by simp
  then show ?thesis
    using assms run
    by (intro exI [of _ w] exI [of _ ?s']) (simp add: ReflectResources_Execute_def case_prod_beta Let_def)
qed

text \<open>C21. Manual mirrors are dropped, not replicated: for an allowed source without auto-replicate, a
  replication removes every mirror of the source from the store, writes nothing to the cluster, and
  reports success. The mirrors registered for annotated replicas of such a source are therefore never
  filled.\<close>

theorem manual_mirrors_dropped:
  assumes "wf_store s" and "ValidateSource (Some source) = None"
    and "source_allowed source" and "\<not> source_autoEnabled source"
    and "reads_keep W c"
  shows "(let (r, s') = run_state (ReflectResources_Execute c source) s in
     r = None \<and> (handlers_keep W (dispatcher s) \<longrightarrow> W (world s) (world s')) \<and>
     (\<forall>i. stored s' i = (case stored s i of None \<Rightarrow> None | Some m \<Rightarrow>
        if mirror_sourceID m = source_id source then None else Some m)))"
proof -
  let ?s' = "snd (run_state (cleanupAutoMirrorsWhenNoLongerAllowed c source) s)"
  obtain w where run: "run_state (ReflectResources_Execute c source) s = (None, ?s'\<lparr>world := w\<rparr>)"
    and w: "w = world (snd (run_state (GetBySourceID c (source_id source)) ?s'))"
    using Execute_run_manual [OF assms(1-4), of c] by blast
  have no: "\<not> CanAutoMirrorToNamespace source ns" for ns
    using assms(4) CanAutoMirror_allowed by blast
  have "world_rel W s ?s'" "world_rel W ?s' (snd (run_state (GetBySourceID c (source_id source)) ?s'))"
    using io_run [OF io_world_cleanup(2) [OF assms(5)]] io_run [OF io_world_create(4) [OF assms(5)]] by blast+
  then have "handlers_keep W (dispatcher s) \<longrightarrow> W (world s) w"
    using assms(5) unfolding w world_rel_def reads_keep_def transp_def by metis
  moreover have "stored (?s'\<lparr>world := w\<rparr>) i = (case stored s i of None \<Rightarrow> None | Some m \<Rightarrow>
        if mirror_sourceID m = source_id source then None else Some m)" for i
    using cleanup_stored(4) [OF assms(1) refl, of c source i] no by (simp split: option.splits)
  ultimately show ?thesis
    by (simp add: run)
qed

theorem manual_mirrors_dropped_witness:
  "(let source = SetAllowedNamespaces (AllowedNamespaces_zero\<lparr>isAll := True\<rparr>)
          (SetAllowed True (Source_SetVersion ''7'' (NewSource ''prod'' ''db'' ResourceTypeSecret)));
        s = snd (run_state (CreateMirror_Execute (source_id source) ''dev'' ''db'' ResourceTypeSecret) (started empty_cluster));
        s' = snd (run_state (ReflectResources_Execute cluster_client source) s)
    in stored s (NewMirrorID ''dev'' ''db'') \<noteq> None \<and> stored s' (NewMirrorID ''dev'' ''db'') = None \<and> cl_log (world s') = [])"
proof -
  let ?source = "SetAllowedNamespaces (AllowedNamespaces_zero\<lparr>isAll := True\<rparr>)
      (SetAllowed True (Source_SetVersion ''7'' (NewSource ''prod'' ''db'' ResourceTypeSecret)))"
  let ?s = "snd (run_state (CreateMirror_Execute (source_id ?source) ''dev'' ''db'' ResourceTypeSecret) (started empty_cluster))"
  have "wf_store (started empty_cluster)"
    by (simp add: wf_store_def)
  then have "wf_store ?s"
    unfolding CreateMirror_Execute_def by (rule io_keepsD [OF io_wf_create_last, rotated]) simp
  moreover have "ValidateSource (Some ?source) = None" "source_allowed ?source" "\<not> source_autoEnabled ?source"
    by (simp_all add: ValidateSource_def record_defs)
  ultimately have "(let (r, s') = run_state (ReflectResources_Execute cluster_client ?source) ?s in
     r = None \<and> (handlers_keep (log_grows (\<lambda>_. False)) (dispatcher ?s) \<longrightarrow> log_grows (\<lambda>_. False) (world ?s) (world s')) \<and>
     (\<forall>i. stored s' i = (case stored ?s i of None \<Rightarrow> None | Some m \<Rightarrow>
        if mirror_sourceID m = source_id ?source then None else Some m)))"
    using cluster_hyps(1) by (rule manual_mirrors_dropped)
  moreover have "world ?s = empty_cluster" "dispatcher ?s = NewInMemoryDispatcher"
    "stored ?s (NewMirrorID ''dev'' ''db'') =
       Some (NewMirror (NewMirrorID ''dev'' ''db'') (source_id ?source) ''dev'' ''db'' ResourceTypeSecret)"
    by (simp_all add: CreateMirror_Execute_def MirrorStore_Create_def Let_def stored_def store_put_def record_defs NewMirrorID_def)
  ultimately show ?thesis
    by (simp add: Let_def case_prod_beta log_grows_nothing NewMirror_def)
qed

lemma io_wf_usecases [frame_rules]:
  "state_io_rel (keeps wf_store) (HandleSourceDeletion_Execute c del sid rt)"
  "state_io_rel (keeps wf_store) (CreateMirror_Execute sid ns n rt)"
  "state_io_rel (keeps wf_store) (DeleteMirror_Execute c del i rt)"
proof -
  show "state_io_rel (keeps wf_store) (HandleSourceDeletion_Execute c del sid rt)"
    "state_io_rel (keeps wf_store) (DeleteMirror_Execute c del i rt)"
    unfolding HandleSourceDeletion_Execute_def DeleteMirror_Execute_def delete_object_def
    by (intro io_if io_bind io_return io_case_sum io_for_each io_wf_adapters io_wf_prims(4) frame_keeps)+
  show "state_io_rel (keeps wf_store) (CreateMirror_Execute sid ns n rt)"
    unfolding CreateMirror_Execute_def by (rule io_wf_create_last) simp
qed

text \<open>The mirror store stays well formed: keys distinct, every pointer allocated, every mirror
  stored under its own identity, whatever the client does, through each of the four use cases.\<close>

theorem usecases_keep_store:
  assumes "wf_store s"
  shows "wf_store (snd (run_state (ReflectResources_Execute c source) s)) \<and>
         wf_store (snd (run_state (HandleSourceDeletion_Execute c del sid rt) s)) \<and>
         wf_store (snd (run_state (CreateMirror_Execute sid ns n rt) s)) \<and>
         wf_store (snd (run_state (DeleteMirror_Execute c del i rt) s))"
  using assms io_keepsD [OF io_wf_Execute] io_keepsD [OF io_wf_usecases(1)] io_keepsD [OF io_wf_usecases(2)]
    io_keepsD [OF io_wf_usecases(3)]
  by blast

theorem usecases_keep_store_witness:
  "wf_store (snd (run_state (ReflectResources_Execute cluster_client example_source) (started empty_cluster)))"
  using usecases_keep_store [of "started empty_cluster"] by (simp add: wf_store_def)

lemma SetVersion_eqD:
  "Mirror_SetVersion v m = Mirror_SetVersion v m' \<Longrightarrow>
   mirror_id m = mirror_id m' \<and> mirror_namespace m = mirror_namespace m' \<and> mirror_name m = mirror_name m' \<and>
   mirror_sourceID m = mirror_sourceID m' \<and> mirror_isAutoCreated m = mirror_isAutoCreated m'"
  by (cases m; cases m') (simp add: Mirror_SetVersion_def)

lemma stored_view:
  "store_view t = store_view s \<Longrightarrow> wf_store s \<Longrightarrow> wf_store t \<Longrightarrow>
   map_option (Mirror_SetVersion '''') (stored t i) = map_option (Mirror_SetVersion '''') (stored s i)"
proof -
  assume view: "store_view t = store_view s" and wf: "wf_store s" "wf_store t"
  then have eq: "mirrors t = mirrors s" "map (Mirror_SetVersion '''') (heap t) = map (Mirror_SetVersion '''') (heap s)"
    by (simp_all add: store_view_def)
  then have "length (heap t) = length (heap s)"
    by (metis length_map)
  with eq(2) have "Mirror_SetVersion '''' (heap t ! p) = Mirror_SetVersion '''' (heap s ! p)" if "p < length (heap s)" for p
    using that by (metis nth_map)
  moreover have "map_of (mirrors s) i = Some p \<Longrightarrow> p < length (heap s)" for p
    using wf_store_entry(1) [OF wf(1)] by (auto dest: map_of_SomeD)
  ultimately show ?thesis
    by (cases "map_of (mirrors s) i") (auto simp: stored_def eq(1))
qed

text \<open>C22. After a successful replication of an allowed source, every mirror of that source left in the
  store lies in a namespace the source may auto-replicate to.\<close>

theorem replication_leaves_allowed_mirrors:
  assumes "wf_store s" and "source_allowed source"
    and "run_state (ReflectResources_Execute c source) s = (None, s')"
    and "stored s' i = Some m" and "mirror_sourceID m = source_id source"
  shows "CanAutoMirrorToNamespace source (mirror_namespace m)"
proof -
  obtain t where t: "wf_store t" and view: "store_view s' = store_view (snd (run_state (cleanupAutoMirrorsWhenNoLongerAllowed c source) t))"
  proof -
    let ?auto = "if source_autoEnabled source then handleAutoMirrors c source else return None"
    let ?t = "snd (run_state ?auto s)"
    let ?u = "snd (run_state (cleanupAutoMirrorsWhenNoLongerAllowed c source) ?t)"
    have "state_io_rel (keeps wf_store) ?auto"
      by (intro io_if io_wf_handleAutoMirrors io_return frame_keeps)
    then have wf: "wf_store ?t"
      using assms(1) by (rule io_keepsD)
    have ok: "ValidateSource (Some source) = None" "fst (run_state ?auto s) = None"
      using assms(2,3) by (auto simp: ReflectResources_Execute_def Let_def case_prod_beta split: option.splits)
    obtain ps w where lst: "run_state (GetBySourceID c (source_id source)) ?u = (Inr ps, ?u\<lparr>world := w\<rparr>)"
      using GetBySourceID_run [of c "source_id source" ?u] by blast
    have "s' = snd (run_state (for_each ps (reflectToMirror c source)) (?u\<lparr>world := w\<rparr>))"
      using assms(2,3) ok lst by (simp add: ReflectResources_Execute_def Let_def case_prod_beta)
    moreover have "store_view (snd (run_state (for_each ps (reflectToMirror c source)) (?u\<lparr>world := w\<rparr>))) = store_view (?u\<lparr>world := w\<rparr>)"
      by (rule io_sameD [OF io_for_each]) (auto intro: io_view_reflectToMirror)
    ultimately show ?thesis
      using that [OF wf] by (simp add: store_view_def)
  qed
  let ?u = "snd (run_state (cleanupAutoMirrorsWhenNoLongerAllowed c source) t)"
  have "wf_store s'"
    using io_keepsD [OF io_wf_Execute assms(1), of c source] assms(3) by simp
  with stored_view [OF view cleanup_stored(1) [OF t refl], of i] assms(4)
  have "map_option (Mirror_SetVersion []) (stored ?u i) = Some (Mirror_SetVersion [] m)"
    by simp
  then obtain m' where m': "stored ?u i = Some m'" "Mirror_SetVersion '''' m' = Mirror_SetVersion '''' m"
    by auto
  then have "mirror_namespace m' = mirror_namespace m" "mirror_sourceID m' = mirror_sourceID m"
    by (auto dest: SetVersion_eqD)
  then show ?thesis
    using cleanup_stored(4) [OF t refl, of c source i] m'(1) assms(5) by (auto split: option.splits if_splits)
qed

theorem replication_leaves_allowed_mirrors_witness:
  "(let s' = snd (run_state (ReflectResources_Execute cluster_client example_source) (started empty_cluster))
    in map_option mirror_namespace (stored s' (NewMirrorID ''dev'' ''db'')) = Some ''dev'' \<and>
       CanAutoMirrorToNamespace example_source ''dev'')"
proof -
  let ?s' = "snd (run_state (ReflectResources_Execute cluster_client example_source) (started empty_cluster))"
  have mirror: "map_option (\<lambda>m. (mirror_namespace m, mirror_sourceID m)) (stored ?s' (NewMirrorID ''dev'' ''db'')) =
      Some (''dev'', NewSourceID ''prod'' ''db'')"
    and ok: "fst (run_state (ReflectResources_Execute cluster_client example_source) (started empty_cluster)) = None"
    by code_simp+
  then obtain m where m: "stored ?s' (NewMirrorID ''dev'' ''db'') = Some m" "mirror_namespace m = ''dev''"
      "mirror_sourceID m = source_id example_source"
    by (auto simp: example_source_def record_defs)
  moreover have "wf_store (started empty_cluster)" "source_allowed example_source"
    by (simp_all add: wf_store_def example_source_def record_defs)
  moreover have "run_state (ReflectResources_Execute cluster_client example_source) (started empty_cluster) = (None, ?s')"
    using ok by (metis prod.collapse)
  ultimately have "CanAutoMirrorToNamespace example_source (mirror_namespace m)"
    using replication_leaves_allowed_mirrors by blast
  with m show ?thesis
    by simp
qed

text \<open>Operations that change the world only.\<close>

definition world_only :: "'w sys \<Rightarrow> 'w sys \<Rightarrow> bool" where
  "world_only s t \<longleftrightarrow> (\<exists>w. t = s\<lparr>world := w\<rparr>)"

lemma frame_world_only [simp, intro]: "frame (world_only :: 'w sys \<Rightarrow> 'w sys \<Rightarrow> bool)"
proof -
  have "s = s\<lparr>world := world s\<rparr>" for s :: "'w sys"
    by simp
  then have "reflp (world_only :: 'w sys \<Rightarrow> 'w sys \<Rightarrow> bool)"
    unfolding reflp_def world_only_def by blast
  then show ?thesis
    by (auto simp: frame_def transp_def world_only_def)
qed

lemma io_world_only: "state_io_rel world_only (api call)"
  by (auto simp: state_io_rel_def world_only_def)

lemma io_world_only_delete: "state_io_rel world_only (delete_object c rt ns n)"
  unfolding delete_object_def DeleteSecret_def DeleteConfigMap_def
  by (intro io_if io_bind io_case_sum io_return io_world_only frame_world_only)

lemma store_remove_world_update [simp]:
  "store_remove i (t\<lparr>world := w\<rparr>) = (store_remove i t)\<lparr>world := w\<rparr>"
  "fold store_remove is (t\<lparr>world := w\<rparr>) = (fold store_remove is t)\<lparr>world := w\<rparr>"
proof -
  show one: "store_remove i (t\<lparr>world := w\<rparr>) = (store_remove i t)\<lparr>world := w\<rparr>" for i and t :: "'a sys"
    by (simp add: store_remove_def)
  show "fold store_remove is (t\<lparr>world := w\<rparr>) = (fold store_remove is t)\<lparr>world := w\<rparr>"
    by (induction "is" arbitrary: t) (simp_all add: one)
qed

lemma run_deletion_loop:
  "\<exists>w. snd (run_state (for_each ps (\<lambda>p. do {
           m \<leftarrow> deref p;
           (if del then delete_object c rt (mirror_namespace m) (mirror_name m) else return None);
           MirrorStore_Delete (mirror_id m) })) s) =
      (fold store_remove (map (\<lambda>p. mirror_id (heap s ! p)) ps) s)\<lparr>world := w\<rparr>"
proof (induction ps arbitrary: s)
  case Nil
  then show ?case by (auto intro!: exI [of _ "world s"])
next
  case (Cons p ps)
  let ?op = "if del then delete_object c rt (mirror_namespace (heap s ! p)) (mirror_name (heap s ! p)) else return None"
  have "state_io_rel world_only ?op"
    by (intro io_if io_return io_world_only_delete frame_world_only)
  then obtain w where run: "snd (run_state ?op s) = s\<lparr>world := w\<rparr>"
    unfolding state_io_rel_def world_only_def by blast
  show ?case
  proof (cases del)
    case True
    then show ?thesis
      using Cons.IH [of "store_remove (mirror_id (heap s ! p)) (s\<lparr>world := w\<rparr>)"] run
      by (auto simp: MirrorStore_Delete_def Let_def case_prod_beta)
  next
    case False
    then show ?thesis
      using Cons.IH [of "store_remove (mirror_id (heap s ! p)) s"]
      by (auto simp: MirrorStore_Delete_def Let_def)
  qed
qed

text \<open>C23. Handling the deletion of a source removes exactly its mirrors from the store, for every
  setting of delete-orphaned, every resource type and every behaviour of the client, and never fails.\<close>

theorem source_deletion_removes_mirrors:
  assumes "wf_store s"
  shows "(let (r, s') = run_state (HandleSourceDeletion_Execute c del sid rt) s in
     r = None \<and> (\<forall>i. stored s' i = (case stored s i of None \<Rightarrow> None | Some m \<Rightarrow>
       if mirror_sourceID m = sid then None else Some m)))"
proof -
  obtain ps w where lst: "run_state (GetBySourceID c sid) s = (Inr ps, s\<lparr>world := w\<rparr>)"
    and ps: "set ps = {p. \<exists>i. (i, p) \<in> set (mirrors s) \<and> mirror_sourceID (heap s ! p) = sid}"
    using GetBySourceID_run [of c sid s] by blast
  let ?ids = "map (\<lambda>p. mirror_id (heap s ! p)) ps"
  obtain w' where s': "snd (run_state (HandleSourceDeletion_Execute c del sid rt) s) = (fold store_remove ?ids s)\<lparr>world := w'\<rparr>"
    using run_deletion_loop [of ps del c rt "s\<lparr>world := w\<rparr>"]
    by (auto simp: HandleSourceDeletion_Execute_def lst Let_def case_prod_beta)
  have own: "(j, p) \<in> set (mirrors s) \<Longrightarrow> mirror_id (heap s ! p) = j" for j p
    by (rule wf_store_entry(2) [OF assms])
  have "i \<in> set ?ids \<longleftrightarrow> (\<exists>m. stored s i = Some m \<and> mirror_sourceID m = sid)" for i
    unfolding stored_iff [OF assms] set_map ps image_iff using own by blast
  then have "stored (snd (run_state (HandleSourceDeletion_Execute c del sid rt) s)) i =
      (case stored s i of None \<Rightarrow> None | Some m \<Rightarrow> if mirror_sourceID m = sid then None else Some m)" for i
    unfolding s' by (auto simp del: set_map split: option.splits)
  moreover have "fst (run_state (HandleSourceDeletion_Execute c del sid rt) s) = None"
    by (simp add: HandleSourceDeletion_Execute_def lst Let_def case_prod_beta)
  ultimately show ?thesis
    by (simp add: case_prod_beta)
qed

theorem source_deletion_removes_mirrors_witness:
  "(let s = snd (run_state (CreateMirror_Execute (NewSourceID ''prod'' ''db'') ''dev'' ''db'' ResourceTypeSecret) (started empty_cluster));
        s' = snd (run_state (HandleSourceDeletion_Execute cluster_client True (NewSourceID ''prod'' ''db'') ResourceTypeSecret) s)
    in stored s (NewMirrorID ''dev'' ''db'') \<noteq> None \<and> stored s' (NewMirrorID ''dev'' ''db'') = None)"
proof -
  let ?s = "snd (run_state (CreateMirror_Execute (NewSourceID ''prod'' ''db'') ''dev'' ''db'' ResourceTypeSecret) (started empty_cluster))"
  have "wf_store (started empty_cluster)"
    by (simp add: wf_store_def)
  then have "wf_store ?s"
    by (rule io_keepsD [OF io_wf_usecases(2)])
  moreover have "stored ?s (NewMirrorID ''dev'' ''db'') =
      Some (NewMirror (NewMirrorID ''dev'' ''db'') (NewSourceID ''prod'' ''db'') ''dev'' ''db'' ResourceTypeSecret)"
    by (simp add: CreateMirror_Execute_def MirrorStore_Create_def Let_def stored_def store_put_def record_defs NewMirrorID_def)
  ultimately show ?thesis
    using source_deletion_removes_mirrors [of ?s cluster_client True "NewSourceID ''prod'' ''db''" ResourceTypeSecret]
    by (simp add: Let_def case_prod_beta record_defs)
qed

lemma io_world_nondeleting:
  assumes "reads_keep W c"
  shows "state_io_rel (world_rel W) (delete_object (NonDeletingClient c) rt ns n)"
proof -
  have keep: "reads_keep W (NonDeletingClient c)"
    using assms by simp
  have "W w w" for w
    using assms by (simp add: reads_keep_def reflp_def)
  then have "state_io_rel (world_rel W) (api (delete_secret (NonDeletingClient c) sec))"
    "state_io_rel (world_rel W) (api (delete_configmap (NonDeletingClient c) cm))" for sec cm
    by (auto intro!: io_world_api simp: NonDeletingClient_def)
  then show ?thesis
    unfolding delete_object_def DeleteSecret_def DeleteConfigMap_def
    by (intro io_if io_bind io_case_sum io_return io_world_reads [OF keep] frame_world_rel [OF keep])
qed

text \<open>Orphaned objects are never deleted: with the client that main.go gives every component, the two
  use cases that delete mirrors only read from the cluster, also when deleting orphans is switched on.\<close>

theorem orphans_never_deleted:
  assumes "reads_keep W c" and "handlers_keep W (dispatcher s)"
  shows "W (world s) (world (snd (run_state (HandleSourceDeletion_Execute (NonDeletingClient c) del sid rt) s))) \<and>
         W (world s) (world (snd (run_state (DeleteMirror_Execute (NonDeletingClient c) del i rt) s)))"
proof -
  have keep: "reads_keep W (NonDeletingClient c)"
    using assms(1) by simp
  have "state_io_rel (world_rel W) (HandleSourceDeletion_Execute (NonDeletingClient c) del sid rt)"
    "state_io_rel (world_rel W) (DeleteMirror_Execute (NonDeletingClient c) del i rt)"
    unfolding HandleSourceDeletion_Execute_def DeleteMirror_Execute_def
    by (intro io_if io_bind io_case_sum io_return io_for_each io_world_nondeleting [OF assms(1)]
        io_world_create [OF keep] io_world_prims [OF keep] frame_world_rel [OF keep])+
  from this [THEN io_run, of s] assms(2) show ?thesis
    by (simp add: world_rel_def)
qed

theorem orphans_never_deleted_witness:
  "(let w = empty_cluster\<lparr>cl_secrets := [(''dev'', ''db'') \<mapsto> new_Secret ''db'' ''dev'' Map.empty Map.empty ''Opaque'']\<rparr>
    in cl_secrets (world (snd (run_state
         (DeleteMirror_Execute (NonDeletingClient cluster_client) True (NewMirrorID ''dev'' ''db'') ResourceTypeSecret) (started w)))) =
       cl_secrets w)"
proof -
  let ?W = "\<lambda>w w' :: cluster. cl_secrets w' = cl_secrets w"
  let ?w = "empty_cluster\<lparr>cl_secrets := [(''dev'', ''db'') \<mapsto> new_Secret ''db'' ''dev'' Map.empty Map.empty ''Opaque'']\<rparr>"
  have "reads_keep ?W cluster_client" "handlers_keep ?W (dispatcher (started ?w))"
    by (auto simp: reads_keep_def cluster_client_def reflp_def transp_def handlers_keep_def)
  from orphans_never_deleted [OF this] show ?thesis
    by (simp add: Let_def)
qed

text \<open>C24. How a mirrored ConfigMap is filled: every entry of the source ends up in exactly one of
  \<open>Data\<close> and \<open>BinaryData\<close>, unchanged, and nothing is added; an entry is text exactly when all its
  bytes are printable ASCII. A text entry of the source with a line break therefore becomes binary in the
  mirror.\<close>

theorem configmap_entries_partition:
  "text_entries dat ++ binary_entries dat = dat \<and> dom (text_entries dat) \<inter> dom (binary_entries dat) = {} \<and>
   (text_entries dat k = Some v \<longleftrightarrow>
      dat k = Some v \<and> list_all (\<lambda>b. 32 \<le> (of_char b :: nat) \<and> of_char b \<le> (126 :: nat)) v) \<and>
   text_entries (dat(k \<mapsto> x @ [CHR 0x0A] @ y)) k = None \<and>
   binary_entries (dat(k \<mapsto> x @ [CHR 0x0A] @ y)) k = Some (x @ [CHR 0x0A] @ y)"
proof -
  have "text_entries dat ++ binary_entries dat = dat"
    by (rule ext) (auto simp: text_entries_def binary_entries_def map_add_def split: option.splits)
  moreover have "text_entries dat i = None \<or> binary_entries dat i = None" for i
    by (auto simp: text_entries_def binary_entries_def split: option.splits)
  then have "dom (text_entries dat) \<inter> dom (binary_entries dat) = {}"
    unfolding dom_def by (simp add: set_eq_iff)
  moreover have "isPrintable z = list_all (\<lambda>b. 32 \<le> (of_char b :: nat) \<and> of_char b \<le> (126 :: nat)) z" for z
    by (auto simp: isPrintable_def list_all_iff)
  moreover have "text_entries dat k = Some v \<longleftrightarrow> dat k = Some v \<and> isPrintable v"
    by (cases v) (auto simp: text_entries_def isPrintable_def split: option.splits if_splits)
  ultimately show ?thesis
    by (simp add: text_entries_def binary_entries_def)
qed

section \<open>What the use cases leave alone\<close>

text \<open>The dispatcher, the caches and the watch session.\<close>

definition shared :: "'w sys \<Rightarrow> 'w InMemoryDispatcher \<times> Cache \<times> PropertiesCache \<times> MirrorCache \<times> session_hook SessionManager" where
  "shared s = (dispatcher s, notFoundCache s, propertiesCache s, mirrorCache s, sessionManager s)"

lemma shared_updates [simp]:
  "shared (s\<lparr>world := w\<rparr>) = shared s" "shared (s\<lparr>metrics := ops\<rparr>) = shared s" "shared (s\<lparr>heap := h\<rparr>) = shared s"
  "shared (store_put i p s) = shared s" "shared (store_remove i s) = shared s"
  by (simp_all add: shared_def store_put_def store_remove_def)

lemma io_shared_prims:
  "state_io_rel (same shared) (api call)" "state_io_rel (same shared) (record_metrics ops)"
  "state_io_rel (same shared) (alloc m)" "state_io_rel (same shared) (deref p)" "state_io_rel (same shared) (get_sys f)"
  "state_io_rel (same shared) (modify_sys (store_put i p))" "state_io_rel (same shared) (modify_sys (store_remove i))"
  "state_io_rel (same shared) (service_Reflect c source q)"
  by (auto intro!: io_prims simp: same_def)
    (simp add: state_io_rel_def same_def service_Reflect_def Let_def case_prod_beta)

lemma io_shared_adapters:
  "state_io_rel (same shared) (MirrorStore_Create p)" "state_io_rel (same shared) (MirrorStore_Delete i)"
  "state_io_rel (same shared) (MirrorStore_Get ns n)" "state_io_rel (same shared) (GetBySourceID c sid)"
  "state_io_rel (same shared) (NamespaceLister_List c)" "state_io_rel (same shared) (GetSecret c ns n)"
  "state_io_rel (same shared) (GetConfigMap c ns n)" "state_io_rel (same shared) (RegisterMirror p)"
  "state_io_rel (same shared) (UnregisterMirror i)" "state_io_rel (same shared) (ListByNamespace c ns)"
  "state_io_rel (same shared) (time_Now c)" "state_io_rel (same shared) (time_Since c t)"
  "state_io_rel (same shared) (DeleteSecret c ns n)" "state_io_rel (same shared) (DeleteConfigMap c ns n)"
  "state_io_rel (same shared) (CreateSecret c sec)" "state_io_rel (same shared) (UpdateSecret c sec)"
  "state_io_rel (same shared) (CreateConfigMap c cm)" "state_io_rel (same shared) (UpdateConfigMap c cm)"
  unfolding MirrorStore_Create_def RegisterMirror_def adapter_ops
  by (intro io_if io_bind io_return io_case_sum io_shared_prims frame_same)+

lemma io_shared_Execute: "state_io_rel (same shared) (ReflectResources_Execute c source)"
  unfolding ReflectResources_Execute_def cleanupAutoMirrorsWhenDisabled_def cleanupAutoMirrorsWhenNoLongerAllowed_def
    handleAutoMirrors_def createAutoMirrorIfNotExists_def checkForConflicts_def reflectToMirror_def read_source_data_def
    updateMirrorData_def Let_def
  by (intro io_if io_bind io_return io_case_sum io_case_option io_case_prod io_for_each io_shared_adapters io_shared_prims
      frame_same)

lemma io_shared_DeleteMirror: "state_io_rel (same shared) (DeleteMirror_Execute c del i rt)"
  unfolding DeleteMirror_Execute_def delete_object_def
  by (intro io_if io_bind io_return io_shared_adapters frame_same)

lemma Execute_dispatcher: "dispatcher (snd (run_state (ReflectResources_Execute c source) s)) = dispatcher s"
  using io_sameD [OF io_shared_Execute, of c source s] by (simp add: shared_def)

end
