(* ===== verification/Controllers.thy ===== *)
theory Controllers
  imports Usecases
begin

text \<open>
  Package \<open>controllers\<close> (internal/controllers/controllers.go): the reconcilers for sources, mirrors,
  namespaces and certificates and the two event predicates. A reconciler receives the namespace and name
  of an object that changed, reads the object through the client and drives the use cases. The
  \<open>reconcile.Result\<close> it returns is always the zero value, so its model returns the error only.
\<close>

section \<open>Shared\<close>

definition getResultLabel :: "go_error option \<Rightarrow> string" where
  "getResultLabel err = (case err of Some _ \<Rightarrow> ''error'' | None \<Rightarrow> ''success'')"

text \<open>The frame of every \<open>Reconcile\<close>: \<open>start := time.Now()\<close> and the deferred call that records
  the duration. The body returns the value of \<open>reconcileErr\<close> with its result.\<close>

definition timed :: "'w client \<Rightarrow> string \<Rightarrow> ('w sys, go_error option \<times> 'a) state \<Rightarrow> ('w sys, 'a) state" where
  "timed c controller body = do {
     start \<leftarrow> time_Now c;
     (reconcileErr, result) \<leftarrow> body;
     d \<leftarrow> time_Since c start;
     record_metrics (RecordReconciliationDuration controller (getResultLabel reconcileErr) d);
     return result }"

text \<open>The operations of the shared caches as steps of the program. \<open>cacheKey\<close> is the
  \<open>fmt.Sprintf\<close> of a namespace and a name.\<close>

definition cacheKey :: "string \<Rightarrow> string \<Rightarrow> string" where
  "cacheKey namespace name = namespace @ ''/'' @ name"

definition notFoundCache_IsNotFound :: "'w client \<Rightarrow> string \<Rightarrow> ('w sys, bool) state" where
  "notFoundCache_IsNotFound c key = do {
     now \<leftarrow> time_Now c;
     nf \<leftarrow> get_sys notFoundCache;
     let (found, ops) = NotFoundCache_IsNotFound now key nf;
     record_metrics ops;
     return found }"

definition notFoundCache_MarkNotFound :: "'w client \<Rightarrow> string \<Rightarrow> ('w sys, unit) state" where
  "notFoundCache_MarkNotFound c key = do {
     now \<leftarrow> time_Now c;
     nf \<leftarrow> get_sys notFoundCache;
     let (nf', ops) = MarkNotFound now key nf;
     modify_sys (\<lambda>s. s\<lparr>notFoundCache := nf'\<rparr>);
     record_metrics ops }"

definition notFoundCache_MarkFound :: "string \<Rightarrow> ('w sys, unit) state" where
  "notFoundCache_MarkFound key = do {
     nf \<leftarrow> get_sys notFoundCache;
     let (nf', ops) = MarkFound key nf;
     modify_sys (\<lambda>s. s\<lparr>notFoundCache := nf'\<rparr>);
     record_metrics ops }"

definition mirrorCache_Set :: "string \<Rightarrow> MirrorEntry \<Rightarrow> ('w sys, unit) state" where
  "mirrorCache_Set key e = modify_sys (\<lambda>s. s\<lparr>mirrorCache := MirrorCache_Set key e (mirrorCache s)\<rparr>)"

definition mirrorCache_Clear :: "('w sys, unit) state" where
  "mirrorCache_Clear = modify_sys (\<lambda>s. s\<lparr>mirrorCache := MirrorCache_Clear (mirrorCache s)\<rparr>)"

definition mirrorCache_DeleteByNamespace :: "'w client \<Rightarrow> string \<Rightarrow> ('w sys, string list) state" where
  "mirrorCache_DeleteByNamespace c namespace = do {
     rank \<leftarrow> api (map_order c);
     mc \<leftarrow> get_sys mirrorCache;
     let (deleted, mc') = DeleteByNamespace (\<lambda>key. rank ('''', key)) namespace mc;
     modify_sys (\<lambda>s. s\<lparr>mirrorCache := mc'\<rparr>);
     return deleted }"

section \<open>SourceReconciler\<close>

definition SourceReconciler_secretToSource :: "Secret \<Rightarrow> Source option" where
  "SourceReconciler_secretToSource secret =
     (case Annotations secret of
        None \<Rightarrow> None
      | Some _ \<Rightarrow>
          if annotation secret AnnotationReplicationAllowed \<noteq> ''true'' then None
          else
            let source = NewSource (Namespace secret) (Name secret) ResourceTypeSecret;
                source1 = read_allowed_namespaces secret source;
                source2 = read_auto_enabled secret source1;
                source3 = read_auto_namespaces secret source2;
                source4 = SetAllowed True source3
            in Some (Source_SetVersion (ResourceVersion secret) source4))"

definition SourceReconciler_configMapToSource :: "ConfigMap \<Rightarrow> Source option" where
  "SourceReconciler_configMapToSource cm =
     (case Annotations cm of
        None \<Rightarrow> None
      | Some _ \<Rightarrow>
          if annotation cm AnnotationReplicationAllowed \<noteq> ''true'' then None
          else
            let source = NewSource (Namespace cm) (Name cm) ResourceTypeConfigMap;
                source1 = read_allowed_namespaces cm source;
                source2 = read_auto_enabled cm source1;
                source3 = read_auto_namespaces cm source2;
                source4 = SetAllowed True source3
            in Some (Source_SetVersion (ResourceVersion cm) source4))"

definition SourceReconciler_fetchSource :: "'w client \<Rightarrow> string \<Rightarrow> string \<Rightarrow> ('w sys, go_error + Source option) state" where
  "SourceReconciler_fetchSource c namespace name = do {
     r \<leftarrow> api (get_secret c namespace name);
     case r of
       Inr secret \<Rightarrow>
         if IsHelmSecret secret then return (Inr None)
         else return (Inr (SourceReconciler_secretToSource secret))
     | Inl err \<Rightarrow>
         if \<not> IsNotFound err then return (Inl (Wrapped ''failed to get secret'' err))
         else do {
           r2 \<leftarrow> api (get_configmap c namespace name);
           case r2 of
             Inr cm \<Rightarrow>
               if IsHelmConfigMap cm then return (Inr None)
               else return (Inr (SourceReconciler_configMapToSource cm))
           | Inl err2 \<Rightarrow>
               if \<not> IsNotFound err2 then return (Inl (Wrapped ''failed to get configmap'' err2))
               else return (Inl (ApiNotFound name)) } }"

definition SourceReconciler_Reconcile :: "'w client \<Rightarrow> string \<Rightarrow> string \<Rightarrow> ('w sys, go_error option) state" where
  "SourceReconciler_Reconcile c namespace name = timed c ''source'' (do {
     skip \<leftarrow> notFoundCache_IsNotFound c (cacheKey namespace name);
     if skip then return (None, None)
     else do {
       r \<leftarrow> SourceReconciler_fetchSource c namespace name;
       case r of
         Inl err \<Rightarrow>
           if IsNotFound err then do {
             notFoundCache_MarkNotFound c (cacheKey namespace name);
             return (None, None) }
           else return (Some err, Some (Wrapped ''failed to fetch source'' err))
       | Inr None \<Rightarrow> do {
           notFoundCache_MarkNotFound c (cacheKey namespace name);
           return (None, None) }
       | Inr (Some source) \<Rightarrow> do {
           notFoundCache_MarkFound (cacheKey namespace name);
           err \<leftarrow> ReflectResources_Execute c source;
           case err of
             Some e \<Rightarrow> return (Some e, Some (Wrapped ''failed to replicate'' e))
           | None \<Rightarrow> return (None, None) } } })"

section \<open>Predicates\<close>

text \<open>An object handed to a predicate; the two helper functions also accept nil.\<close>

definition hasReplicationAnnotation :: "'a k8s_object_scheme option \<Rightarrow> bool" where
  "hasReplicationAnnotation x \<longleftrightarrow>
     (case x of
        None \<Rightarrow> False
      | Some obj \<Rightarrow>
          (case Annotations obj of
             None \<Rightarrow> False
           | Some a \<Rightarrow> (case a AnnotationReplicationAllowed of None \<Rightarrow> False | Some v \<Rightarrow> v = ''true'')))"

definition SourcePredicate_Create :: "'a k8s_object_scheme option \<Rightarrow> bool" where
  "SourcePredicate_Create obj = hasReplicationAnnotation obj"

definition SourcePredicate_Update ::
  "'a k8s_object_scheme option \<Rightarrow> 'a k8s_object_scheme \<Rightarrow> ('w sys, bool) state"
where
  "SourcePredicate_Update objOld objNew = do {
     notFoundCache_MarkFound (cacheKey (Namespace objNew) (Name objNew));
     return (hasReplicationAnnotation (Some objNew) \<or> hasReplicationAnnotation objOld) }"

definition SourcePredicate_Delete :: "'a k8s_object_scheme \<Rightarrow> ('w sys, bool) state" where
  "SourcePredicate_Delete obj = do {
     notFoundCache_MarkFound (cacheKey (Namespace obj) (Name obj));
     return (hasReplicationAnnotation (Some obj)) }"

definition SourcePredicate_Generic :: "'a k8s_object_scheme option \<Rightarrow> bool" where
  "SourcePredicate_Generic obj = hasReplicationAnnotation obj"

definition hasReflectsAnnotation :: "'a k8s_object_scheme option \<Rightarrow> bool" where
  "hasReflectsAnnotation x \<longleftrightarrow>
     (case x of
        None \<Rightarrow> False
      | Some obj \<Rightarrow>
          (case Annotations obj of
             None \<Rightarrow> False
           | Some a \<Rightarrow> (case a AnnotationReflects of None \<Rightarrow> False | Some reflects \<Rightarrow> reflects \<noteq> '''')))"

definition MirrorPredicate_Create :: "'a k8s_object_scheme option \<Rightarrow> bool" where
  "MirrorPredicate_Create obj = hasReflectsAnnotation obj"

definition MirrorPredicate_Update :: "'a k8s_object_scheme option \<Rightarrow> bool" where
  "MirrorPredicate_Update objNew = hasReflectsAnnotation objNew"

definition MirrorPredicate_Delete :: "'a k8s_object_scheme option \<Rightarrow> bool" where
  "MirrorPredicate_Delete obj = hasReflectsAnnotation obj"

definition MirrorPredicate_Generic :: "'a k8s_object_scheme option \<Rightarrow> bool" where
  "MirrorPredicate_Generic obj = hasReflectsAnnotation obj"

section \<open>MirrorReconciler\<close>

text \<open>The mirror reconciler has its own readers of a source; they do not read auto-replicate-to.\<close>

definition MirrorReconciler_secretToSource :: "Secret \<Rightarrow> Source option" where
  "MirrorReconciler_secretToSource secret =
     (case Annotations secret of
        None \<Rightarrow> None
      | Some _ \<Rightarrow>
          if annotation secret AnnotationReplicationAllowed \<noteq> ''true'' then None
          else
            let source = NewSource (Namespace secret) (Name secret) ResourceTypeSecret;
                source1 = read_allowed_namespaces secret source;
                source2 = read_auto_enabled secret source1;
                source3 = SetAllowed True source2
            in Some (Source_SetVersion (ResourceVersion secret) source3))"

definition MirrorReconciler_configMapToSource :: "ConfigMap \<Rightarrow> Source option" where
  "MirrorReconciler_configMapToSource cm =
     (case Annotations cm of
        None \<Rightarrow> None
      | Some _ \<Rightarrow>
          if IsHelmConfigMap cm then None
          else if annotation cm AnnotationReplicationAllowed \<noteq> ''true'' then None
          else
            let source = NewSource (Namespace cm) (Name cm) ResourceTypeConfigMap;
                source1 = read_allowed_namespaces cm source;
                source2 = read_auto_enabled cm source1;
                source3 = SetAllowed True source2
            in Some (Source_SetVersion (ResourceVersion cm) source3))"

definition MirrorReconciler_fetchMirror :: "'w client \<Rightarrow> string \<Rightarrow> string \<Rightarrow> ('w sys, go_error + Secret option) state" where
  "MirrorReconciler_fetchMirror c namespace name = do {
     r \<leftarrow> api (get_secret c namespace name);
     case r of
       Inr secret \<Rightarrow>
         if IsHelmSecret secret then return (Inr None)
         else if Annotations secret \<noteq> None \<and> annotation secret AnnotationReflects \<noteq> '''' then return (Inr (Some secret))
         else return (Inr None)
     | Inl err \<Rightarrow>
         if \<not> IsNotFound err then return (Inl err)
         else do {
           r2 \<leftarrow> api (get_configmap c namespace name);
           case r2 of
             Inr cm \<Rightarrow>
               if IsHelmConfigMap cm then return (Inr None)
               else if Annotations cm \<noteq> None \<and> annotation cm AnnotationReflects \<noteq> ''''
               then return (Inl (ErrorText ''configmap cannot be used as mirror target''))
               else return (Inr None)
           | Inl _ \<Rightarrow> return (Inl (ApiNotFound name)) } }"

definition MirrorReconciler_fetchSource :: "'w client \<Rightarrow> string \<Rightarrow> string \<Rightarrow> ('w sys, go_error + Source option) state" where
  "MirrorReconciler_fetchSource c namespace name = do {
     r \<leftarrow> api (get_secret c namespace name);
     case r of
       Inr secret \<Rightarrow>
         if IsHelmSecret secret then return (Inr None)
         else return (Inr (MirrorReconciler_secretToSource secret))
     | Inl err \<Rightarrow>
         if \<not> IsNotFound err then return (Inl err)
         else do {
           r2 \<leftarrow> api (get_configmap c namespace name);
           case r2 of
             Inr cm \<Rightarrow> return (Inr (MirrorReconciler_configMapToSource cm))
           | Inl _ \<Rightarrow> return (Inl (ApiNotFound name)) } }"

definition deleteMirrorIfOrphaned :: "'w client \<Rightarrow> bool \<Rightarrow> string \<Rightarrow> string \<Rightarrow> ('w sys, go_error option) state" where
  "deleteMirrorIfOrphaned c deleteOrphaned namespace name =
     DeleteMirror_Execute c deleteOrphaned (NewMirrorID namespace name) ResourceTypeSecret"

definition MirrorReconciler_splitReflectsAnnotation :: "string \<Rightarrow> string list" where
  "MirrorReconciler_splitReflectsAnnotation value = split_back (length value) value"

text \<open>Building the mirror for an annotated object and entering it in the store and in the cache.\<close>

definition observed_mirror :: "Secret \<Rightarrow> MirrorID \<Rightarrow> SourceID \<Rightarrow> string \<Rightarrow> string \<Rightarrow> ResourceType \<Rightarrow> bool \<Rightarrow> Mirror" where
  "observed_mirror obj mirrorID sourceID namespace name resourceType isAuto =
     (let mirror = Mirror_SetAutoCreated isAuto (NewMirror mirrorID sourceID namespace name resourceType);
          reflectedAt = annotation obj AnnotationReflectedAt
      in if reflectedAt \<noteq> '''' then Mirror_SetReflectedAt reflectedAt mirror else mirror)"

definition register_mirror :: "'w client \<Rightarrow> Mirror \<Rightarrow> MirrorID \<Rightarrow> SourceID \<Rightarrow> bool \<Rightarrow> ('w sys, unit) state" where
  "register_mirror c mirror mirrorID sourceID isAuto = do {
     p \<leftarrow> alloc mirror;
     RegisterMirror p;
     created \<leftarrow> time_Now c;
     synced \<leftarrow> time_Now c;
     mirrorCache_Set (MirrorID_String mirrorID)
       \<lparr>entryMirrorID = MirrorID_String mirrorID, entrySourceID = SourceID_String sourceID, entryIsAuto = isAuto,
        entryCreatedAt = created, entryLastSyncAt = synced\<rparr> }"

definition MirrorReconciler_Reconcile :: "'w client \<Rightarrow> bool \<Rightarrow> string \<Rightarrow> string \<Rightarrow> ('w sys, go_error option) state" where
  "MirrorReconciler_Reconcile c deleteOrphaned namespace name = timed c ''mirror'' (do {
     r \<leftarrow> MirrorReconciler_fetchMirror c namespace name;
     case r of
       Inl err \<Rightarrow>
         if IsNotFound err then return (None, None)
         else return (Some err, Some (Wrapped ''failed to fetch mirror'' err))
     | Inr None \<Rightarrow> return (None, None)
     | Inr (Some obj) \<Rightarrow> (
         let parts = MirrorReconciler_splitReflectsAnnotation (annotation obj AnnotationReflects)
         in if length parts \<noteq> 2 then return (None, None)
         else do {
           let isAuto = (annotation obj AnnotationAutoReflects = ''true'');
           let sourceID = NewSourceID (parts ! 0) (parts ! 1);
           let mirrorID = NewMirrorID namespace name;
           src \<leftarrow> MirrorReconciler_fetchSource c (parts ! 0) (parts ! 1);
           case src of
             Inl err \<Rightarrow> return (Some err, None)
           | Inr None \<Rightarrow>
               if isAuto then do {
                 register_mirror c (observed_mirror obj mirrorID sourceID namespace name ResourceTypeSecret True)
                   mirrorID sourceID True;
                 return (None, None) }
               else do {
                 err \<leftarrow> deleteMirrorIfOrphaned c deleteOrphaned namespace name;
                 case err of
                   Some e \<Rightarrow> return (Some e, Some e)
                 | None \<Rightarrow> return (None, None) }
           | Inr (Some source) \<Rightarrow> do {
               register_mirror c (observed_mirror obj mirrorID sourceID namespace name (source_resourceType source) isAuto)
                 mirrorID sourceID isAuto;
               lst \<leftarrow> GetBySourceID c sourceID;
               for_each (case lst of Inl _ \<Rightarrow> [] | Inr ps \<Rightarrow> ps) (\<lambda>_. ReflectResources_Execute c source);
               return (None, None) } }) })"

section \<open>NamespaceReconciler\<close>

text \<open>Starting a session may panic in principle (closing a closed channel).\<close>

datatype outcome = Panic | Returns "go_error option"

definition sessionManager_IsSessionValid :: "'w client \<Rightarrow> ('w sys, bool) state" where
  "sessionManager_IsSessionValid c = do {
     now \<leftarrow> time_Now c;
     m \<leftarrow> get_sys sessionManager;
     return (IsSessionValid now m) }"

definition sessionManager_StartSession :: "'w client \<Rightarrow> ('w sys, bool) state" where
  "sessionManager_StartSession c = do {
     now \<leftarrow> time_Now c;
     m \<leftarrow> get_sys sessionManager;
     case StartSession now m of
       None \<Rightarrow> return False
     | Some m' \<Rightarrow> do { modify_sys (\<lambda>s. s\<lparr>sessionManager := m'\<rparr>); return True } }"

definition handleNamespaceDeletion :: "'w client \<Rightarrow> string \<Rightarrow> ('w sys, unit) state" where
  "handleNamespaceDeletion c namespace = do {
     mirrorCache_DeleteByNamespace c namespace;
     r \<leftarrow> ListByNamespace c namespace;
     for_each (case r of Inl _ \<Rightarrow> [] | Inr ps \<Rightarrow> ps) (\<lambda>p. do {
       mirror \<leftarrow> deref p;
       if mirror_isAutoCreated mirror then UnregisterMirror (mirror_id mirror) else return () }) }"

text \<open>The session manager that main.go passes is never nil. False stands for a panic of the restart.\<close>

definition restart_expired_session :: "'w client \<Rightarrow> ('w sys, bool) state" where
  "restart_expired_session c = do {
     valid \<leftarrow> sessionManager_IsSessionValid c;
     if valid then return True
     else do {
       mirrorCache_Clear;
       ok \<leftarrow> sessionManager_StartSession c;
       if ok then do { record_metrics RecordWatchSessionRestart; return True }
       else return False } }"

definition NamespaceReconciler_Reconcile :: "'w client \<Rightarrow> string \<Rightarrow> ('w sys, outcome) state" where
  "NamespaceReconciler_Reconcile c name = timed c ''namespace'' (do {
     ok \<leftarrow> restart_expired_session c;
     if \<not> ok then return (None, Panic)
     else do {
       r \<leftarrow> api (get_namespace c name);
       case r of
         Inl err \<Rightarrow>
           if IsNotFound err then do {
             handleNamespaceDeletion c name;
             return (None, Returns None) }
           else return (Some err, Returns (Some (Wrapped ''failed to get namespace'' err)))
       | Inr _ \<Rightarrow> return (None, Returns None) } })"

section \<open>CertificateReconciler\<close>

definition certificateSecretToSource :: "Secret \<Rightarrow> Source option" where
  "certificateSecretToSource secret =
     (case Annotations secret of
        None \<Rightarrow> None
      | Some _ \<Rightarrow>
          if annotation secret AnnotationReplicationAllowed \<noteq> ''true'' then None
          else
            let source = NewSource (Namespace secret) (Name secret) ResourceTypeSecret;
                source1 = read_allowed_namespaces secret source;
                source2 = read_auto_enabled secret source1;
                source3 = read_auto_namespaces secret source2;
                source4 = SetAllowed True source3
            in Some (Source_SetVersion (ResourceVersion secret) source4))"

definition CertificateReconciler_Reconcile :: "'w client \<Rightarrow> string \<Rightarrow> string \<Rightarrow> ('w sys, go_error option) state" where
  "CertificateReconciler_Reconcile c namespace name = timed c ''certificate'' (do {
     r \<leftarrow> api (get_certificate c namespace name);
     case r of
       Inl err \<Rightarrow>
         if IsNotFound err then return (None, None)
         else return (Some err, Some (Wrapped ''failed to get Certificate'' err))
     | Inr cert \<Rightarrow>
         if certSecretName cert = '''' then return (None, None)
         else do {
           r2 \<leftarrow> api (get_secret c namespace (certSecretName cert));
           case r2 of
             Inl err \<Rightarrow>
               if IsNotFound err then return (None, None)
               else return (Some err, Some (Wrapped ''failed to get Secret'' err))
           | Inr secret \<Rightarrow>
               (case certificateSecretToSource secret of
                  None \<Rightarrow> return (None, None)
                | Some source \<Rightarrow> do {
                    err \<leftarrow> ReflectResources_Execute c source;
                    case err of
                      Some e \<Rightarrow> return (Some e, Some (Wrapped ''failed to replicate'' e))
                    | None \<Rightarrow> return (None, None) }) } })"

section \<open>Interfaces provided\<close>

lemmas reader_defs = built_source_def [symmetric] built_source_of annotation_none Let_def

interpretation ctl_split: reflects_splitter MirrorReconciler_splitReflectsAnnotation
  using split_back_splitter by (simp add: MirrorReconciler_splitReflectsAnnotation_def [abs_def])

interpretation source_secret: source_reader SourceReconciler_secretToSource ResourceTypeSecret "\<lambda>_. True"
  "\<lambda>obj. annotation obj AnnotationReplicationAutoNamespaces"
  by unfold_locales (auto simp: SourceReconciler_secretToSource_def reader_defs split: option.splits)

interpretation source_configmap: source_reader SourceReconciler_configMapToSource ResourceTypeConfigMap "\<lambda>_. True"
  "\<lambda>obj. annotation obj AnnotationReplicationAutoNamespaces"
  by unfold_locales (auto simp: SourceReconciler_configMapToSource_def reader_defs split: option.splits)

interpretation certificate_secret: source_reader certificateSecretToSource ResourceTypeSecret "\<lambda>_. True"
  "\<lambda>obj. annotation obj AnnotationReplicationAutoNamespaces"
  by unfold_locales (auto simp: certificateSecretToSource_def reader_defs split: option.splits)

lemma built_source_manual:
  "Source_SetVersion (ResourceVersion obj) (SetAllowed True
     (read_auto_enabled obj (read_allowed_namespaces obj (NewSource (Namespace obj) (Name obj) rt)))) =
   source_of rt (annotated_namespaces '''') obj"
  using built_source_of(2) [of rt obj] by (simp add: built_source_def annotated_namespaces_def)

interpretation mirror_secret: source_reader MirrorReconciler_secretToSource ResourceTypeSecret "\<lambda>_. True" "\<lambda>_. ''''"
  by unfold_locales
    (auto simp: MirrorReconciler_secretToSource_def built_source_manual annotation_none Let_def split: option.splits)

interpretation mirror_configmap: source_reader MirrorReconciler_configMapToSource ResourceTypeConfigMap
  "\<lambda>cm. \<not> IsHelmConfigMap cm" "\<lambda>_. ''''"
  by unfold_locales
    (auto simp: MirrorReconciler_configMapToSource_def built_source_manual annotation_none Let_def split: option.splits)

section \<open>The program's invariant\<close>

text \<open>The mirror store and the caches are well formed, and the session manager is in a state that its own
  operations reach.\<close>

definition wf_sys :: "duration \<Rightarrow> 'w sys \<Rightarrow> bool" where
  "wf_sys timeout s \<longleftrightarrow> wf_store s \<and> wf_manager timeout (sessionManager s) \<and>
     distinct (map fst (mirrorCache s)) \<and> distinct (map fst (entries (notFoundCache s)))"

lemma io_wf_sys:
  "state_io_rel (keeps wf_store) m \<Longrightarrow> state_io_rel (same shared) m \<Longrightarrow> state_io_rel (keeps (wf_sys timeout)) m"
  unfolding state_io_rel_def keeps_def same_def wf_sys_def shared_def by (metis prod.inject)

lemma io_sys_caches:
  "state_io_rel (keeps (wf_sys timeout)) (notFoundCache_IsNotFound c key)"
  "state_io_rel (keeps (wf_sys timeout)) (notFoundCache_MarkNotFound c key)"
  "state_io_rel (keeps (wf_sys timeout)) (notFoundCache_MarkFound key)"
  "state_io_rel (keeps (wf_sys timeout)) (mirrorCache_Set key e)"
  "state_io_rel (keeps (wf_sys timeout)) mirrorCache_Clear"
  "state_io_rel (keeps (wf_sys timeout)) (mirrorCache_DeleteByNamespace c ns)"
  by (simp_all add: state_io_rel_def keeps_def wf_sys_def notFoundCache_IsNotFound_def notFoundCache_MarkNotFound_def
      notFoundCache_MarkFound_def mirrorCache_Set_def mirrorCache_Clear_def mirrorCache_DeleteByNamespace_def
      NotFoundCache_IsNotFound_def MarkNotFound_def MarkFound_def Cache_Set_def Cache_Delete_def time_Now_def Let_def
      mc.invar_put mc.invar_clear mc.invar_sweep [where q = "(_, _)", simplified] distinct_update distinct_delete case_prod_beta)

lemma io_sys_prims:
  "state_io_rel (keeps (wf_sys timeout)) (api call)" "state_io_rel (keeps (wf_sys timeout)) (record_metrics ops)"
  "state_io_rel (keeps (wf_sys timeout)) (deref p)" "state_io_rel (keeps (wf_sys timeout)) (get_sys f)"
  "state_io_rel (keeps (wf_sys timeout)) (time_Now c)" "state_io_rel (keeps (wf_sys timeout)) (time_Since c t)"
  "state_io_rel (keeps (wf_sys timeout)) (GetBySourceID c sid)" "state_io_rel (keeps (wf_sys timeout)) (UnregisterMirror i)"
  "state_io_rel (keeps (wf_sys timeout)) (ListByNamespace c ns)"
  "state_io_rel (keeps (wf_sys timeout)) (NamespaceLister_List c)"
  "state_io_rel (keeps (wf_sys timeout)) (ReflectResources_Execute c source)"
  "state_io_rel (keeps (wf_sys timeout)) (DeleteMirror_Execute c del j rt)"
  by (intro io_wf_sys io_wf_prims(1,2,4,5) io_wf_adapters io_wf_Execute io_wf_usecases io_shared_prims
      io_shared_adapters io_shared_Execute io_shared_DeleteMirror)+

lemma io_timed:
  "frame R \<Longrightarrow> (\<And>call. state_io_rel R (time_Now c)) \<Longrightarrow> (\<And>t. state_io_rel R (time_Since c t)) \<Longrightarrow>
   (\<And>ops. state_io_rel R (record_metrics ops)) \<Longrightarrow> state_io_rel R body \<Longrightarrow> state_io_rel R (timed c k body)"
  unfolding timed_def by (intro io_bind io_case_prod io_return)

lemma wf_observed_mirror [simp]: "wf_mirror (observed_mirror obj (NewMirrorID ns n) sid ns n rt isAuto)"
  by (simp add: observed_mirror_def Let_def)

lemma io_sys_register:
  assumes "wf_mirror m"
  shows "state_io_rel (keeps (wf_sys timeout)) (register_mirror c m i sid isAuto)"
proof -
  let ?reg = "do { p \<leftarrow> alloc m; RegisterMirror p; return () }"
  have "state_io_rel (keeps wf_store) ?reg"
    using assms by (intro io_wf_register io_return frame_keeps)
  moreover have "state_io_rel (same shared) ?reg"
    by (intro io_bind io_return io_shared_prims io_shared_adapters frame_same)
  ultimately have reg: "state_io_rel (keeps (wf_sys timeout)) ?reg"
    by (rule io_wf_sys)
  have steps: "register_mirror c m i sid isAuto = ?reg \<bind> (\<lambda>_. do {
     created \<leftarrow> time_Now c;
     synced \<leftarrow> time_Now c;
     mirrorCache_Set (MirrorID_String i)
       \<lparr>entryMirrorID = MirrorID_String i, entrySourceID = SourceID_String sid, entryIsAuto = isAuto,
        entryCreatedAt = created, entryLastSyncAt = synced\<rparr> })"
    by (simp add: register_mirror_def)
  show ?thesis
    unfolding steps by (intro io_bind [OF frame_keeps reg] io_bind frame_keeps io_sys_prims io_sys_caches)
qed

lemma io_sys_session:
  "state_io_rel (keeps (wf_sys timeout)) (sessionManager_IsSessionValid c)"
  "state_io_rel (keeps (wf_sys timeout)) (sessionManager_StartSession c)"
proof -
  show "state_io_rel (keeps (wf_sys timeout)) (sessionManager_IsSessionValid c)"
    unfolding sessionManager_IsSessionValid_def by (intro io_bind io_return io_sys_prims frame_keeps)
  have "wf_manager timeout m \<Longrightarrow> StartSession now m = Some m' \<Longrightarrow> wf_manager timeout m'" for now m and m' :: "session_hook SessionManager"
    by (auto simp: wf_manager_def session_defs Let_def split: option.splits if_splits)
  then show "state_io_rel (keeps (wf_sys timeout)) (sessionManager_StartSession c)"
    by (auto simp: sessionManager_StartSession_def state_io_rel_def keeps_def wf_sys_def time_Now_def split: option.splits)
qed

lemma io_sys_reconcilers:
  "state_io_rel (keeps (wf_sys timeout)) (SourceReconciler_Reconcile c ns n)"
  "state_io_rel (keeps (wf_sys timeout)) (MirrorReconciler_Reconcile c del ns n)"
  "state_io_rel (keeps (wf_sys timeout)) (NamespaceReconciler_Reconcile c n)"
  "state_io_rel (keeps (wf_sys timeout)) (CertificateReconciler_Reconcile c ns n)"
  "state_io_rel (keeps (wf_sys timeout)) (SourcePredicate_Update objOld objNew)"
  "state_io_rel (keeps (wf_sys timeout)) (SourcePredicate_Delete obj)"
  unfolding SourceReconciler_Reconcile_def MirrorReconciler_Reconcile_def NamespaceReconciler_Reconcile_def
    CertificateReconciler_Reconcile_def SourcePredicate_Update_def SourcePredicate_Delete_def
    SourceReconciler_fetchSource_def MirrorReconciler_fetchSource_def MirrorReconciler_fetchMirror_def
    deleteMirrorIfOrphaned_def restart_expired_session_def handleNamespaceDeletion_def Let_def
  by (intro io_timed io_if io_bind io_return io_case_sum io_case_option io_for_each io_sys_prims io_sys_caches
      io_sys_session io_sys_register wf_observed_mirror frame_keeps)+

section \<open>Properties\<close>

text \<open>The sources the source reconciler can build from answers of the API for a name.\<close>

definition replicable_source :: "'w client \<Rightarrow> string \<Rightarrow> string \<Rightarrow> Source \<Rightarrow> bool" where
  "replicable_source c ns n source \<longleftrightarrow>
     (\<exists>w obj. fst (get_secret c ns n w) = Inr obj \<and> SourceReconciler_secretToSource obj = Some source) \<or>
     (\<exists>w obj. fst (get_configmap c ns n w) = Inr obj \<and> SourceReconciler_configMapToSource obj = Some source)"

lemma fetchSource_result:
  "fst (run_state (SourceReconciler_fetchSource c ns n) s) = Inr (Some source) \<Longrightarrow> replicable_source c ns n source"
  by (auto simp: SourceReconciler_fetchSource_def replicable_source_def Let_def split: sum.splits if_splits)

lemma io_world_caches:
  assumes "reads_keep W c"
  shows "state_io_rel (world_rel W) (notFoundCache_IsNotFound c key)"
    "state_io_rel (world_rel W) (notFoundCache_MarkNotFound c key)"
    "state_io_rel (world_rel W) (notFoundCache_MarkFound key)"
  unfolding notFoundCache_IsNotFound_def notFoundCache_MarkNotFound_def notFoundCache_MarkFound_def Let_def
  by (intro io_bind [OF frame_world_rel [OF assms]] io_case_prod io_return [OF frame_world_rel [OF assms]]
      io_world_create [OF assms] io_world_prims [OF assms]; simp)+

lemma io_source_reconcile:
  assumes "reads_keep W c" "gets_requested c" "\<And>source. replicable_source c ns n source \<Longrightarrow> permitted_writes_keep W c source"
  shows "state_io_rel (world_rel W) (SourceReconciler_Reconcile c ns n)"
proof -
  note fr = frame_world_rel [OF assms(1)]
  let ?Q = "\<lambda>r. \<forall>source. r = Inr (Some source) \<longrightarrow> replicable_source c ns n source"
  have fetch: "state_io_rel (world_rel W) (SourceReconciler_fetchSource c ns n)"
    unfolding SourceReconciler_fetchSource_def
    by (intro io_bind [OF fr] io_case_sum io_if io_return [OF fr] io_world_reads [OF assms(1)])
  have exec: "state_io_rel (world_rel W) (ReflectResources_Execute c source)" if "replicable_source c ns n source" for source
    using assms that by (intro io_Execute)
  show ?thesis
    unfolding SourceReconciler_Reconcile_def
    by (intro io_timed [OF fr] io_bind [OF fr io_world_caches(1) [OF assms(1)]] io_if io_bind_post [where Q = ?Q, OF fr fetch]
        io_case_sum io_case_option io_bind [OF fr] io_return [OF fr] io_world_caches [OF assms(1)] exec
        io_world_create [OF assms(1)] io_world_prims [OF assms(1)])
      (auto dest: fetchSource_result)
qed


text \<open>The example of the README: \<open>replicate\<close>, \<open>auto-replicate\<close> and \<open>auto-replicate-to\<close>.\<close>

definition readme_annotations :: string_map where
  "readme_annotations = [AnnotationReplicationAllowed \<mapsto> ''true'', AnnotationReplicationAutoEnabled \<mapsto> ''true'',
     AnnotationReplicationAutoNamespaces \<mapsto> ''dev,qa'']"

lemma zero_matches [simp]: "\<not> Matches AllowedNamespaces_zero ns"
  by (simp add: Matches_def AllowedNamespaces_zero_def)

definition readme_cluster :: cluster where
  "readme_cluster = empty_cluster\<lparr>cl_secrets := [(''prod'', ''db'') \<mapsto> new_Secret ''db'' ''prod'' readme_annotations Map.empty ''Opaque'']\<rparr>"

text \<open>A client that reads from that cluster for ever.\<close>

definition readme_client :: "cluster client" where
  "readme_client = cluster_client
     \<lparr>get_secret := (\<lambda>ns n w. (not_found n (map_option (\<lambda>obj. obj\<lparr>Namespace := ns, Name := n\<rparr>) (cl_secrets readme_cluster (ns, n))), w)),
      get_configmap := (\<lambda>ns n w. (Inl (ApiNotFound n), w))\<rparr>"


text \<open>A source that is gone is forgotten, its mirrors are not. When neither a Secret nor a ConfigMap of the
  name exists, reconciling the name reports success, leaves every stored mirror where it is (the use case
  for deleted sources is not run), and puts the name into the not-found cache unless it is there already.\<close>

theorem missing_source_reconcile:
  assumes "\<forall>w. fst (get_secret c ns n w) = Inl (ApiNotFound n) \<and> fst (get_configmap c ns n w) = Inl (ApiNotFound n)"
  shows "(let (r, s') = run_state (SourceReconciler_Reconcile c ns n) s in
     r = None \<and> mirrors s' = mirrors s \<and> heap s' = heap s \<and> mirrorCache s' = mirrorCache s \<and>
     map_of (entries (notFoundCache s')) (ns @ ''/'' @ n) \<noteq> None)"
  using assms
  by (auto simp: SourceReconciler_Reconcile_def timed_def SourceReconciler_fetchSource_def notFoundCache_IsNotFound_def
      notFoundCache_MarkNotFound_def NotFoundCache_IsNotFound_def MarkNotFound_def Cache_Set_def Cache_Get_def
      time_Now_def time_Since_def cacheKey_def map_of_update Let_def case_prod_beta split: option.splits if_splits)

theorem missing_source_reconcile_witness:
  "map_of (entries (notFoundCache (snd (run_state (SourceReconciler_Reconcile
     (cluster_client\<lparr>get_secret := (\<lambda>ns n w. (Inl (ApiNotFound n), w)), get_configmap := (\<lambda>ns n w. (Inl (ApiNotFound n), w))\<rparr>)
     ''prod'' ''db'') (started empty_cluster))))) ''prod/db'' \<noteq> None"
  using missing_source_reconcile [of "cluster_client\<lparr>get_secret := (\<lambda>ns n w. (Inl (ApiNotFound n), w)),
      get_configmap := (\<lambda>ns n w. (Inl (ApiNotFound n), w))\<rparr>" "''prod''" "''db''" "started empty_cluster"]
  by (simp add: Let_def case_prod_beta)

text \<open>While a name is marked in the not-found cache, reconciling it reports success without looking at
  the cluster: no call is made but for the clock, and nothing changes but the metrics. A source that is
  created again after its deletion is therefore not replicated until the mark expires or an update event
  clears it.\<close>

theorem marked_source_skipped:
  assumes "w1 = snd (clock c (world s))"
    and "fst (NotFoundCache_IsNotFound (fst (clock c w1)) (ns @ ''/'' @ n) (notFoundCache s))"
  shows "(let (r, s') = run_state (SourceReconciler_Reconcile c ns n) s in
     r = None \<and> (\<exists>ms. s' = s\<lparr>world := snd (clock c (snd (clock c w1))), metrics := ms\<rparr>))"
  using assms
  by (simp add: SourceReconciler_Reconcile_def timed_def notFoundCache_IsNotFound_def time_Now_def time_Since_def
      cacheKey_def Let_def case_prod_beta) (rule exI, rule refl)

theorem marked_source_skipped_witness:
  "(let s = (started empty_cluster)\<lparr>notFoundCache := fst (MarkNotFound 0 ''prod/db'' (NewNotFoundCache 60))\<rparr> in
    cl_log (world (snd (run_state (SourceReconciler_Reconcile cluster_client ''prod'' ''db'') s))) = [])"
proof -
  let ?s = "(started empty_cluster)\<lparr>notFoundCache := fst (MarkNotFound 0 ''prod/db'' (NewNotFoundCache 60))\<rparr>"
  let ?t = "snd (run_state (SourceReconciler_Reconcile cluster_client ''prod'' ''db'') ?s)"
  have marked: "fst (NotFoundCache_IsNotFound (fst (clock cluster_client (snd (clock cluster_client (world ?s))))) (''prod'' @ ''/'' @ ''db'') (notFoundCache ?s))"
    by (simp add: NotFoundCache_IsNotFound_def MarkNotFound_def Cache_Get_Set IsExpired_def NewNotFoundCache_def NewCache_def
        cluster_client_def empty_cluster_def time_Sub_def min_duration_def max_duration_def)
  obtain ms where "?t = ?s\<lparr>world := snd (clock cluster_client (snd (clock cluster_client (snd (clock cluster_client (world ?s)))))), metrics := ms\<rparr>"
    using marked_source_skipped [OF refl marked] by (auto simp: Let_def case_prod_beta)
  then show ?thesis
    by (simp add: cluster_client_def Let_def)
qed

text \<open>A ConfigMap cannot be a mirror of its own: reconciling an annotated ConfigMap (replicated-from set,
  not managed by Helm) when no Secret of that name exists fails, and neither store nor cache records it.\<close>

theorem configmap_mirror_rejected:
  assumes "\<forall>w. fst (get_secret c ns n w) = Inl (ApiNotFound n) \<and> fst (get_configmap c ns n w) = Inr cm"
    and "\<not> IsHelmConfigMap cm" and "annotation cm AnnotationReflects \<noteq> ''''"
  shows "(let (r, s') = run_state (MirrorReconciler_Reconcile c del ns n) s in
     r = Some (Wrapped ''failed to fetch mirror'' (ErrorText ''configmap cannot be used as mirror target'')) \<and>
     mirrors s' = mirrors s \<and> heap s' = heap s \<and> mirrorCache s' = mirrorCache s)"
proof -
  have "Annotations cm \<noteq> None"
    using assms(3) annotation_none by blast
  then show ?thesis
    using assms
    by (auto simp: MirrorReconciler_Reconcile_def timed_def MirrorReconciler_fetchMirror_def time_Now_def time_Since_def
        Let_def case_prod_beta)
qed

theorem configmap_mirror_rejected_witness:
  "(let cm = new_ConfigMap ''app'' ''dev'' [AnnotationReflects \<mapsto> ''prod/app''] Map.empty Map.empty;
        c = cluster_client\<lparr>get_secret := (\<lambda>ns n w. (Inl (ApiNotFound n), w)), get_configmap := (\<lambda>ns n w. (Inr cm, w))\<rparr>
    in fst (run_state (MirrorReconciler_Reconcile c True ''dev'' ''app'') (started empty_cluster)) \<noteq> None)"
proof -
  let ?cm = "new_ConfigMap ''app'' ''dev'' [AnnotationReflects \<mapsto> ''prod/app''] Map.empty Map.empty"
  let ?c = "cluster_client\<lparr>get_secret := (\<lambda>ns n w. (Inl (ApiNotFound n), w)), get_configmap := (\<lambda>ns n w. (Inr ?cm, w))\<rparr>"
  have "\<forall>w. fst (get_secret ?c ''dev'' ''app'' w) = Inl (ApiNotFound ''app'') \<and> fst (get_configmap ?c ''dev'' ''app'' w) = Inr ?cm"
    by simp
  moreover have "\<not> IsHelmConfigMap ?cm" "annotation ?cm AnnotationReflects \<noteq> ''''"
    by (simp_all add: new_ConfigMap_def annotation_def IsHelmConfigMap_def has_helm_annotation_def AnnotationReflects_def)
  ultimately have "fst (run_state (MirrorReconciler_Reconcile ?c True ''dev'' ''app'') (started empty_cluster)) \<noteq> None"
    using configmap_mirror_rejected [of ?c "''dev''" "''app''" ?cm True "started empty_cluster"]
    by (simp only: Let_def case_prod_beta) simp
  then show ?thesis
    by (simp add: Let_def)
qed

text \<open>C40. The two reconcilers disagree about auto-replicate-to. The source reconciler restricts the automatic
  mirrors of a source to its auto-replicate-to list; the mirror reconciler, reading the same object, does
  not see that list and lets the source auto-replicate to every namespace of replicate-to.\<close>

theorem mirror_reconciler_ignores_auto_list:
  assumes "annotation obj AnnotationReplicationAllowed = ''true''" and "annotation obj AnnotationReplicationAutoEnabled = ''true''"
  shows "(case (SourceReconciler_secretToSource obj, MirrorReconciler_secretToSource obj) of
     (Some src, Some mir) \<Rightarrow>
       CanReflectToNamespace src ns = CanReflectToNamespace mir ns \<and>
       CanAutoMirrorToNamespace mir ns = CanReflectToNamespace mir ns \<and>
       CanAutoMirrorToNamespace src ns =
         (let auto = annotated_namespaces (annotation obj AnnotationReplicationAutoNamespaces)
          in if IsEmpty auto then CanReflectToNamespace src ns else Matches auto ns)
   | _ \<Rightarrow> False)"
  using assms
  by (simp add: source_secret.read_eq mirror_secret.read_eq CanReflectToNamespace_def CanAutoMirrorToNamespace_def
      annotated_namespaces_def IsEmpty_def AllowedNamespaces_zero_def Let_def)

theorem mirror_reconciler_ignores_auto_list_witness:
  "(let obj = new_Secret ''db'' ''prod'' [AnnotationReplicationAllowed \<mapsto> ''true'', AnnotationReplicationAutoEnabled \<mapsto> ''true'',
          AnnotationReplicationAllowedNamespaces \<mapsto> ''*''] Map.empty ''Opaque''
    in \<exists>mir. MirrorReconciler_secretToSource obj = Some mir \<and> CanAutoMirrorToNamespace mir ''qa'' = CanReflectToNamespace mir ''qa'')"
proof -
  let ?obj = "new_Secret ''db'' ''prod'' [AnnotationReplicationAllowed \<mapsto> ''true'', AnnotationReplicationAutoEnabled \<mapsto> ''true'',
      AnnotationReplicationAllowedNamespaces \<mapsto> ''*''] Map.empty ''Opaque''"
  have "annotation ?obj AnnotationReplicationAllowed = ''true''" "annotation ?obj AnnotationReplicationAutoEnabled = ''true''"
    by (simp_all add: new_Secret_def annotation_def AnnotationReplicationAllowed_def AnnotationReplicationAutoEnabled_def
        AnnotationReplicationAllowedNamespaces_def)
  from mirror_reconciler_ignores_auto_list [OF this, of "''qa''"] show ?thesis
    unfolding Let_def by (auto split: option.splits)
qed

lemma ListByNamespace_run:
  "\<exists>ps w. run_state (ListByNamespace c ns) s = (Inr ps, s\<lparr>world := w\<rparr>) \<and>
     set ps = {p. \<exists>i. (i, p) \<in> set (mirrors s) \<and> mirror_namespace (heap s ! p) = ns}"
  by (force simp: ListByNamespace_def Let_def image_iff)

lemma run_unregister_loop:
  "run_state (for_each ps (\<lambda>p. do { m \<leftarrow> deref p; if P m then UnregisterMirror (mirror_id m) else return () })) s =
     ((), fold store_remove (map (\<lambda>p. mirror_id (heap s ! p)) (filter (\<lambda>p. P (heap s ! p)) ps)) s)"
  by (induction ps arbitrary: s) (auto simp: UnregisterMirror_def Let_def store_remove_def)

lemma fold_store_remove_cache [simp]: "mirrorCache (fold store_remove is s) = mirrorCache s"
  by (induction "is" arbitrary: s) (simp_all add: store_remove_def)

lemma handleNamespaceDeletion_run:
  assumes "wf_store s" "distinct (map fst (mirrorCache s))" and "s' = snd (run_state (handleNamespaceDeletion c ns) s)"
  shows "stored s' i = (case stored s i of None \<Rightarrow> None | Some m \<Rightarrow>
       if mirror_namespace m = ns \<and> mirror_isAutoCreated m then None else Some m)"
    and "MirrorCache_Get key (mirrorCache s') = (if isMirrorInNamespace key ns then None else MirrorCache_Get key (mirrorCache s))"
proof -
  let ?t = "snd (run_state (mirrorCache_DeleteByNamespace c ns) s)"
  have t: "mirrors ?t = mirrors s" "heap ?t = heap s" "stored ?t = stored s" "wf_store ?t"
    using assms(1)
    by (simp_all add: mirrorCache_DeleteByNamespace_def case_prod_beta stored_def fun_eq_iff)
  have cache: "MirrorCache_Get key (mirrorCache ?t) = (if isMirrorInNamespace key ns then None else MirrorCache_Get key (mirrorCache s))"
    using mc.lookup_sweep [OF assms(2), of key "(\<lambda>key. fst (map_order c (world s)) ([], key), ns)"]
    by (auto simp: mirrorCache_DeleteByNamespace_def case_prod_beta split: option.splits)
  obtain ps w where lst: "run_state (ListByNamespace c ns) ?t = (Inr ps, ?t\<lparr>world := w\<rparr>)"
    and ps: "set ps = {p. \<exists>i. (i, p) \<in> set (mirrors s) \<and> mirror_namespace (heap s ! p) = ns}"
    using ListByNamespace_run [of c ns ?t] unfolding t by blast
  let ?ids = "map (\<lambda>p. mirror_id (heap s ! p)) (filter (\<lambda>p. mirror_isAutoCreated (heap s ! p)) ps)"
  have s': "s' = fold store_remove ?ids (?t\<lparr>world := w\<rparr>)"
    using run_unregister_loop [of ps mirror_isAutoCreated "?t\<lparr>world := w\<rparr>"]
    by (simp add: assms(3) handleNamespaceDeletion_def case_prod_beta lst t(2))
  have own: "(j, p) \<in> set (mirrors s) \<Longrightarrow> mirror_id (heap s ! p) = j" for j p
    by (rule wf_store_entry(2) [OF assms(1)])
  have "i \<in> set ?ids \<longleftrightarrow> (\<exists>m. stored s i = Some m \<and> mirror_namespace m = ns \<and> mirror_isAutoCreated m)" for i
    unfolding stored_iff [OF assms(1)] set_map set_filter ps image_iff using own by blast
  then show "stored s' i = (case stored s i of None \<Rightarrow> None | Some m \<Rightarrow>
       if mirror_namespace m = ns \<and> mirror_isAutoCreated m then None else Some m)"
    unfolding s' by (auto simp: t(3) simp del: set_map split: option.splits)
  show "MirrorCache_Get key (mirrorCache s') = (if isMirrorInNamespace key ns then None else MirrorCache_Get key (mirrorCache s))"
    unfolding s' using cache by simp
qed

lemma restart_run:
  assumes "wf_sys timeout s" and "(ok, t) = run_state (restart_expired_session c) s"
  shows "ok" "wf_sys timeout t" "mirrors t = mirrors s" "heap t = heap s" "dispatcher t = dispatcher s"
    "mirrorCache t = mirrorCache s \<or> mirrorCache t = []"
proof -
  have run: "ok = fst (run_state (restart_expired_session c) s)" "t = snd (run_state (restart_expired_session c) s)"
    using assms(2) by (metis fst_conv snd_conv)+
  have some: "StartSession now (sessionManager s) \<noteq> None" for now
    using assms(1) wf_manager_calls(1) by (auto simp: wf_sys_def)
  from some [of "fst (clock c (snd (clock c (world s))))"] show ok
    by (auto simp: run restart_expired_session_def sessionManager_IsSessionValid_def mirrorCache_Clear_def
        sessionManager_StartSession_def time_Now_def case_prod_beta split: option.splits)
  have "state_io_rel (keeps (wf_sys timeout)) (restart_expired_session c)"
    unfolding restart_expired_session_def
    by (intro io_if io_bind io_return io_sys_session io_sys_caches io_sys_prims frame_keeps)
  from io_keepsD [OF this assms(1)] show "wf_sys timeout t"
    by (simp add: run)
  show "mirrors t = mirrors s" "heap t = heap s" "dispatcher t = dispatcher s" "mirrorCache t = mirrorCache s \<or> mirrorCache t = []"
    by (auto simp: run restart_expired_session_def sessionManager_IsSessionValid_def mirrorCache_Clear_def
        sessionManager_StartSession_def time_Now_def MirrorCache_Clear_def case_prod_beta split: option.splits)
qed



end
