(* ===== verification/Go_Float.thy ===== *)
theory Go_Float
  imports Complex_Main "HOL-Library.Log_Nat" Go_Time "HOL-Library.Signed_Division"
begin

text \<open>
  Go's \<open>float64\<close>: a finite value is the rational number it denotes, and every operation rounds its
  exact result to 53 significant bits, ties to even (IEEE 754 binary64). Overflow to infinity, NaN and
  subnormal numbers are not modelled: the rate limiter computes with values between a nanosecond's
  fraction and a few thousand million. Nor is the fused multiply-add that Go may use on some processors.
\<close>

section \<open>Rounding\<close>

definition round_even :: "rat \<Rightarrow> int" where
  "round_even x =
     (let f = \<lfloor>x\<rfloor>; d = x - of_int f
      in if d < 1 / 2 then f else if d > 1 / 2 then f + 1 else if even f then f else f + 1)"

text \<open>The exponent of a positive number: \<open>2 ^ e \<le> x < 2 ^ (e + 1)\<close>.\<close>

definition binade :: "rat \<Rightarrow> int" where
  "binade x = (if 1 \<le> x then int (floorlog 2 (nat \<lfloor>x\<rfloor>)) - 1 else - int (ceillog2 (nat \<lceil>1 / x\<rceil>)))"

definition round_pos :: "rat \<Rightarrow> rat" where
  "round_pos x = (let u = 2 powi (binade x - 52) in of_int (round_even (x / u)) * u)"

definition float64 :: "rat \<Rightarrow> rat" where
  "float64 x = (if x = 0 then 0 else if x < 0 then - round_pos (- x) else round_pos x)"

section \<open>Arithmetic\<close>

definition float_add :: "rat \<Rightarrow> rat \<Rightarrow> rat" where
  "float_add x y = float64 (x + y)"

definition float_sub :: "rat \<Rightarrow> rat \<Rightarrow> rat" where
  "float_sub x y = float64 (x - y)"

definition float_mul :: "rat \<Rightarrow> rat \<Rightarrow> rat" where
  "float_mul x y = float64 (x * y)"

definition float_div :: "rat \<Rightarrow> rat \<Rightarrow> rat" where
  "float_div x y = float64 (x / y)"

definition float_of_int :: "int \<Rightarrow> rat" where
  "float_of_int n = float64 (of_int n)"

text \<open>\<open>Duration.Seconds\<close>; \<open>/\<close> and \<open>%\<close> truncate towards zero.\<close>

definition duration_Seconds :: "duration \<Rightarrow> rat" where
  "duration_Seconds d =
     float_add (float_of_int (d sdiv 1000000000)) (float_div (float_of_int (d smod 1000000000)) 1000000000)"

section \<open>Lemmas\<close>

lemma round_even_of_int [simp]: "round_even (of_int n) = n"
  by (simp add: round_even_def)

lemma round_even_bounds: "\<lfloor>x\<rfloor> \<le> round_even x" "round_even x \<le> \<lfloor>x\<rfloor> + 1"
  by (auto simp: round_even_def Let_def)

lemma round_even_mono: "x \<le> y \<Longrightarrow> round_even x \<le> round_even y"
proof -
  assume "x \<le> y"
  then consider "\<lfloor>x\<rfloor> < \<lfloor>y\<rfloor>" | "\<lfloor>x\<rfloor> = \<lfloor>y\<rfloor>"
    using floor_mono [of x y] by linarith
  then show ?thesis
  proof cases
    case 1
    then show ?thesis
      using round_even_bounds(2) [of x] round_even_bounds(1) [of y] by linarith
  next
    case 2
    then show ?thesis
      using \<open>x \<le> y\<close> by (auto simp: round_even_def Let_def)
  qed
qed

lemma binade_bounds:
  assumes "0 < x"
  shows "2 powi binade x \<le> x" "x < 2 powi (binade x + 1)"
proof -
  have "2 powi binade x \<le> x \<and> x < 2 powi (binade x + 1)"
  proof (cases "1 \<le> x")
    case True
    let ?n = "nat \<lfloor>x\<rfloor>" and ?k = "floorlog 2 (nat \<lfloor>x\<rfloor>)"
    have n: "0 < ?n" "of_nat ?n \<le> x" "x < of_nat ?n + 1"
      using True by auto linarith+
    have "2 ^ (?k - 1) \<le> ?n \<and> ?n < 2 ^ ?k"
      using n(1) by (intro floorlog_bounds) simp_all
    then have bounds: "2 ^ (?k - 1) \<le> ?n" "?n + 1 \<le> 2 ^ ?k"
      by linarith+
    have "0 < ?k"
      using bounds(2) n(1) by (cases ?k) auto
    then have k: "binade x = int (?k - 1)" "binade x + 1 = int ?k"
      using True by (auto simp: binade_def of_nat_diff)
    have "(2 :: rat) ^ (?k - 1) \<le> of_nat ?n"
      using bounds(1) by (metis of_nat_le_iff of_nat_numeral of_nat_power)
    moreover have "of_nat ?n + 1 \<le> (2 :: rat) ^ ?k"
      using bounds(2) by (metis of_nat_1 of_nat_add of_nat_le_iff of_nat_numeral of_nat_power)
    moreover have "(2 :: rat) powi binade x = 2 ^ (?k - 1)"
      by (simp only: k(1) power_int_of_nat)
    moreover have "(2 :: rat) powi (binade x + 1) = 2 ^ ?k"
      by (subst k(2)) (rule power_int_of_nat)
    ultimately show ?thesis
      using n by linarith
  next
    case False
    define k where "k = nat \<lceil>1 / x\<rceil>"
    let ?c = "ceillog2 k"
    have "1 < 1 / x"
      using False assms by (simp add: field_simps)
    then have m: "2 \<le> k" "1 / x \<le> of_nat k" "of_nat k - 1 < 1 / x"
      unfolding k_def by linarith+
    have "0 < k"
      using m(1) by linarith
    note pow = le_two_power_ceillog2 [of k] two_power_ceillog2_gt [OF this]
    with m(1) obtain c where c: "?c = Suc c"
      by (cases ?c) auto
    with pow have up: "k \<le> 2 ^ Suc c" and low: "2 ^ c + 1 \<le> k"
      by auto
    have "(of_nat k :: rat) \<le> of_nat (2 ^ Suc c)"
      using up by (simp only: of_nat_le_iff)
    then have up': "1 / x \<le> 2 ^ Suc c"
      using m(2) by simp
    have "(of_nat (2 ^ c + 1) :: rat) \<le> of_nat k"
      using low by (simp only: of_nat_le_iff)
    then have low': "2 ^ c < 1 / x"
      using m(3) by simp
    have e: "binade x = - int (Suc c)" "binade x + 1 = - int c"
      using False c by (simp_all add: binade_def k_def)
    have "(2 :: rat) powi binade x = inverse (2 ^ Suc c)"
      by (subst e(1)) (simp only: power_int_minus power_int_of_nat)
    moreover have "(2 :: rat) powi (binade x + 1) = inverse (2 ^ c)"
      by (subst e(2)) (simp only: power_int_minus power_int_of_nat)
    moreover have "inverse (2 ^ Suc c) \<le> x" "x < inverse (2 ^ c)"
      using assms up' low' by (simp_all add: field_simps)
    ultimately show ?thesis
      by (simp only:)
  qed
  then show "2 powi binade x \<le> x" "x < 2 powi (binade x + 1)"
    by simp_all
qed

lemma binade_mono:
  assumes "0 < x" "x \<le> y"
  shows "binade x \<le> binade y"
proof (rule ccontr)
  assume "\<not> binade x \<le> binade y"
  then have "(2 :: rat) powi (binade y + 1) \<le> 2 powi binade x"
    by (intro power_int_increasing) auto
  with binade_bounds [of x] binade_bounds [of y] assms show False
    by linarith
qed

lemma round_pos_bounds:
  assumes "0 < x"
  shows "2 powi binade x \<le> round_pos x" "round_pos x \<le> 2 powi (binade x + 1)"
proof -
  let ?u = "2 powi (binade x - 52) :: rat"
  have u: "0 < ?u" and lo: "2 powi binade x = of_int (2 ^ 52) * ?u" and hi: "2 powi (binade x + 1) = of_int (2 ^ 53) * ?u"
    by (simp_all add: power_int_diff power_int_add)
  have "of_int (2 ^ 52) \<le> x / ?u" "x / ?u \<le> of_int (2 ^ 53)"
    using binade_bounds [OF assms] u unfolding lo hi by (simp_all add: field_simps)
  from round_even_mono [OF this(1)] round_even_mono [OF this(2)]
  have "2 ^ 52 \<le> round_even (x / ?u)" "round_even (x / ?u) \<le> 2 ^ 53"
    unfolding round_even_of_int by simp_all
  then have "rat_of_int (2 ^ 52) \<le> of_int (round_even (x / ?u))" "rat_of_int (round_even (x / ?u)) \<le> of_int (2 ^ 53)"
    unfolding of_int_le_iff by simp_all
  then show "2 powi binade x \<le> round_pos x" "round_pos x \<le> 2 powi (binade x + 1)"
    unfolding lo hi round_pos_def Let_def using u by (intro mult_right_mono; simp)+
qed

lemma round_pos_mono:
  assumes "0 < x" "x \<le> y"
  shows "round_pos x \<le> round_pos y"
proof (cases "binade x = binade y")
  case True
  have "x / 2 powi (binade y - 52) \<le> y / 2 powi (binade y - 52)"
    using assms by (simp add: divide_right_mono)
  then show ?thesis
    using round_even_mono unfolding round_pos_def True Let_def
    by (intro mult_right_mono) (simp_all add: of_int_le_iff)
next
  case False
  then have "binade x + 1 \<le> binade y"
    using binade_mono [OF assms] by linarith
  then have "(2 :: rat) powi (binade x + 1) \<le> 2 powi binade y"
    by (intro power_int_increasing) auto
  with round_pos_bounds [of x] round_pos_bounds [of y] assms show ?thesis
    by linarith
qed

lemma round_pos_positive: "0 < x \<Longrightarrow> 0 < round_pos x"
  using round_pos_bounds(1) [of x] by (meson less_le_trans zero_less_power_int zero_less_numeral)

lemma float64_0 [simp]: "float64 0 = 0"
  by (simp add: float64_def)

lemma float64_mono: "x \<le> y \<Longrightarrow> float64 x \<le> float64 y"
  using round_pos_mono [of x y] round_pos_mono [of "- y" "- x"] round_pos_positive [of y] round_pos_positive [of "- x"]
  by (cases "x = 0"; cases "y = 0"; cases "x < 0"; cases "y < 0") (auto simp: float64_def not_less)

lemma float64_nonneg: "0 \<le> x \<Longrightarrow> 0 \<le> float64 x"
  using float64_mono [of 0 x] by simp

text \<open>Integers of at most 53 bits are exact.\<close>

lemma float64_of_nat:
  assumes "n \<le> 2 ^ 53"
  shows "float64 (of_nat n) = of_nat n"
proof (cases "n = 0")
  case False
  let ?e = "binade (of_nat n)"
  have pos: "(0 :: rat) < of_nat n"
    using False by simp
  have "?e \<le> 53"
  proof (rule ccontr)
    assume "\<not> ?e \<le> 53"
    then have "(2 :: rat) powi 54 \<le> 2 powi ?e"
      by (intro power_int_increasing) auto
    also have "\<dots> \<le> of_nat n"
      by (rule binade_bounds [OF pos])
    also have "\<dots> \<le> 2 ^ 53"
      using assms by (metis of_nat_le_iff of_nat_numeral of_nat_power)
    finally show False
      by simp
  qed
  have exact: "\<exists>k :: int. of_nat n / (2 :: rat) powi (?e - 52) = of_int k"
  proof (cases "?e \<le> 52")
    case True
    then have "of_nat n / (2 :: rat) powi (?e - 52) = of_int (int n * 2 ^ nat (52 - ?e))"
      by (simp add: power_int_def field_simps)
    then show ?thesis by blast
  next
    case False
    then have "?e = 53"
      using \<open>?e \<le> 53\<close> by linarith
    then have "(2 :: rat) ^ 53 \<le> of_nat n"
      using binade_bounds(1) [OF pos] by (simp add: power_int_def)
    then have "n = 2 ^ 53"
      using assms by (metis antisym of_nat_le_iff of_nat_numeral of_nat_power)
    then have "of_nat n / (2 :: rat) powi (?e - 52) = of_int (2 ^ 52)"
      using \<open>?e = 53\<close> by simp
    then show ?thesis by blast
  qed
  then obtain k :: int where k: "of_nat n / (2 :: rat) powi (?e - 52) = of_int k" ..
  then have "round_pos (of_nat n) = of_int k * 2 powi (?e - 52)"
    by (simp add: round_pos_def)
  also have "\<dots> = of_nat n"
    unfolding k [symmetric] by simp
  finally show ?thesis
    using pos by (simp add: float64_def)
qed simp

lemma duration_Seconds_zero [simp]: "duration_Seconds 0 = 0"
  by (simp add: duration_Seconds_def float_add_def float_div_def float_of_int_def)

lemma duration_Seconds_nonneg:
  assumes "0 \<le> d"
  shows "0 \<le> duration_Seconds d"
proof -
  have "0 \<le> d sdiv 1000000000" "0 \<le> d smod 1000000000"
    using assms by (auto simp: signed_divide_int_def signed_modulo_int_def sgn_if minus_div_mult_eq_mod [symmetric])
  then show ?thesis
    unfolding duration_Seconds_def float_add_def float_div_def float_of_int_def
    by (intro float64_nonneg add_nonneg_nonneg divide_nonneg_nonneg) (simp_all add: float64_nonneg)
qed

end
