(* ===== verification/Cluster_Rule.thy ===== *)
theory Cluster_Rule
  imports Controllers Go_Float
begin

text \<open>
  Package \<open>controllers\<close> (internal/controllers/clusterreplicationrule_controller.go): the rate limiter
  and batch processor, and the reconciler for ClusterReplicationRules, which replicates every resource
  of a namespace whose name a rule selects. A value passed by pointer and changed is returned.
\<close>

section \<open>RateLimiter\<close>

definition defaultBatchSize :: int where
  "defaultBatchSize = 50"

definition defaultRateLimitQPS :: rat where
  "defaultRateLimitQPS = 20"

definition defaultRateLimitBurst :: int where
  "defaultRateLimitBurst = 100"

definition defaultMinDelayMs :: int where
  "defaultMinDelayMs = 100"

definition defaultMaxDelayMs :: int where
  "defaultMaxDelayMs = 2000"

lemmas rate_defaults = defaultBatchSize_def defaultRateLimitQPS_def defaultRateLimitBurst_def
  defaultMinDelayMs_def defaultMaxDelayMs_def

record RateLimiter =
  tokens :: rat
  maxTokens :: rat
  qps :: rat
  lastTime :: gotime

definition NewRateLimiter :: "gotime \<Rightarrow> rat \<Rightarrow> int \<Rightarrow> RateLimiter" where
  "NewRateLimiter now rate burst =
     \<lparr>tokens = float_of_int burst, maxTokens = float_of_int burst, qps = rate, lastTime = now\<rparr>"

definition Allow :: "gotime \<Rightarrow> RateLimiter \<Rightarrow> bool \<times> RateLimiter" where
  "Allow now r =
     (let elapsed = duration_Seconds (time_Sub now (lastTime r));
          filled = float_add (tokens r) (float_mul elapsed (qps r));
          avail = (if filled > maxTokens r then maxTokens r else filled);
          r' = r\<lparr>lastTime := now, tokens := avail\<rparr>
      in if avail < 1 then (False, r') else (True, r'\<lparr>tokens := float_sub avail 1\<rparr>))"

text \<open>The delay that \<open>Wait\<close> chooses, from the random number and the answer of \<open>Allow\<close>.
  \<open>time.Duration(float64(defaultMaxDelayMs)*1.5)\<close> is a constant expression.\<close>

definition millisecond :: duration where
  "millisecond = 1000000"

definition wait_delay :: "nat \<Rightarrow> bool \<Rightarrow> duration" where
  "wait_delay k allowed =
     (if allowed then wrap64 ((defaultMinDelayMs + int k) * millisecond)
      else wrap64 ((defaultMaxDelayMs * 3 div 2) * millisecond))"

definition RateLimiter_Wait :: "'w client \<Rightarrow> RateLimiter \<Rightarrow> ('w sys, go_error option \<times> RateLimiter) state" where
  "RateLimiter_Wait c r = do {
     k \<leftarrow> api (rand_Intn c (nat (defaultMaxDelayMs - defaultMinDelayMs)));
     now \<leftarrow> time_Now c;
     let (allowed, r') = Allow now r;
     err \<leftarrow> api (wait_for c (wait_delay k allowed));
     return (err, r') }"

section \<open>BatchProcessor\<close>

record BatchProcessor =
  limiter :: RateLimiter
  batchSize :: int

definition NewBatchProcessor :: "gotime \<Rightarrow> rat \<Rightarrow> int \<Rightarrow> int \<Rightarrow> BatchProcessor" where
  "NewBatchProcessor now rate burst bsize = \<lparr>limiter = NewRateLimiter now rate burst, batchSize = bsize\<rparr>"

definition AddAndExecute ::
  "'w client \<Rightarrow> BatchProcessor \<Rightarrow> ('w sys, go_error option) state \<Rightarrow> ('w sys, go_error option \<times> BatchProcessor) state"
where
  "AddAndExecute c bp work = do {
     (err, l) \<leftarrow> RateLimiter_Wait c (limiter bp);
     case err of
       Some e \<Rightarrow> return (Some e, bp\<lparr>limiter := l\<rparr>)
     | None \<Rightarrow> do {
         r \<leftarrow> work;
         return (r, bp\<lparr>limiter := l\<rparr>) } }"

text \<open>\<open>i % bp.batchSize\<close> panics for a batch size of zero.\<close>

fun process_items ::
  "'w client \<Rightarrow> BatchProcessor \<Rightarrow> (string \<Rightarrow> ('w sys, go_error option) state) \<Rightarrow> int \<Rightarrow> string list \<Rightarrow>
   ('w sys, outcome \<times> BatchProcessor) state"
where
  "process_items c bp work i [] = return (Returns None, bp)"
| "process_items c bp work i (item # items) =
     (if i > 0 \<and> batchSize bp = 0 then return (Panic, bp)
      else do {
        cancelled \<leftarrow> (if i > 0 \<and> i smod batchSize bp = 0 then api (ctx_Err c) else return None);
        case cancelled of
          Some e \<Rightarrow> return (Returns (Some e), bp)
        | None \<Rightarrow> do {
            (err, bp') \<leftarrow> AddAndExecute c bp (work item);
            case err of
              Some e \<Rightarrow> return (Returns (Some e), bp')
            | None \<Rightarrow> process_items c bp' work (i + 1) items } })"

definition ProcessBatch ::
  "'w client \<Rightarrow> BatchProcessor \<Rightarrow> string list \<Rightarrow> (string \<Rightarrow> ('w sys, go_error option) state) \<Rightarrow>
   ('w sys, outcome \<times> BatchProcessor) state"
where
  "ProcessBatch c bp items work = process_items c bp work 0 items"

section \<open>Selectors and target namespaces\<close>

definition selector_regex :: "string \<Rightarrow> string" where
  "selector_regex selector =
     (let s1 = (if \<not> strings_HasPrefix selector ''^'' \<and> \<not> strings_HasPrefix selector ''.*'' then ''^'' @ selector else selector)
      in if \<not> strings_HasSuffix selector ''$'' \<and> \<not> strings_HasSuffix selector ''.*'' then s1 @ ''$'' else s1)"

definition compileSelector :: "string \<Rightarrow> go_error + regexp" where
  "compileSelector selector =
     (if selector = '''' then Inl (ErrorText ''selector cannot be empty'')
      else (case regexp_Compile (selector_regex selector) of Inl e \<Rightarrow> Inl (SyntaxError e) | Inr re \<Rightarrow> Inr re))"

definition select_namespaces :: "TargetNamespaces \<Rightarrow> string list \<Rightarrow> go_error + string list" where
  "select_namespaces target allNamespaces =
     (let result = (if length (slice (tnIncludes target)) > 0
                    then filter (\<lambda>ns. list_ex (\<lambda>include. ns = include) (slice (tnIncludes target))) allNamespaces
                    else allNamespaces);
          excludes = (\<lambda>ns. ns \<in> set (slice (tnExcludes target)));
          final = filter (\<lambda>ns. \<not> excludes ns)
      in if tnSelector target \<noteq> '''' then
           (case compileSelector (tnSelector target) of
              Inl err \<Rightarrow> Inl (Wrapped ''invalid namespace selector'' err)
            | Inr re \<Rightarrow> Inr (final (filter (regexp_MatchString re) result)))
         else Inr (final result))"

definition determineTargetNamespaces :: "'w client \<Rightarrow> TargetNamespaces \<Rightarrow> ('w sys, go_error + string list) state" where
  "determineTargetNamespaces c target = do {
     r \<leftarrow> NamespaceLister_List c;
     return (case r of
       Inl err \<Rightarrow> Inl (Wrapped ''failed to list namespaces'' err)
     | Inr allNamespaces \<Rightarrow> select_namespaces target allNamespaces) }"
section \<open>Sources of a rule\<close>

text \<open>The expression of \<open>transformTargetName\<close>, \<open>\$\d+|\$\{\d+\}\<close>.\<close>

definition group_reference :: string where
  "group_reference = [CHR 0x5C, CHR ''$'', CHR 0x5C] @ ''d+|'' @ [CHR 0x5C, CHR ''$'', CHR 0x5C] @ ''{'' @ [CHR 0x5C] @ ''d+'' @ [CHR 0x5C] @ ''}''"

text \<open>\<open>fmt.Sscanf(s, "%d", &n)\<close> on a text of digits: it fails when the value exceeds an int.\<close>

definition sscanf_digits :: "string \<Rightarrow> nat option" where
  "sscanf_digits s =
     (let ds = takeWhile (\<lambda>c. is_digit (of_char c)) s; n = digits_val 0 (map of_char ds)
      in if ds = [] \<or> int n \<ge> 2 ^ 63 then None else Some n)"

definition expand_reference :: "string \<Rightarrow> string \<Rightarrow> string \<Rightarrow> string \<Rightarrow> string" where
  "expand_reference srcName sourceSelector result match =
     (let groupIdx = (if match ! 0 = CHR ''$'' \<and> match ! 1 = CHR ''{'' then butlast (drop 2 match) else drop 1 match)
      in case sscanf_digits groupIdx of
           None \<Rightarrow> result
         | Some groupNumber \<Rightarrow>
             let replacement =
                   (case regexp_Compile (selector_regex sourceSelector) of
                      Inl _ \<Rightarrow> ''''
                    | Inr re \<Rightarrow>
                        (case regexp_FindStringSubmatch re srcName of
                           None \<Rightarrow> ''''
                         | Some groups \<Rightarrow> if length groups > groupNumber then groups ! groupNumber else ''''))
             in strings_Replace result match replacement (Some 1))"

definition transformTargetName :: "string \<Rightarrow> string \<Rightarrow> ClusterReplicationRule \<Rightarrow> string" where
  "transformTargetName srcName template rule =
     (case regexp_Compile group_reference of
        Inl _ \<Rightarrow> template
      | Inr re \<Rightarrow>
          foldl (expand_reference srcName (specSourceSelector (ruleSpec rule))) template (regexp_FindAllString re template))"

text \<open>Both readers mark the object as replicable and copy the listed annotations under a prefix. A key that
  is listed twice, or that a previous copy produced, is read from the map as it then is.\<close>

definition copied_annotation :: "string \<Rightarrow> string" where
  "copied_annotation key = ''replikator.cloudresty.io/copied-'' @ key"

definition annotate_rule_source :: "ClusterReplicationRule \<Rightarrow> string_map option \<Rightarrow> string_map" where
  "annotate_rule_source rule annots =
     foldl (\<lambda>m key. case m key of None \<Rightarrow> m | Some val \<Rightarrow> m(copied_annotation key \<mapsto> val))
       ((case annots of None \<Rightarrow> Map.empty | Some m \<Rightarrow> m)(AnnotationReplicationAllowed \<mapsto> ''true''))
       (slice (specAnnotationsToCopy (ruleSpec rule)))"

definition rule_source :: "ResourceType \<Rightarrow> string \<Rightarrow> string \<Rightarrow> string \<Rightarrow> ClusterReplicationRule \<Rightarrow> string list \<Rightarrow> Source" where
  "rule_source resourceType namespace name version rule targetNamespaces =
     (let source = NewSource namespace name resourceType;
          template = specTargetNameTemplate (ruleSpec rule);
          source1 = (if template \<noteq> '''' then SetTargetName (transformTargetName name template rule) source else source);
          source2 = SetAllowed True (SetAllowedNamespaces (AllowedNamespaces_or_zero [''*'']) source1);
          source3 = (if length targetNamespaces > 0
                     then SetAutoNamespaces (AllowedNamespaces_or_zero targetNamespaces) (SetAutoEnabled True source2)
                     else source2)
      in Source_SetVersion version source3)"

definition Rule_secretToSource :: "Secret \<Rightarrow> ClusterReplicationRule \<Rightarrow> string list \<Rightarrow> Source \<times> Secret" where
  "Rule_secretToSource secret rule targetNamespaces =
     (rule_source ResourceTypeSecret (Namespace secret) (Name secret) (ResourceVersion secret) rule targetNamespaces,
      secret\<lparr>Annotations := Some (annotate_rule_source rule (Annotations secret))\<rparr>)"

definition Rule_configMapToSource :: "ConfigMap \<Rightarrow> ClusterReplicationRule \<Rightarrow> string list \<Rightarrow> Source \<times> ConfigMap" where
  "Rule_configMapToSource cm rule targetNamespaces =
     (rule_source ResourceTypeConfigMap (Namespace cm) (Name cm) (ResourceVersion cm) rule targetNamespaces,
      cm\<lparr>Annotations := Some (annotate_rule_source rule (Annotations cm))\<rparr>)"

section \<open>Processing a rule\<close>

text \<open>The loop over the listed objects of one type. The reader never returns nil. A failed replication is
  logged and skipped.\<close>

fun reflect_listed ::
  "'w client \<Rightarrow> regexp \<Rightarrow> string \<Rightarrow> nat \<Rightarrow> gotime \<Rightarrow> ('a k8s_object_scheme \<Rightarrow> bool) \<Rightarrow> ('a k8s_object_scheme \<Rightarrow> Source) \<Rightarrow>
   BatchProcessor \<Rightarrow> SyncedResource list \<Rightarrow> int \<Rightarrow> 'a k8s_object_scheme list \<Rightarrow> ('w sys, SyncedResource list \<times> int) state"
where
  "reflect_listed c selector kind targets now isHelm toSource bp synced totalMirrors [] = return (synced, totalMirrors)"
| "reflect_listed c selector kind targets now isHelm toSource bp synced totalMirrors (obj # objs) =
     (if \<not> regexp_MatchString selector (Name obj)
      then reflect_listed c selector kind targets now isHelm toSource bp synced totalMirrors objs
      else if isHelm obj
      then reflect_listed c selector kind targets now isHelm toSource bp synced totalMirrors objs
      else do {
        (err, bp') \<leftarrow> AddAndExecute c bp (ReflectResources_Execute c (toSource obj));
        case err of
          Some _ \<Rightarrow> reflect_listed c selector kind targets now isHelm toSource bp' synced totalMirrors objs
        | None \<Rightarrow>
            reflect_listed c selector kind targets now isHelm toSource bp'
              (synced @ [\<lparr>srName = Name obj, srNamespace = Namespace obj, srResourceType = kind,
                 srMirroredToCount = int targets, srLastSyncedTime = Some now\<rparr>])
              (wrap64 (totalMirrors + int targets)) objs })"

definition processResourceTypeWithStats ::
  "'w client \<Rightarrow> ClusterReplicationRule \<Rightarrow> string \<Rightarrow> regexp \<Rightarrow> string list \<Rightarrow>
   ('w sys, go_error + SyncedResource list \<times> int) state"
where
  "processResourceTypeWithStats c rule resourceType selector targetNamespaces = do {
     now \<leftarrow> time_Now c;
     created \<leftarrow> time_Now c;
     let bp = NewBatchProcessor created defaultRateLimitQPS defaultRateLimitBurst defaultBatchSize;
     if resourceType = ''Secret'' then do {
       r \<leftarrow> api (list_secrets c (specSourceNamespace (ruleSpec rule)));
       case r of
         Inl err \<Rightarrow> return (Inl (Wrapped ''failed to list secrets'' err))
       | Inr secrets \<Rightarrow> do {
           out \<leftarrow> reflect_listed c selector ''Secret'' (length targetNamespaces) now IsHelmSecret
             (\<lambda>secret. fst (Rule_secretToSource secret rule targetNamespaces)) bp [] 0 secrets;
           return (Inr out) } }
     else if resourceType = ''ConfigMap'' then do {
       r \<leftarrow> api (list_configmaps c (specSourceNamespace (ruleSpec rule)));
       case r of
         Inl err \<Rightarrow> return (Inl (Wrapped ''failed to list configmaps'' err))
       | Inr configMaps \<Rightarrow> do {
           out \<leftarrow> reflect_listed c selector ''ConfigMap'' (length targetNamespaces) now IsHelmConfigMap
             (\<lambda>cm. fst (Rule_configMapToSource cm rule targetNamespaces)) bp [] 0 configMaps;
           return (Inr out) } }
     else return (Inr ([], 0)) }"

fun process_types ::
  "'w client \<Rightarrow> ClusterReplicationRule \<Rightarrow> regexp \<Rightarrow> string list \<Rightarrow> SyncedResource list \<Rightarrow> int \<Rightarrow> string list \<Rightarrow>
   ('w sys, SyncedResource list \<times> int) state"
where
  "process_types c rule selector targetNamespaces processed totalMirrors [] = return (processed, totalMirrors)"
| "process_types c rule selector targetNamespaces processed totalMirrors (rt # rts) = do {
     r \<leftarrow> processResourceTypeWithStats c rule rt selector targetNamespaces;
     case r of
       Inl _ \<Rightarrow> process_types c rule selector targetNamespaces processed totalMirrors rts
     | Inr (synced, added) \<Rightarrow>
         process_types c rule selector targetNamespaces (processed @ synced) (wrap64 (totalMirrors + added)) rts }"

definition rule_types :: "ClusterReplicationRule \<Rightarrow> string list" where
  "rule_types rule =
     (let resourceTypes = slice (specResourceTypes (ruleSpec rule))
      in if length resourceTypes = 0 then [''Secret'', ''ConfigMap''] else resourceTypes)"

definition rule_status :: "gotime \<Rightarrow> SyncedResource list \<Rightarrow> int \<Rightarrow> ReplicationRuleStatus \<Rightarrow> ReplicationRuleStatus" where
  "rule_status now processed totalMirrors status =
     (let status1 = status\<lparr>stSyncedResources := Some processed, stMirroredCount := wrap32 totalMirrors, stLastSyncTime := Some now\<rparr>
      in if length processed > 0
         then status1\<lparr>stCondition := Some
           \<lparr>condType = ReplicationRuleActive, condStatus = ''True'', condLastTransitionTime = now,
            condReason = ''ResourcesSynced'',
            condMessage = ''Synced '' @ dec_int (int (length processed)) @ '' resources to '' @ dec_int totalMirrors @ '' mirrors''\<rparr>\<rparr>
         else status1)"

text \<open>\<open>processRule\<close> never returns an error; it returns the rule it has changed.\<close>

definition processRule ::
  "'w client \<Rightarrow> ClusterReplicationRule \<Rightarrow> regexp \<Rightarrow> string list \<Rightarrow> ('w sys, ClusterReplicationRule) state"
where
  "processRule c rule selector targetNamespaces = do {
     now \<leftarrow> time_Now c;
     (processed, totalMirrors) \<leftarrow> process_types c rule selector targetNamespaces [] 0 (rule_types rule);
     return (rule\<lparr>ruleStatus := rule_status now processed totalMirrors (ruleStatus rule)\<rparr>) }"

definition updateRuleStatus :: "'w client \<Rightarrow> ClusterReplicationRule \<Rightarrow> string list \<Rightarrow> ('w sys, ClusterReplicationRule) state" where
  "updateRuleStatus c rule targetNamespaces = do {
     let rule1 = rule\<lparr>ruleStatus := (ruleStatus rule)\<lparr>stObservedGeneration := ruleGeneration rule\<rparr>\<rparr>;
     rule2 \<leftarrow> (case stLastSyncTime (ruleStatus rule1) of
       None \<Rightarrow> do {
         now \<leftarrow> time_Now c;
         return (rule1\<lparr>ruleStatus := (ruleStatus rule1)\<lparr>stLastSyncTime := Some now\<rparr>\<rparr>) }
     | Some _ \<Rightarrow> return rule1);
     let rule3 = rule2\<lparr>ruleStatus := (ruleStatus rule2)\<lparr>stActiveMirrors := wrap32 (int (length targetNamespaces))\<rparr>\<rparr>;
     _ \<leftarrow> api (update_rule_status c rule3);
     return rule3 }"

definition RuleReconciler_Reconcile :: "'w client \<Rightarrow> string \<Rightarrow> ('w sys, go_error option) state" where
  "RuleReconciler_Reconcile c name = timed c ''clusterrule'' (do {
     r \<leftarrow> api (get_rule c name);
     case r of
       Inl err \<Rightarrow>
         if IsNotFound err then return (None, None)
         else return (Some err, Some (Wrapped ''failed to get ClusterReplicationRule'' err))
     | Inr rule \<Rightarrow>
         if specSourceNamespace (ruleSpec rule) = '''' then return (None, None)
         else (case compileSelector (specSourceSelector (ruleSpec rule)) of
             Inl _ \<Rightarrow> return (None, None)
           | Inr selector \<Rightarrow> do {
               t \<leftarrow> determineTargetNamespaces c (specTargetNamespaces (ruleSpec rule));
               case t of
                 Inl err \<Rightarrow> return (Some err, Some (Wrapped ''failed to determine target namespaces'' err))
               | Inr targetNamespaces \<Rightarrow> do {
                   rule' \<leftarrow> processRule c rule selector targetNamespaces;
                   _ \<leftarrow> updateRuleStatus c rule' targetNamespaces;
                   return (None, None) } }) })"

section \<open>The rate limiter\<close>

text \<open>The answers of successive calls of \<open>Allow\<close> at given times.\<close>

fun allow_all :: "gotime list \<Rightarrow> RateLimiter \<Rightarrow> bool list \<times> RateLimiter" where
  "allow_all [] r = ([], r)"
| "allow_all (t # ts) r =
     (let (b, r') = Allow t r; (bs, r'') = allow_all ts r' in (b # bs, r''))"

text \<open>A limiter holds between zero and its burst of tokens, and the burst is a whole number.\<close>

definition wf_limiter :: "nat \<Rightarrow> RateLimiter \<Rightarrow> bool" where
  "wf_limiter burst r \<longleftrightarrow> maxTokens r = of_nat burst \<and> 0 \<le> tokens r \<and> tokens r \<le> of_nat burst \<and> 0 \<le> qps r"

lemma wf_NewRateLimiter: "burst \<le> 2 ^ 53 \<Longrightarrow> 0 \<le> rate \<Longrightarrow> wf_limiter burst (NewRateLimiter t rate (int burst))"
  using float64_of_nat [of burst] by (simp add: wf_limiter_def NewRateLimiter_def float_of_int_def)

lemma time_Sub_nonneg: "u \<le> t \<Longrightarrow> 0 \<le> time_Sub t u"
  by (simp add: time_Sub_def min_duration_def max_duration_def)

lemma Allow_wf:
  assumes "wf_limiter burst r" "lastTime r \<le> t" "burst \<le> 2 ^ 53"
  shows "wf_limiter burst (snd (Allow t r))" "lastTime (snd (Allow t r)) = t" "qps (snd (Allow t r)) = qps r"
proof -
  define filled where "filled = float_add (tokens r) (float_mul (duration_Seconds (time_Sub t (lastTime r))) (qps r))"
  define avail where "avail = (if filled > maxTokens r then maxTokens r else filled)"
  have "0 \<le> float_mul (duration_Seconds (time_Sub t (lastTime r))) (qps r)"
    using assms unfolding float_mul_def wf_limiter_def
    by (intro float64_nonneg mult_nonneg_nonneg duration_Seconds_nonneg time_Sub_nonneg) auto
  then have "0 \<le> filled"
    using assms(1) unfolding filled_def float_add_def wf_limiter_def by (intro float64_nonneg add_nonneg_nonneg) auto
  then have avail: "0 \<le> avail" "avail \<le> of_nat burst"
    using assms(1) by (auto simp: avail_def wf_limiter_def)
  moreover have "0 \<le> float_sub avail 1" "float_sub avail 1 \<le> of_nat burst" if "1 \<le> avail"
  proof -
    show "0 \<le> float_sub avail 1"
      using that unfolding float_sub_def by (intro float64_nonneg) simp
    have "float_sub avail 1 \<le> float64 (of_nat burst)"
      unfolding float_sub_def using avail(2) by (intro float64_mono) simp
    then show "float_sub avail 1 \<le> of_nat burst"
      using float64_of_nat [OF assms(3)] by simp
  qed
  moreover have "Allow t r = (let r' = r\<lparr>lastTime := t, tokens := avail\<rparr>
      in if avail < 1 then (False, r') else (True, r'\<lparr>tokens := float_sub avail 1\<rparr>))"
    unfolding Allow_def avail_def filled_def Let_def by simp
  ultimately show "wf_limiter burst (snd (Allow t r))" "lastTime (snd (Allow t r)) = t" "qps (snd (Allow t r)) = qps r"
    using assms(1) by (auto simp: wf_limiter_def Let_def not_less)
qed

lemma allow_all_wf:
  assumes "burst \<le> 2 ^ 53"
  shows "wf_limiter burst r \<Longrightarrow> sorted (lastTime r # ts) \<Longrightarrow> wf_limiter burst (snd (allow_all ts r))"
proof (induction ts arbitrary: r)
  case (Cons t ts)
  have "lastTime r \<le> t" "sorted (t # ts)"
    using Cons.prems(2) by auto
  with Allow_wf [OF Cons.prems(1) _ assms, of t] show ?case
    by (auto simp: case_prod_beta Let_def intro!: Cons.IH)
qed simp

lemma wait_delay_bounds:
  assumes "int k < defaultMaxDelayMs - defaultMinDelayMs"
  shows "defaultMinDelayMs * millisecond \<le> wait_delay k allowed" "wait_delay k allowed \<le> 3000 * millisecond"
    "wait_delay k True < defaultMaxDelayMs * millisecond" "wait_delay k False = 3000 * millisecond"
  using assms by (auto simp: wait_delay_def rate_defaults millisecond_def wrap64_id)

text \<open>Without time passing the limiter only counts down.\<close>

lemma Allow_same_time:
  assumes "tokens r = of_nat n" "n \<le> burst" "maxTokens r = of_nat burst" "burst \<le> 2 ^ 53"
  shows "Allow (lastTime r) r = (0 < n, r\<lparr>tokens := of_nat (n - 1)\<rparr>)"
proof -
  have "float_mul (duration_Seconds 0) (qps r) = 0"
    by (simp add: float_mul_def)
  moreover have "float_add (of_nat n) 0 = of_nat n"
    using float64_of_nat [of n] assms by (simp add: float_add_def)
  moreover have "float_sub (of_nat n) 1 = of_nat (n - 1)" if "0 < n"
    using float64_of_nat [of "n - 1"] assms that by (simp add: float_sub_def of_nat_diff)
  moreover have "time_Sub t t = 0" for t
    by (simp add: time_Sub_def min_duration_def max_duration_def)
  moreover have "r\<lparr>lastTime := lastTime r, tokens := x\<rparr> = r\<lparr>tokens := x\<rparr>" for x
    by simp
  ultimately show ?thesis
    using assms by (auto simp: Allow_def Let_def)
qed

lemma allow_all_same_time:
  assumes "burst \<le> 2 ^ 53"
  shows "tokens r = of_nat n \<Longrightarrow> n \<le> burst \<Longrightarrow> maxTokens r = of_nat burst \<Longrightarrow> lastTime r = t \<Longrightarrow>
   fst (allow_all (replicate k t) r) = replicate (min k n) True @ replicate (k - n) False"
proof (induction k arbitrary: r n)
  case (Suc k)
  let ?r = "r\<lparr>tokens := of_nat (n - 1)\<rparr>"
  have "Allow t r = (0 < n, ?r)"
    using Allow_same_time [of r n burst] Suc.prems assms by auto
  moreover have "fst (allow_all (replicate k t) ?r) = replicate (min k (n - 1)) True @ replicate (k - (n - 1)) False"
    using Suc.prems by (intro Suc.IH) auto
  ultimately show ?case
    by (cases n) (auto simp: Let_def case_prod_beta)
qed simp

text \<open>The burst is exact.\<close>

lemma rate_limiter_burst:
  assumes "burst \<le> 2 ^ 53"
  shows "fst (allow_all (replicate k t) (NewRateLimiter t rate (int burst))) =
     replicate (min k burst) True @ replicate (k - burst) False"
  using allow_all_same_time [OF assms, of _ burst] float64_of_nat [OF assms]
  by (simp add: NewRateLimiter_def float_of_int_def)

text \<open>C18. The rate limiter stays within its bounds. Starting full, after any number of calls of \<open>Allow\<close> at
  times that do not go backwards, a limiter of burst \<open>b\<close> (at most \<open>2 ^ 53\<close>) holds between 0 and \<open>b\<close>
  tokens, in floating-point arithmetic as the code computes it, so the refill cannot exceed the burst nor
  a spent token make the balance negative; of any number of calls made at the instant of its creation
  exactly the first \<open>b\<close> are granted. And whatever number below 1900 the random source returns, the
  delay before a replication lies between 100 ms and 3 s and is not cut by the 64-bit duration: below 2 s
  when a token was available, exactly 3 s otherwise.\<close>

theorem rate_limiter_bounds:
  assumes "burst \<le> 2 ^ 53" and "0 \<le> rate" and "sorted (t # ts)" and "k < 1900"
  shows "(let r = snd (allow_all ts (NewRateLimiter t rate (int burst))) in
       maxTokens r = of_nat burst \<and> 0 \<le> tokens r \<and> tokens r \<le> of_nat burst) \<and>
     fst (allow_all (replicate j t) (NewRateLimiter t rate (int burst))) = replicate (min j burst) True @ replicate (j - burst) False \<and>
     100 * millisecond \<le> wait_delay k allowed \<and> wait_delay k True < 2000 * millisecond \<and>
     wait_delay k False = 3000 * millisecond"
proof -
  have "wf_limiter burst (snd (allow_all ts (NewRateLimiter t rate (int burst))))"
    using assms by (intro allow_all_wf wf_NewRateLimiter) (simp_all add: NewRateLimiter_def)
  moreover have "int k < defaultMaxDelayMs - defaultMinDelayMs"
    using assms(4) by (simp add: rate_defaults)
  note wait_delay_bounds [OF this]
  ultimately show ?thesis
    using rate_limiter_burst [OF assms(1)] by (simp add: wf_limiter_def Let_def rate_defaults)
qed

theorem rate_limiter_bounds_witness:
  "(let r = snd (allow_all [5, 7] (NewRateLimiter 0 20 100)) in 0 \<le> tokens r \<and> tokens r \<le> 100) \<and>
   wait_delay 1899 True < 2000 * millisecond"
  using rate_limiter_bounds [of 100 20 0 "[5, 7]" 1899 0 True] by (simp add: Let_def)

section \<open>Targets of a rule\<close>

lemma dns_label_plain: "dns_label s \<Longrightarrow> plain_pattern s"
  by (auto simp: dns_label_def plain_pattern_def plain_char_def list_all_iff)

lemma dns_label_trim: "dns_label s \<Longrightarrow> strings_TrimSpace s = s"
proof -
  assume s: "dns_label s"
  then have "\<not> unicode_IsSpace (of_char c)" if "c \<in> set s" for c
    using that by (auto simp: dns_label_def list_all_iff is_alnum_def is_digit_def unicode_IsSpace_def)
  then show ?thesis
    using s dns_label_text [OF s] by (simp add: strings_TrimSpace_ascii trim_both_id dns_label_def)
qed

lemma glob_literal: "CHR ''*'' \<notin> set p \<Longrightarrow> glob p s \<longleftrightarrow> p = s"
proof (induction p arbitrary: s)
  case (Cons c p)
  then show ?case by (cases s) auto
qed auto

lemma glob_dns_label: "dns_label p \<Longrightarrow> glob p s \<longleftrightarrow> p = s"
  by (rule glob_literal) (auto simp: dns_label_def list_all_iff is_alnum_def is_digit_def)

text \<open>A set made of names, not patterns, contains exactly those names.\<close>

lemma AllowedNamespaces_names:
  assumes "list_all dns_label targets" "dns_label ns"
  shows "Matches (AllowedNamespaces_or_zero targets) ns \<longleftrightarrow> ns \<in> set targets"
proof -
  have "\<forall>p \<in> set targets. plain_pattern (strings_TrimSpace p)"
    using assms(1) by (auto simp: list_all_iff dns_label_trim dns_label_plain)
  from add_patterns_glob [OF this assms(2), of AllowedNamespaces_zero]
  obtain an where "NewAllowedNamespaces targets = Inr an" and
    "Matches an ns \<longleftrightarrow> (\<exists>p \<in> set targets. strings_TrimSpace p \<noteq> [] \<and> glob (strings_TrimSpace p) ns)"
    by (auto simp: NewAllowedNamespaces_def)
  moreover have "(\<exists>p \<in> set targets. strings_TrimSpace p \<noteq> [] \<and> glob (strings_TrimSpace p) ns) \<longleftrightarrow> ns \<in> set targets"
    using assms by (auto simp: list_all_iff dns_label_trim glob_dns_label dns_label_def)
  ultimately show ?thesis
    by (simp add: AllowedNamespaces_or_zero_def)
qed

lemma star_namespaces [simp]: "Matches (AllowedNamespaces_or_zero [''*'']) ns"
  by (simp add: AllowedNamespaces_or_zero_def NewAllowedNamespaces_def strings_TrimSpace_ascii ascii_def trim_both_def
      unicode_IsSpace_def Matches_def)

lemma rule_source_sel [simp]:
  "source_namespace (rule_source rt ns n v rule targets) = ns" "source_name (rule_source rt ns n v rule targets) = n"
  "source_id (rule_source rt ns n v rule targets) = NewSourceID ns n"
  "source_resourceType (rule_source rt ns n v rule targets) = rt" "source_version (rule_source rt ns n v rule targets) = v"
  "source_allowed (rule_source rt ns n v rule targets)"
  "source_allowedNamespaces (rule_source rt ns n v rule targets) = AllowedNamespaces_or_zero [''*'']"
  "source_autoEnabled (rule_source rt ns n v rule targets) \<longleftrightarrow> targets \<noteq> []"
  "targets \<noteq> [] \<Longrightarrow> source_autoNamespaces (rule_source rt ns n v rule targets) = AllowedNamespaces_or_zero targets"
  by (auto simp: rule_source_def record_defs Let_def)

lemma wf_rule_source [simp]: "wf_source (rule_source rt ns n v rule targets)"
  by (simp add: rule_source_def Let_def)

lemma rule_source_reflects [simp]: "CanReflectToNamespace (rule_source rt ns n v rule targets) target"
  by (simp add: CanReflectToNamespace_def)

lemma rule_source_auto:
  assumes "list_all dns_label targets" "dns_label target"
  shows "CanAutoMirrorToNamespace (rule_source rt ns n v rule targets) target \<longleftrightarrow> target \<in> set targets"
proof (cases "targets = []")
  case False
  then obtain t ts where "targets = t # ts" by (cases targets) auto
  with assms(1) have "Matches (AllowedNamespaces_or_zero targets) t"
    using AllowedNamespaces_names [OF assms(1), of t] by simp
  then have "\<not> IsEmpty (AllowedNamespaces_or_zero targets)"
    using IsEmpty_no_match wf_allowed_or_zero by blast
  with False show ?thesis
    using AllowedNamespaces_names [OF assms] by (simp add: CanAutoMirrorToNamespace_def)
qed (simp add: CanAutoMirrorToNamespace_def)

lemma dns_label_not_special: "dns_label s \<Longrightarrow> c \<in> set s \<Longrightarrow> is_alnum (of_char c) \<or> c = CHR ''-''"
  by (auto simp: dns_label_def list_all_iff)

lemma affix_chars: "strings_HasPrefix s p \<Longrightarrow> set p \<subseteq> set s" "strings_HasSuffix s p \<Longrightarrow> set p \<subseteq> set s"
  unfolding strings_HasPrefix_def strings_HasSuffix_def by (metis set_take_subset, metis set_drop_subset)

lemma selector_regex_name:
  assumes "dns_label s"
  shows "selector_regex s = pattern_regex s"
proof -
  have no: "CHR ''^'' \<notin> set s" "CHR ''.'' \<notin> set s" "CHR ''$'' \<notin> set s" "CHR ''*'' \<notin> set s"
    using assms by (auto dest: dns_label_not_special simp: is_alnum_def is_digit_def)
  have "\<not> strings_HasPrefix s ''^''" "\<not> strings_HasPrefix s ''.*''" "\<not> strings_HasSuffix s ''$''" "\<not> strings_HasSuffix s ''.*''"
    using no by (auto dest!: affix_chars)
  moreover have "concat (map glob_text s) = s"
    using no by (induction s) (auto simp: glob_text_def)
  ultimately show ?thesis
    using pattern_regex_plain [OF dns_label_plain [OF assms]] by (simp add: selector_regex_def)
qed

text \<open>A selector without metacharacters selects one name.\<close>

lemma compileSelector_name:
  assumes "dns_label s"
  shows "\<exists>re. compileSelector s = Inr re \<and> (\<forall>name. dns_label name \<longrightarrow> (regexp_MatchString re name \<longleftrightarrow> name = s))"
proof -
  obtain re where re: "regexp_Compile (pattern_regex s) = Inr re"
    using plain_pattern_match [OF dns_label_plain [OF assms] assms] by blast
  have "regexp_MatchString re name \<longleftrightarrow> name = s" if "dns_label name" for name
    using plain_pattern_match [OF dns_label_plain [OF assms] that] re glob_dns_label [OF assms, of name]
    by (metis sum.inject(2))
  with re show ?thesis
    using assms by (auto simp: compileSelector_def selector_regex_name dns_label_def)
qed

end
