(* ===== verification/Api_Server.thy ===== *)
theory Api_Server
  imports Usecases
begin

text \<open>
  What the end-to-end theorems rely on of the API server: the documented behaviour of get, list, create
  and update, stated over the objects that a world contains. The example cluster behaves like that.
\<close>

section \<open>Objects\<close>

text \<open>The objects of a cluster, as far as replication reads and writes them.\<close>

record objects =
  obj_secrets :: "string \<times> string \<Rightarrow> Secret option"
  obj_configmaps :: "string \<times> string \<Rightarrow> ConfigMap option"
  obj_namespaces :: "string list"

abbreviation obj_key :: "'a k8s_object_scheme \<Rightarrow> string \<times> string" where
  "obj_key obj \<equiv> (Namespace obj, Name obj)"

text \<open>What the server keeps of a written object: everything but the fields it assigns itself.\<close>

definition kept :: "'a k8s_object_scheme \<Rightarrow> 'a k8s_object_scheme \<Rightarrow> bool" where
  "kept obj obj' \<longleftrightarrow> (\<exists>rv uid. obj' = obj\<lparr>ResourceVersion := rv, UID := uid\<rparr>)"

lemma kept_refl: "kept obj obj"
  unfolding kept_def by (intro exI [of _ "ResourceVersion obj"] exI [of _ "UID obj"]) simp

lemma kept_fields:
  assumes "kept obj obj'"
  shows "obj_key obj' = obj_key obj" "Annotations obj' = Annotations obj" "annotation obj' = annotation obj"
    "k8s_object.more obj' = k8s_object.more obj"
  using assms by (auto simp: kept_def annotation_def fun_eq_iff)

section \<open>The server\<close>

text \<open>One kind of object: a read answers with the object or with not-found; creating an object that does not
  exist and updating one that does succeed and put it under its key.\<close>

definition serves ::
  "(string \<Rightarrow> string \<Rightarrow> ('w, 'a k8s_object_scheme) call) \<Rightarrow> ('a k8s_object_scheme \<Rightarrow> 'w command) \<Rightarrow>
   ('a k8s_object_scheme \<Rightarrow> 'w command) \<Rightarrow> ('w \<Rightarrow> string \<times> string \<Rightarrow> 'a k8s_object_scheme option) \<Rightarrow> bool"
where
  "serves get create update objs \<longleftrightarrow>
     (\<forall>ns n w. fst (get ns n w) = (case objs w (ns, n) of None \<Rightarrow> Inl (ApiNotFound n) | Some obj \<Rightarrow> Inr obj)) \<and>
     (\<forall>w key obj. objs w key = Some obj \<longrightarrow> obj_key obj = key) \<and>
     (\<forall>obj w. objs w (obj_key obj) = None \<longrightarrow> fst (create obj w) = None \<and>
        (\<exists>obj'. kept obj obj' \<and> objs (snd (create obj w)) = (objs w)(obj_key obj \<mapsto> obj'))) \<and>
     (\<forall>obj w. objs w (obj_key obj) \<noteq> None \<longrightarrow> fst (update obj w) = None \<and>
        (\<exists>obj'. kept obj obj' \<and> objs (snd (update obj w)) = (objs w)(obj_key obj \<mapsto> obj')))"

text \<open>Reads change no object, so nobody else writes while an operation runs, and a write of one kind leaves
  the objects of the other kind and the namespaces alone.\<close>

definition keeps_view :: "('w \<Rightarrow> objects) \<Rightarrow> 'w \<Rightarrow> 'w \<Rightarrow> bool" where
  "keeps_view view w w' \<longleftrightarrow> view w' = view w"

definition only_secrets :: "objects \<Rightarrow> objects \<Rightarrow> bool" where
  "only_secrets v v' \<longleftrightarrow> obj_configmaps v' = obj_configmaps v \<and> obj_namespaces v' = obj_namespaces v"

definition only_configmaps :: "objects \<Rightarrow> objects \<Rightarrow> bool" where
  "only_configmaps v v' \<longleftrightarrow> obj_secrets v' = obj_secrets v \<and> obj_namespaces v' = obj_namespaces v"

definition api_server :: "'w client \<Rightarrow> ('w \<Rightarrow> objects) \<Rightarrow> bool" where
  "api_server c view \<longleftrightarrow> reads_keep (keeps_view view) c \<and>
     (\<forall>w. fst (list_namespaces c w) = Inr (obj_namespaces (view w))) \<and>
     serves (get_secret c) (create_secret c) (update_secret c) (\<lambda>w. obj_secrets (view w)) \<and>
     serves (get_configmap c) (create_configmap c) (update_configmap c) (\<lambda>w. obj_configmaps (view w)) \<and>
     (\<forall>obj w. only_secrets (view w) (view (snd (create_secret c obj w))) \<and> only_secrets (view w) (view (snd (update_secret c obj w)))) \<and>
     (\<forall>obj w. only_configmaps (view w) (view (snd (create_configmap c obj w))) \<and>
        only_configmaps (view w) (view (snd (update_configmap c obj w))))"

lemma api_serverD:
  assumes "api_server c view"
  shows "reads_keep (keeps_view view) c" "fst (list_namespaces c w) = Inr (obj_namespaces (view w))"
    and "serves (get_secret c) (create_secret c) (update_secret c) (\<lambda>w. obj_secrets (view w))"
    and "serves (get_configmap c) (create_configmap c) (update_configmap c) (\<lambda>w. obj_configmaps (view w))"
    and "only_secrets (view w) (view (snd (create_secret c sec w)))" "only_secrets (view w) (view (snd (update_secret c sec w)))"
    and "only_configmaps (view w) (view (snd (create_configmap c cm w)))"
    "only_configmaps (view w) (view (snd (update_configmap c cm w)))"
  using assms unfolding api_server_def by simp_all

lemma api_views:
  assumes "api_server c view"
  shows "view (snd (get_secret c ns n w)) = view w" "view (snd (get_configmap c ns n w)) = view w"
    "view (snd (clock c w)) = view w" "view (snd (list_namespaces c w)) = view w" "view (snd (map_order c w)) = view w"
  using api_serverD(1) [OF assms] by (simp_all add: reads_keep_def keeps_view_def)

lemma servesD:
  assumes "serves get create update objs"
  shows "fst (get ns n w) = (case objs w (ns, n) of None \<Rightarrow> Inl (ApiNotFound n) | Some obj \<Rightarrow> Inr obj)"
    and "objs w key = Some obj \<Longrightarrow> obj_key obj = key"
  using assms unfolding serves_def by (blast, blast)

lemma serves_create:
  assumes "serves get create update objs" and "objs w (obj_key obj) = None"
  obtains obj' where "fst (create obj w) = None" and "kept obj obj'" and "objs (snd (create obj w)) = (objs w)(obj_key obj \<mapsto> obj')"
proof -
  have "fst (create obj w) = None \<and> (\<exists>obj'. kept obj obj' \<and> objs (snd (create obj w)) = (objs w)(obj_key obj \<mapsto> obj'))"
    using assms unfolding serves_def by simp
  then show thesis
    using that by (elim conjE exE)
qed

lemma serves_update:
  assumes "serves get create update objs" and "objs w (obj_key obj) \<noteq> None"
  obtains obj' where "fst (update obj w) = None" and "kept obj obj'" and "objs (snd (update obj w)) = (objs w)(obj_key obj \<mapsto> obj')"
proof -
  have "fst (update obj w) = None \<and> (\<exists>obj'. kept obj obj' \<and> objs (snd (update obj w)) = (objs w)(obj_key obj \<mapsto> obj'))"
    using assms unfolding serves_def by (simp only: simp_thms not_None_eq)
  then show thesis
    using that by (elim conjE exE)
qed

section \<open>Writing a mirror\<close>

text \<open>A write at \<open>key\<close> that leaves an object with \<open>good\<close> there, or nothing changed.\<close>

definition writes_at :: "('k \<Rightarrow> 'o option) \<Rightarrow> ('k \<Rightarrow> 'o option) \<Rightarrow> 'k \<Rightarrow> ('o \<Rightarrow> bool) \<Rightarrow> bool" where
  "writes_at objs objs' key good \<longleftrightarrow> objs' = objs \<or> (\<exists>obj. good obj \<and> objs' = objs(key \<mapsto> obj))"

definition good_at :: "('k \<Rightarrow> 'o option) \<Rightarrow> 'k \<Rightarrow> ('o \<Rightarrow> bool) \<Rightarrow> bool" where
  "good_at objs key good \<longleftrightarrow> (\<exists>obj. objs key = Some obj \<and> good obj)"

text \<open>The read and the write that \<open>updateMirrorData\<close> performs for either kind: create the object if it does
  not exist, leave it if it is \<open>current\<close>, update it otherwise. \<open>rest\<close> is what none of the calls changes.\<close>

lemma serves_write:
  assumes "serves get create update objs" and "\<And>ns n w. objs (snd (get ns n w)) = objs w"
    and "\<And>obj'. kept new obj' \<Longrightarrow> good obj'" "obj_key new = (ns, n)"
    and "\<And>obj obj'. kept (upd obj) obj' \<Longrightarrow> good obj'" "\<And>obj. obj_key (upd obj) = obj_key obj"
    and rest: "\<And>ns n w. rest (snd (get ns n w)) = rest w" "\<And>obj w. rest (snd (create obj w)) = rest w"
    "\<And>obj w. rest (snd (update obj w)) = rest w"
  shows "\<exists>w. run_state (do {
       r \<leftarrow> api (get ns n);
       case r of
         Inl err \<Rightarrow> if \<not> IsNotFound err then return (Some err) else api (create new)
       | Inr obj \<Rightarrow> if current obj then return None else api (update (upd obj)) }) s = (None, s\<lparr>world := w\<rparr>) \<and>
     writes_at (objs (world s)) (objs w) (ns, n) good \<and> rest w = rest (world s) \<and>
     ((\<forall>obj. objs (world s) (ns, n) = Some obj \<and> current obj \<longrightarrow> good obj) \<longrightarrow> good_at (objs w) (ns, n) good)"
proof -
  let ?w = "snd (get ns n (world s))"
  note get = servesD(1) [OF assms(1), of ns n "world s"]
  show ?thesis
  proof (cases "objs (world s) (ns, n)")
    case None
    then have "objs ?w (obj_key new) = None"
      using assms(2,4) by simp
    with assms(1) obtain obj' where "fst (create new ?w) = None" "kept new obj'"
      "objs (snd (create new ?w)) = (objs ?w)(obj_key new \<mapsto> obj')"
      by (rule serves_create)
    moreover from this(2) have "good obj'" by (rule assms(3))
    ultimately show ?thesis
      using None get assms(2,4)
      by (intro exI [of _ "snd (create new ?w)"]) (auto simp: writes_at_def good_at_def rest intro!: exI [of _ obj'])
  next
    case (Some obj)
    show ?thesis
    proof (cases "current obj")
      case True
      then show ?thesis
        using Some get assms(2) by (intro exI [of _ ?w]) (simp add: writes_at_def good_at_def rest)
    next
      case False
      have key: "obj_key (upd obj) = (ns, n)"
        using servesD(2) [OF assms(1) Some] assms(6) by simp
      with Some have "objs ?w (obj_key (upd obj)) \<noteq> None"
        using assms(2) by simp
      with assms(1) obtain obj' where "fst (update (upd obj) ?w) = None" "kept (upd obj) obj'"
        "objs (snd (update (upd obj) ?w)) = (objs ?w)(obj_key (upd obj) \<mapsto> obj')"
        by (rule serves_update)
      moreover from this(2) have "good obj'" by (rule assms(5))
      ultimately show ?thesis
        using Some False get key assms(2)
        by (intro exI [of _ "snd (update (upd obj) ?w)"]) (auto simp: writes_at_def good_at_def rest intro!: exI [of _ obj'])
    qed
  qed
qed

section \<open>The example cluster\<close>

definition cluster_view :: "cluster \<Rightarrow> objects" where
  "cluster_view w =
     \<lparr>obj_secrets = (\<lambda>(ns, n). map_option (\<lambda>obj. obj\<lparr>Namespace := ns, Name := n\<rparr>) (cl_secrets w (ns, n))),
      obj_configmaps = (\<lambda>(ns, n). map_option (\<lambda>obj. obj\<lparr>Namespace := ns, Name := n\<rparr>) (cl_configmaps w (ns, n))),
      obj_namespaces = cl_namespaces w\<rparr>"

lemma cluster_view_put:
  "cluster_view (put_secret sec w) = (cluster_view w)\<lparr>obj_secrets := (obj_secrets (cluster_view w))(obj_key sec \<mapsto> sec)\<rparr>"
  "cluster_view (put_configmap cm w) = (cluster_view w)\<lparr>obj_configmaps := (obj_configmaps (cluster_view w))(obj_key cm \<mapsto> cm)\<rparr>"
  by (auto simp: cluster_view_def put_secret_def put_configmap_def fun_eq_iff)

lemma cluster_serves:
  "serves (get_secret cluster_client) (create_secret cluster_client) (update_secret cluster_client) (\<lambda>w. obj_secrets (cluster_view w))"
  "serves (get_configmap cluster_client) (create_configmap cluster_client) (update_configmap cluster_client)
     (\<lambda>w. obj_configmaps (cluster_view w))"
proof -
  have read: "fst (get_secret cluster_client ns n w) = not_found n (obj_secrets (cluster_view w) (ns, n))"
    "fst (get_configmap cluster_client ns n w) = not_found n (obj_configmaps (cluster_view w) (ns, n))"
    and key: "obj_secrets (cluster_view w) k = Some sec \<Longrightarrow> obj_key sec = k" "obj_configmaps (cluster_view w) k = Some cm \<Longrightarrow> obj_key cm = k"
    for ns n w k sec cm
    by (auto simp: cluster_client_def cluster_view_def split: prod.splits)
  have put: "create_secret cluster_client sec w = (None, put_secret sec w)" "update_secret cluster_client sec w = (None, put_secret sec w)"
    "create_configmap cluster_client cm w = (None, put_configmap cm w)" "update_configmap cluster_client cm w = (None, put_configmap cm w)"
    for sec cm w
    by (simp_all add: cluster_client_def)
  show "serves (get_secret cluster_client) (create_secret cluster_client) (update_secret cluster_client)
      (\<lambda>w. obj_secrets (cluster_view w))"
    unfolding serves_def read put by (auto simp: cluster_view_put not_found_def intro: kept_refl dest: key)
  show "serves (get_configmap cluster_client) (create_configmap cluster_client) (update_configmap cluster_client)
      (\<lambda>w. obj_configmaps (cluster_view w))"
    unfolding serves_def read put by (auto simp: cluster_view_put not_found_def intro: kept_refl dest: key)
qed

lemma cluster_api_server: "api_server cluster_client cluster_view"
  unfolding api_server_def
  by (intro conjI allI cluster_serves)
    (auto simp: reads_keep_def keeps_view_def reflp_def transp_def cluster_client_def cluster_view_def put_secret_def
      put_configmap_def only_secrets_def only_configmaps_def)

end
