(* ===== verification/Mirrored_Kind.thy ===== *)
theory Mirrored_Kind
  imports Api_Server
begin

text \<open>
  One run of the replication use case on an API server that behaves as documented, for either kind of
  object: a locale states what the run relies on of a kind (reading the source, writing a mirror, the
  check for conflicts), and what the run achieves is proved once inside it.
\<close>

section \<open>Shared\<close>

abbreviation mirror_key :: "Mirror \<Rightarrow> string \<times> string" where
  "mirror_key m \<equiv> (mirror_namespace m, mirror_name m)"

lemma kept_views:
  assumes "reads_keep (keeps_view view) c"
  shows "view (snd (get_secret c ns n w)) = view w" "view (snd (get_configmap c ns n w)) = view w"
    "view (snd (clock c w)) = view w" "view (snd (list_namespaces c w)) = view w" "view (snd (map_order c w)) = view w"
  using assms by (simp_all add: reads_keep_def keeps_view_def)

text \<open>An operation that only reads touches the world only and leaves the objects.\<close>

lemma io_view:
  assumes "state_io_rel (world_rel (keeps_view view)) m" and "dispatcher s = NewInMemoryDispatcher"
  shows "view (world (snd (run_state m s))) = view (world s)" "dispatcher (snd (run_state m s)) = NewInMemoryDispatcher"
  using io_run [OF assms(1), of s] assms(2) by (simp_all add: world_rel_def handlers_keep_def keeps_view_def)

lemma run_world_only:
  assumes "state_io_rel world_only m"
  obtains r w where "run_state m s = (r, s\<lparr>world := w\<rparr>)"
  using assms that unfolding state_io_rel_def world_only_def by (metis prod.collapse)

lemma read_source_data_world: "state_io_rel world_only (read_source_data c source)"
  unfolding read_source_data_def GetSecret_def GetConfigMap_def
  by (intro io_if io_bind io_return io_world_only frame_world_only)

text \<open>A mirror that the use case takes to be up to date must really be.\<close>

definition clear_at :: "('k \<Rightarrow> 'o option) \<Rightarrow> 'k \<Rightarrow> ('o \<Rightarrow> bool) \<Rightarrow> ('o \<Rightarrow> bool) \<Rightarrow> bool" where
  "clear_at objs key current good \<longleftrightarrow> (\<forall>obj. objs key = Some obj \<and> current obj \<longrightarrow> good obj)"

lemma nth_list_update': "xs[p := y] ! q = (if q = p \<and> p < length xs then y else xs ! q)"
  by (cases "p < length xs") (auto simp: nth_list_update list_update_beyond)

lemma writes_at_same [simp]: "writes_at objs objs key good"
  by (simp add: writes_at_def)

lemma writes_at_keeps:
  assumes "writes_at objs objs' key good"
  shows "good_at objs k good \<Longrightarrow> good_at objs' k good"
    "clear_at objs k current good \<Longrightarrow> clear_at objs' k current good"
    "k \<noteq> key \<Longrightarrow> objs' k = objs k"
  using assms by (auto simp: writes_at_def good_at_def clear_at_def split: if_splits)

section \<open>One mirror\<close>

lemma service_Reflect_run:
  assumes "reads_keep (keeps_view view) c" "dispatcher s = NewInMemoryDispatcher"
    and "CanReflectToNamespace source (mirror_namespace (heap s ! p))" "mirror_version (heap s ! p) \<noteq> source_version source"
  obtains w where "run_state (service_Reflect c source p) s =
      ((None, Mirror_SetVersion (source_version source) (heap s ! p)),
       s\<lparr>heap := (heap s)[p := Mirror_SetVersion (source_version source) (heap s ! p)], world := w\<rparr>)"
    and "view w = view (world s)"
proof -
  have "source_allowed source"
    using assms(3) by (simp add: CanReflectToNamespace_def split: if_splits)
  then show thesis
    using assms(2-4) that [of "snd (clock c (world s))"] kept_views(3) [OF assms(1)]
    by (simp add: service_Reflect_def Reflect_def Let_def case_prod_beta)
qed

lemma service_Reflect_refused:
  assumes "\<not> (CanReflectToNamespace source (mirror_namespace (heap s ! p)) \<and> mirror_version (heap s ! p) \<noteq> source_version source)"
  shows "\<exists>e. run_state (service_Reflect c source p) s = ((Some e, heap s ! p), s)"
proof -
  obtain e where "Reflect (clock c) (Dispatch (dispatcher s)) source (heap s ! p) (world s) = (Some e, heap s ! p, world s)"
    using assms that by (cases "source_allowed source"; cases "CanReflectToNamespace source (mirror_namespace (heap s ! p))")
      (auto simp: Reflect_refused)
  then show ?thesis
    by (simp add: service_Reflect_def)
qed

section \<open>The mirrors registered before the loop\<close>

text \<open>Creating auto mirrors never touches a mirror that is already stored, and registers a mirror for a
  namespace where nothing of the name exists.\<close>

lemma stored_put_new:
  assumes "wf_store s"
  shows "stored (store_put i (length (heap s)) (s\<lparr>heap := heap s @ [m]\<rparr>)) = (stored s)(i \<mapsto> m)"
proof -
  have "map_of (mirrors s) j = Some p \<Longrightarrow> p < length (heap s)" for j p
    using wf_store_entry(1) [OF assms] by (auto dest: map_of_SomeD)
  then show ?thesis
    by (auto simp: fun_eq_iff stored_def store_put_def map_of_update nth_append map_option_case split: option.splits)
qed

abbreviation auto_mirror :: "Source \<Rightarrow> string \<Rightarrow> Mirror" where
  "auto_mirror source ns \<equiv> NewAutoMirror (NewMirrorID ns (TargetName source)) (source_id source) ns (TargetName source)
     (source_resourceType source)"

lemma create_auto_mirror_cases:
  obtains (present) "stored s (NewMirrorID ns (TargetName source)) \<noteq> None"
      "run_state (createAutoMirrorIfNotExists c source ns) s = (None, s)"
  | (conflict) w where "stored s (NewMirrorID ns (TargetName source)) = None"
      "fst (run_state (checkForConflicts c source ns) s) \<noteq> None"
      "snd (run_state (createAutoMirrorIfNotExists c source ns) s) = s\<lparr>world := w\<rparr>"
  | (created) w ms where "stored s (NewMirrorID ns (TargetName source)) = None"
      "fst (run_state (checkForConflicts c source ns) s) = None"
      "snd (run_state (createAutoMirrorIfNotExists c source ns) s) =
        (store_put (NewMirrorID ns (TargetName source)) (length (heap s))
          (s\<lparr>heap := heap s @ [auto_mirror source ns]\<rparr>))\<lparr>world := w, metrics := ms\<rparr>"
proof -
  let ?i = "NewMirrorID ns (TargetName source)"
  have "state_io_rel world_only (checkForConflicts c source ns)"
    unfolding checkForConflicts_def GetSecret_def GetConfigMap_def
    by (intro io_if io_bind io_case_sum io_return io_world_only frame_world_only)
  then obtain w where "snd (run_state (checkForConflicts c source ns) s) = s\<lparr>world := w\<rparr>"
    unfolding state_io_rel_def world_only_def by blast
  then obtain r where chk: "run_state (checkForConflicts c source ns) s = (r, s\<lparr>world := w\<rparr>)"
    by (metis prod.collapse)
  show thesis
  proof (cases "map_of (mirrors s) ?i")
    case (Some p)
    then show thesis
      by (intro present) (simp_all add: stored_def createAutoMirrorIfNotExists_def MirrorStore_Get_def)
  next
    case None
    show thesis
    proof (cases r)
      case (Some e)
      with None chk show thesis
        by (intro conflict [of w]) (simp_all add: stored_def createAutoMirrorIfNotExists_def MirrorStore_Get_def)
    next
      case None: None
      with \<open>map_of (mirrors s) ?i = None\<close> chk show thesis
        by (intro created [of "metrics s @ RecordAutoMirrorCreated ns" w])
          (simp_all add: stored_def createAutoMirrorIfNotExists_def MirrorStore_Get_def MirrorStore_Create_def
             store_put_def NewAutoMirror_def NewMirror_def)
    qed
  qed
qed

lemma create_auto_mirror_stored:
  assumes "wf_store s" and "s' = snd (run_state (createAutoMirrorIfNotExists c source ns) s)"
  shows "stored s i = Some m \<Longrightarrow> stored s' i = Some m"
    and "i \<noteq> NewMirrorID ns (TargetName source) \<Longrightarrow> stored s' i = stored s i"
    and "fst (run_state (checkForConflicts c source ns) s) = None \<Longrightarrow> stored s (NewMirrorID ns (TargetName source)) = None \<Longrightarrow>
      stored s' (NewMirrorID ns (TargetName source)) = Some (auto_mirror source ns)"
proof -
  note put = stored_put_new [OF assms(1)]
  show "stored s' i = Some m" if i: "stored s i = Some m"
  proof (cases rule: create_auto_mirror_cases [of s ns source c])
    case (created ms w)
    then have "i \<noteq> NewMirrorID ns (TargetName source)"
      using i by force
    with created i show ?thesis
      by (auto simp: assms(2) put)
  qed (auto simp: assms(2) i)
  show "i \<noteq> NewMirrorID ns (TargetName source) \<Longrightarrow> stored s' i = stored s i"
    by (cases rule: create_auto_mirror_cases [of s ns source c]) (auto simp: assms(2) put)
  show "fst (run_state (checkForConflicts c source ns) s) = None \<Longrightarrow> stored s (NewMirrorID ns (TargetName source)) = None \<Longrightarrow>
      stored s' (NewMirrorID ns (TargetName source)) = Some (auto_mirror source ns)"
    by (cases rule: create_auto_mirror_cases [of s ns source c]) (auto simp: assms(2) put)
qed

text \<open>The loop over the namespaces, up to what it does to the objects of the cluster.\<close>

definition auto_mirror_step :: "'w client \<Rightarrow> Source \<Rightarrow> string \<Rightarrow> ('w sys, go_error option) state" where
  "auto_mirror_step c source ns =
     (if ns = source_namespace source then return None
      else if \<not> CanAutoMirrorToNamespace source ns then return None
      else createAutoMirrorIfNotExists c source ns)"

lemma auto_mirror_loop_stored:
  assumes "wf_store s" and "s' = snd (run_state (for_each nss (auto_mirror_step c source)) s)"
  shows "wf_store s' \<and> (stored s i = Some m \<longrightarrow> stored s' i = Some m) \<and>
     (i \<notin> (\<lambda>ns. NewMirrorID ns (TargetName source)) ` set nss \<longrightarrow> stored s' i = stored s i)"
  using assms
proof (induction nss arbitrary: s)
  case Nil
  then show ?case by simp
next
  case (Cons ns nss)
  let ?t = "snd (run_state (auto_mirror_step c source ns) s)"
  have "wf_store ?t"
    using io_keepsD [OF io_wf_createAutoMirror Cons.prems(1), of c source ns] Cons.prems(1) by (simp add: auto_mirror_step_def)
  moreover have "stored s i = Some m \<Longrightarrow> stored ?t i = Some m"
    "i \<noteq> NewMirrorID ns (TargetName source) \<Longrightarrow> stored ?t i = stored s i"
    using create_auto_mirror_stored [OF Cons.prems(1) refl, where c = c and source = source and ns = ns]
    by (simp_all add: auto_mirror_step_def)
  ultimately show ?case
    using Cons.IH [of ?t] Cons.prems(2) by (simp add: case_prod_beta)
qed


text \<open>The mirrors that the reflection service refuses to replicate to.\<close>

definition refused :: "Source \<Rightarrow> Mirror \<Rightarrow> bool" where
  "refused source m \<longleftrightarrow> \<not> (CanReflectToNamespace source (mirror_namespace m) \<and> mirror_version m \<noteq> source_version source)"

lemma refused_SetVersion [simp]: "refused source (Mirror_SetVersion (source_version source) m)"
  by (simp add: refused_def Mirror_SetVersion_def)

lemma SetVersion_fields [simp]:
  "mirror_namespace (Mirror_SetVersion v m) = mirror_namespace m" "mirror_name (Mirror_SetVersion v m) = mirror_name m"
  "mirror_sourceID (Mirror_SetVersion v m) = mirror_sourceID m"
  by (simp_all add: Mirror_SetVersion_def)

text \<open>The part of the use case that follows the creation of automatic mirrors.\<close>

definition fill_mirrors :: "'w client \<Rightarrow> Source \<Rightarrow> ('w sys, go_error option) state" where
  "fill_mirrors c source = do {
     cleanupAutoMirrorsWhenNoLongerAllowed c source;
     r \<leftarrow> GetBySourceID c (source_id source);
     case r of
       Inl err \<Rightarrow> return (Some (Wrapped (''failed to get mirrors for source '' @ SourceID_String (source_id source)) err))
     | Inr ps \<Rightarrow> do { for_each ps (\<lambda>p. reflectToMirror c source p); return None } }"

lemma Execute_allowed:
  "ValidateSource (Some source) = None \<Longrightarrow> source_allowed source \<Longrightarrow>
   ReflectResources_Execute c source = do {
     autoErr \<leftarrow> (if source_autoEnabled source then handleAutoMirrors c source else return None);
     case autoErr of Some err \<Rightarrow> return (Some err) | None \<Rightarrow> fill_mirrors c source }"
  unfolding ReflectResources_Execute_def fill_mirrors_def by (simp only: option.case simp_thms if_False not_True_eq_False)

text \<open>Every namespace that is to have an automatic mirror has one, or has a conflict.\<close>

definition all_mirrored :: "'w client \<Rightarrow> Source \<Rightarrow> string list \<Rightarrow> 'w sys \<Rightarrow> bool" where
  "all_mirrored c source nss s \<longleftrightarrow>
     (\<forall>ns \<in> set nss. ns \<noteq> source_namespace source \<and> CanAutoMirrorToNamespace source ns \<longrightarrow>
        stored s (NewMirrorID ns (TargetName source)) \<noteq> None \<or> fst (run_state (checkForConflicts c source ns) s) \<noteq> None)"

section \<open>Kinds of objects\<close>

text \<open>
  \<open>objs\<close> are the objects of the kind, \<open>content\<close> is what the use case reads of a source, \<open>good\<close> says that
  an object is an up-to-date mirror of a source with that content, and \<open>current\<close> is the test by which
  the use case takes an object to be up to date. \<open>server\<close> is what is assumed of the API server.
\<close>

locale mirrored_kind =
  fixes server :: "'w client \<Rightarrow> ('w \<Rightarrow> objects) \<Rightarrow> bool"
    and rtype :: ResourceType
    and objs :: "objects \<Rightarrow> string \<times> string \<Rightarrow> 'o option"
    and content :: "'o \<Rightarrow> string_map \<times> string"
    and good :: "Source \<Rightarrow> string_map \<times> string \<Rightarrow> 'o \<Rightarrow> bool"
    and current :: "Source \<Rightarrow> 'o \<Rightarrow> bool"
  assumes server_reads: "server c view \<Longrightarrow> reads_keep (keeps_view view) c"
    and server_namespaces: "server c view \<Longrightarrow> fst (list_namespaces c w) = Inr (obj_namespaces (view w))"
    and good_content: "good source (content obj) obj' \<Longrightarrow> content obj' = content obj"
    and read_source: "server c view \<Longrightarrow> source_resourceType source = rtype \<Longrightarrow>
      fst (run_state (read_source_data c source) s) =
        (case objs (view (world s)) (source_namespace source, source_name source) of
           None \<Rightarrow> Inl (ApiNotFound (source_name source)) | Some obj \<Rightarrow> Inr (content obj))"
    and update_mirror: "server c view \<Longrightarrow>
      \<exists>r w. run_state (updateMirrorData c source m dat st) s = (r, s\<lparr>world := w\<rparr>) \<and>
        writes_at (objs (view (world s))) (objs (view w)) (mirror_key m) (good source (dat, st)) \<and>
        obj_namespaces (view w) = obj_namespaces (view (world s)) \<and>
        (mirror_resourceType m = rtype \<and> clear_at (objs (view (world s))) (mirror_key m) (current source) (good source (dat, st)) \<longrightarrow>
           r = None \<and> good_at (objs (view w)) (mirror_key m) (good source (dat, st)))"
    and conflict_free: "server c view \<Longrightarrow> source_resourceType source = rtype \<Longrightarrow>
      objs (view (world s)) (ns, TargetName source) = None \<Longrightarrow> fst (run_state (checkForConflicts c source ns) s) = None"
    and conflict_local: "server c view \<Longrightarrow> source_resourceType source = rtype \<Longrightarrow>
      objs (view (world t)) (ns, TargetName source) = objs (view (world s)) (ns, TargetName source) \<Longrightarrow>
      fst (run_state (checkForConflicts c source ns) t) = fst (run_state (checkForConflicts c source ns) s)"
begin

text \<open>What the loop over the mirrors relies on: a dispatcher without handlers, and the source with its content.\<close>

definition present :: "('w \<Rightarrow> objects) \<Rightarrow> Source \<Rightarrow> 'o \<Rightarrow> 'w sys \<Rightarrow> bool" where
  "present view source src s \<longleftrightarrow> dispatcher s = NewInMemoryDispatcher \<and>
     (\<exists>obj. objs (view (world s)) (source_namespace source, source_name source) = Some obj \<and> content obj = content src)"

lemma read_present:
  assumes "server c view" "source_resourceType source = rtype" "present view source src s"
  obtains w where "run_state (read_source_data c source) s = (Inr (content src), s\<lparr>world := w\<rparr>)" and "view w = view (world s)"
proof -
  note keep = server_reads [OF assms(1)]
  obtain r w where run: "run_state (read_source_data c source) s = (r, s\<lparr>world := w\<rparr>)"
    using read_source_data_world by (rule run_world_only)
  have "state_io_rel (world_rel (keeps_view view)) (read_source_data c source)"
    unfolding read_source_data_def
    by (intro io_if io_bind io_return io_world_create(6,7) [OF keep] frame_world_rel [OF keep])
  then have "view w = view (world s)"
    using io_view(1) [of view "read_source_data c source" s] assms(3) run by (simp add: present_def)
  moreover have "r = Inr (content src)"
    using read_source [OF assms(1,2), of s] assms(3) run by (auto simp: present_def)
  ultimately show thesis
    using run that by blast
qed

lemma reflectToMirror_run:
  assumes "server c view" "source_resourceType source = rtype" "present view source src s"
    and "s' = snd (run_state (reflectToMirror c source p) s)"
  shows "dispatcher s' = dispatcher s" "mirrors s' = mirrors s"
    "heap s' = (if refused source (heap s ! p) then heap s
       else (heap s)[p := Mirror_SetVersion (source_version source) (heap s ! p)])"
    "obj_namespaces (view (world s')) = obj_namespaces (view (world s))"
    "writes_at (objs (view (world s))) (objs (view (world s'))) (mirror_key (heap s ! p)) (good source (content src))"
    "refused source (heap s ! p) \<Longrightarrow> view (world s') = view (world s)"
    "\<not> refused source (heap s ! p) \<Longrightarrow> mirror_resourceType (heap s ! p) = rtype \<Longrightarrow>
     clear_at (objs (view (world s))) (mirror_key (heap s ! p)) (current source) (good source (content src)) \<Longrightarrow>
     good_at (objs (view (world s'))) (mirror_key (heap s ! p)) (good source (content src))"
proof -
  let ?m = "heap s ! p"
  let ?s1 = "s\<lparr>world := snd (clock c (world s))\<rparr>"
  note views = kept_views [OF server_reads [OF assms(1)]]
  have now: "run_state (time_Now c) t = (fst (clock c (world t)), t\<lparr>world := snd (clock c (world t))\<rparr>)" for t :: "'w sys"
    by (simp add: time_Now_def)
  have s1: "present view source src ?s1"
    using assms(3) by (simp add: present_def views)
  obtain w2 where rd: "run_state (read_source_data c source) ?s1 = (Inr (content src), s\<lparr>world := w2\<rparr>)"
    and w2: "view w2 = view (world s)"
    using read_present [OF assms(1,2) s1] by (auto simp: views)
  obtain dat st where dat: "content src = (dat, st)"
    by fastforce
  let ?s2 = "s\<lparr>world := w2\<rparr>"
  have "dispatcher s' = dispatcher s \<and> mirrors s' = mirrors s \<and>
    heap s' = (if refused source ?m then heap s else (heap s)[p := Mirror_SetVersion (source_version source) ?m]) \<and>
    obj_namespaces (view (world s')) = obj_namespaces (view (world s)) \<and>
    writes_at (objs (view (world s))) (objs (view (world s'))) (mirror_key ?m) (good source (content src)) \<and>
    (refused source ?m \<longrightarrow> view (world s') = view (world s)) \<and>
    (\<not> refused source ?m \<and> mirror_resourceType ?m = rtype \<and>
     clear_at (objs (view (world s))) (mirror_key ?m) (current source) (good source (content src)) \<longrightarrow>
     good_at (objs (view (world s'))) (mirror_key ?m) (good source (content src)))"
  proof (cases "refused source ?m")
    case True
    then have "\<not> (CanReflectToNamespace source (mirror_namespace (heap ?s2 ! p)) \<and> mirror_version (heap ?s2 ! p) \<noteq> source_version source)"
      by (simp add: refused_def)
    from service_Reflect_refused [OF this]
    obtain e where "run_state (service_Reflect c source p) ?s2 = ((Some e, heap ?s2 ! p), ?s2)"
      by blast
    then have "dispatcher s' = dispatcher s" "heap s' = heap s" "mirrors s' = mirrors s" "world s' = w2"
      by (simp_all add: assms(4) reflectToMirror_def now rd dat)
    with True w2 show ?thesis
      by simp
  next
    case False
    then have perm: "dispatcher ?s2 = NewInMemoryDispatcher" "CanReflectToNamespace source (mirror_namespace (heap ?s2 ! p))"
      "mirror_version (heap ?s2 ! p) \<noteq> source_version source"
      using assms(3) by (simp_all add: present_def refused_def)
    let ?m' = "Mirror_SetVersion (source_version source) ?m"
    obtain w3 where sr: "run_state (service_Reflect c source p) ?s2 = ((None, ?m'), s\<lparr>heap := (heap s)[p := ?m'], world := w3\<rparr>)"
      and w3: "view w3 = view (world s)"
      using service_Reflect_run [OF server_reads [OF assms(1)] perm] by (auto simp: w2)
    let ?s3 = "s\<lparr>heap := (heap s)[p := ?m'], world := w3\<rparr>"
    obtain r w4 where up: "run_state (updateMirrorData c source ?m' dat st) ?s3 = (r, ?s3\<lparr>world := w4\<rparr>)"
      and wr: "writes_at (objs (view (world s))) (objs (view w4)) (mirror_key ?m) (good source (content src))"
      "obj_namespaces (view w4) = obj_namespaces (view (world s))"
      and gd: "mirror_resourceType ?m = rtype \<Longrightarrow>
        clear_at (objs (view (world s))) (mirror_key ?m) (current source) (good source (content src)) \<Longrightarrow>
        good_at (objs (view w4)) (mirror_key ?m) (good source (content src))"
      using update_mirror [OF assms(1), of source ?m' dat st ?s3] by (auto simp: w3 Mirror_SetVersion_def dat)
    have "dispatcher s' = dispatcher s" "heap s' = (heap s)[p := ?m']" "mirrors s' = mirrors s" "view (world s') = view w4"
      by (cases r; simp add: assms(4) reflectToMirror_def now rd dat sr up time_Since_def views)+
    with False wr gd show ?thesis
      by simp
  qed
  then show "dispatcher s' = dispatcher s" "mirrors s' = mirrors s"
    "heap s' = (if refused source ?m then heap s else (heap s)[p := Mirror_SetVersion (source_version source) ?m])"
    "obj_namespaces (view (world s')) = obj_namespaces (view (world s))"
    "writes_at (objs (view (world s))) (objs (view (world s'))) (mirror_key ?m) (good source (content src))"
    "refused source ?m \<Longrightarrow> view (world s') = view (world s)"
    "\<not> refused source ?m \<Longrightarrow> mirror_resourceType ?m = rtype \<Longrightarrow>
     clear_at (objs (view (world s))) (mirror_key ?m) (current source) (good source (content src)) \<Longrightarrow>
     good_at (objs (view (world s'))) (mirror_key ?m) (good source (content src))"
    by blast+
qed

lemma present_step:
  assumes "server c view" "source_resourceType source = rtype" "present view source src s"
  shows "present view source src (snd (run_state (reflectToMirror c source p) s))"
proof -
  note one = reflectToMirror_run [OF assms refl, of p]
  obtain obj where obj: "objs (view (world s)) (source_namespace source, source_name source) = Some obj" "content obj = content src"
    using assms(3) by (auto simp: present_def)
  with one(5) good_content show ?thesis
    using assms(3) one(1) unfolding present_def writes_at_def by (auto simp del: split_paired_All)
qed

text \<open>One step of the loop, as seen from the other cells of the heap.\<close>

lemma step_cells:
  assumes "server c view" "source_resourceType source = rtype" "present view source src s"
    and "t = snd (run_state (reflectToMirror c source p) s)"
  shows "mirror_key (heap t ! q) = mirror_key (heap s ! q)" "mirror_sourceID (heap t ! q) = mirror_sourceID (heap s ! q)"
    "q \<noteq> p \<Longrightarrow> heap t ! q = heap s ! q" "refused source (heap s ! p) \<Longrightarrow> heap t = heap s" "length (heap t) = length (heap s)"
    "q < length (heap s) \<Longrightarrow> q = p \<or> refused source (heap s ! q) \<Longrightarrow> refused source (heap t ! q)"
proof -
  let ?m = "Mirror_SetVersion (source_version source) (heap s ! p)"
  note heap = reflectToMirror_run(3) [OF assms]
  have cell: "heap t ! q = (if \<not> refused source (heap s ! p) \<and> q = p \<and> p < length (heap s) then ?m else heap s ! q)" for q
    unfolding heap by (simp add: nth_list_update')
  show "mirror_key (heap t ! q) = mirror_key (heap s ! q)" "mirror_sourceID (heap t ! q) = mirror_sourceID (heap s ! q)"
    "q \<noteq> p \<Longrightarrow> heap t ! q = heap s ! q" "q < length (heap s) \<Longrightarrow> q = p \<or> refused source (heap s ! q) \<Longrightarrow> refused source (heap t ! q)"
    unfolding cell by auto
  show "refused source (heap s ! p) \<Longrightarrow> heap t = heap s" "length (heap t) = length (heap s)"
    unfolding heap by simp_all
qed

text \<open>The loop changes versions only, and leaves every mirror of the list refused.\<close>

lemma loop_cells:
  assumes "server c view" "source_resourceType source = rtype" "present view source src s"
    and "s' = snd (run_state (for_each ps (reflectToMirror c source)) s)"
  shows "present view source src s' \<and> mirrors s' = mirrors s \<and> length (heap s') = length (heap s) \<and>
     (q \<notin> set ps \<longrightarrow> heap s' ! q = heap s ! q) \<and>
     mirror_key (heap s' ! q) = mirror_key (heap s ! q) \<and> mirror_sourceID (heap s' ! q) = mirror_sourceID (heap s ! q) \<and>
     (q < length (heap s) \<and> (q \<in> set ps \<or> refused source (heap s ! q)) \<longrightarrow> refused source (heap s' ! q))"
  using assms(3,4)
proof (induction ps arbitrary: s)
  case Nil
  then show ?case by simp
next
  case (Cons p ps)
  let ?t = "snd (run_state (reflectToMirror c source p) s)"
  have "s' = snd (run_state (for_each ps (reflectToMirror c source)) ?t)"
    using Cons.prems(2) by (simp add: case_prod_beta)
  note rest = Cons.IH [OF present_step [OF assms(1,2) Cons.prems(1)] this]
  show ?case
    using rest reflectToMirror_run(2) [OF assms(1,2) Cons.prems(1) refl, of p]
      step_cells(1-3,6) [OF assms(1,2) Cons.prems(1) refl [of ?t], of q]
      step_cells(5) [OF assms(1,2) Cons.prems(1) refl [of ?t]] by auto
qed

text \<open>The loop keeps what is good, touches no object that no mirror of the list stands for, and nothing at
  all when every mirror is refused.\<close>

lemma loop_keeps:
  assumes "server c view" "source_resourceType source = rtype" "present view source src s"
    and "s' = snd (run_state (for_each ps (reflectToMirror c source)) s)"
  shows "obj_namespaces (view (world s')) = obj_namespaces (view (world s)) \<and>
     (good_at (objs (view (world s))) k (good source (content src)) \<longrightarrow> good_at (objs (view (world s'))) k (good source (content src))) \<and>
     (clear_at (objs (view (world s))) k (current source) (good source (content src)) \<longrightarrow>
        clear_at (objs (view (world s'))) k (current source) (good source (content src))) \<and>
     ((\<forall>p \<in> set ps. k \<noteq> mirror_key (heap s ! p)) \<longrightarrow> objs (view (world s')) k = objs (view (world s)) k) \<and>
     ((\<forall>p \<in> set ps. refused source (heap s ! p)) \<longrightarrow> view (world s') = view (world s))"
  using assms(3,4)
proof (induction ps arbitrary: s)
  case Nil
  then show ?case by simp
next
  case (Cons p ps)
  let ?t = "snd (run_state (reflectToMirror c source p) s)"
  have "s' = snd (run_state (for_each ps (reflectToMirror c source)) ?t)"
    using Cons.prems(2) by (simp add: case_prod_beta)
  note rest = Cons.IH [OF present_step [OF assms(1,2) Cons.prems(1)] this]
  note one = reflectToMirror_run [OF assms(1,2) Cons.prems(1) refl [of ?t]]
  have "mirror_key (heap ?t ! q) = mirror_key (heap s ! q)" "refused source (heap s ! p) \<Longrightarrow> heap ?t = heap s" for q
    using step_cells(1,4) [OF assms(1,2) Cons.prems(1) refl [of ?t]] by blast+
  then show ?case
    using rest one(4,6) writes_at_keeps [OF one(5)] by (simp del: prod.inject)
qed

lemma loop_reaches:
  assumes "server c view" "source_resourceType source = rtype" "present view source src s"
    and "p \<in> set ps" "heap s ! p = m" "\<not> refused source m" "mirror_resourceType m = rtype"
    and "clear_at (objs (view (world s))) (mirror_key m) (current source) (good source (content src))"
  shows "good_at (objs (view (world (snd (run_state (for_each ps (reflectToMirror c source)) s))))) (mirror_key m)
     (good source (content src))"
proof -
  obtain xs ys where ps: "ps = xs @ p # ys" and new: "p \<notin> set xs"
    using split_list_first [OF assms(4)] by blast
  let ?t = "snd (run_state (for_each xs (reflectToMirror c source)) s)"
  let ?u = "snd (run_state (reflectToMirror c source p) ?t)"
  have t: "present view source src ?t" "heap ?t ! p = m"
    using loop_cells [OF assms(1-3) refl, of xs p] assms(5) new by auto
  have "clear_at (objs (view (world ?t))) (mirror_key m) (current source) (good source (content src))"
    using loop_keeps [OF assms(1-3) refl, of xs "mirror_key m"] assms(8) by simp
  then have "good_at (objs (view (world ?u))) (mirror_key m) (good source (content src))"
    using reflectToMirror_run(7) [OF assms(1,2) t(1) refl, of p] assms(6,7) t by simp
  then show ?thesis
    using loop_keeps [OF assms(1,2) present_step [OF assms(1,2) t(1), of p] refl, of ys "mirror_key m"]
    by (simp add: ps for_each_append case_prod_beta)
qed

section \<open>The run of the use case\<close>

lemma auto_mirror_loop_view:
  assumes "server c view" and "dispatcher s = NewInMemoryDispatcher"
  shows "view (world (snd (run_state (for_each nss (auto_mirror_step c source)) s))) = view (world s)"
    "dispatcher (snd (run_state (for_each nss (auto_mirror_step c source)) s)) = NewInMemoryDispatcher"
proof -
  note keep = server_reads [OF assms(1)]
  have "state_io_rel (world_rel (keeps_view view)) (for_each nss (auto_mirror_step c source))"
    unfolding auto_mirror_step_def
    by (intro io_for_each io_if io_return io_world_createAutoMirror [OF keep] frame_world_rel [OF keep])
  from io_view [OF this assms(2)] show "view (world (snd (run_state (for_each nss (auto_mirror_step c source)) s))) = view (world s)"
    "dispatcher (snd (run_state (for_each nss (auto_mirror_step c source)) s)) = NewInMemoryDispatcher" .
qed

text \<open>After the loop over the namespaces, a permitted namespace has a stored mirror or a conflict.\<close>

lemma auto_mirror_loop_done:
  assumes "server c view" "wf_store s" "dispatcher s = NewInMemoryDispatcher" "source_resourceType source = rtype"
    and "ns \<in> set nss" "ns \<noteq> source_namespace source" "CanAutoMirrorToNamespace source ns"
    and "s' = snd (run_state (for_each nss (auto_mirror_step c source)) s)"
  shows "stored s' (NewMirrorID ns (TargetName source)) \<noteq> None \<or> fst (run_state (checkForConflicts c source ns) s') \<noteq> None"
    "stored s (NewMirrorID ns (TargetName source)) = None \<Longrightarrow> fst (run_state (checkForConflicts c source ns) s) = None \<Longrightarrow>
     stored s' (NewMirrorID ns (TargetName source)) = Some (auto_mirror source ns)"
proof -
  let ?i = "NewMirrorID ns (TargetName source)"
  obtain xs ys where nss: "nss = xs @ ns # ys" and new: "ns \<notin> set xs"
    using split_list_first [OF assms(5)] by blast
  let ?t = "snd (run_state (for_each xs (auto_mirror_step c source)) s)"
  let ?u = "snd (run_state (auto_mirror_step c source ns) ?t)"
  have s': "s' = snd (run_state (for_each ys (auto_mirror_step c source)) ?u)"
    by (simp add: assms(8) nss for_each_append case_prod_beta)
  have u: "?u = snd (run_state (createAutoMirrorIfNotExists c source ns) ?t)"
    using assms(6,7) by (simp add: auto_mirror_step_def)
  have wf: "wf_store ?t" "wf_store ?u"
    using auto_mirror_loop_stored [OF assms(2) refl, of xs c source] io_keepsD [OF io_wf_createAutoMirror, of ?t c source ns]
    unfolding u by blast+
  have eq: "fst (run_state (checkForConflicts c source ns) t) = fst (run_state (checkForConflicts c source ns) s)"
    if "view (world t) = view (world s)" for t
    by (intro conflict_local [OF assms(1,4)]) (simp add: that)
  note keep = auto_mirror_loop_stored [OF wf(2) s', of ?i]
  have t: "stored ?t ?i = stored s ?i"
    using auto_mirror_loop_stored [OF assms(2) refl, of xs c source ?i] new by (auto simp: NewMirrorID_def)
  have conf: "fst (run_state (checkForConflicts c source ns) ?t) = fst (run_state (checkForConflicts c source ns) s)"
    "fst (run_state (checkForConflicts c source ns) s') = fst (run_state (checkForConflicts c source ns) s)"
    unfolding assms(8) by (intro eq auto_mirror_loop_view(1) [OF assms(1,3)])+
  note one = create_auto_mirror_stored [OF wf(1) u]
  show "stored s ?i = None \<Longrightarrow> fst (run_state (checkForConflicts c source ns) s) = None \<Longrightarrow>
     stored s' ?i = Some (auto_mirror source ns)"
    using one(3) keep t conf(1) by simp
  show "stored s' ?i \<noteq> None \<or> fst (run_state (checkForConflicts c source ns) s') \<noteq> None"
    using one(1,3) keep t conf by (cases "stored s ?i"; cases "fst (run_state (checkForConflicts c source ns) s)") auto
qed

lemma auto_mirror_loop_same:
  assumes "server c view" "wf_store s" "dispatcher s = NewInMemoryDispatcher" "source_resourceType source = rtype"
    and "all_mirrored c source nss s"
  shows "stored (snd (run_state (for_each nss (auto_mirror_step c source)) s)) = stored s"
  using assms(2,3,5)
proof (induction nss arbitrary: s)
  case Nil
  then show ?case by simp
next
  case (Cons ns nss)
  let ?t = "snd (run_state (auto_mirror_step c source ns) s)"
  have t: "stored ?t = stored s"
  proof (cases "ns \<noteq> source_namespace source \<and> CanAutoMirrorToNamespace source ns")
    case True
    with Cons.prems(3) have "stored s (NewMirrorID ns (TargetName source)) \<noteq> None \<or> fst (run_state (checkForConflicts c source ns) s) \<noteq> None"
      by (simp add: all_mirrored_def)
    with True show ?thesis
      by (cases rule: create_auto_mirror_cases [of s ns source c]) (auto simp: auto_mirror_step_def)
  qed (auto simp: auto_mirror_step_def)
  have view: "view (world ?t) = view (world s)" "dispatcher ?t = NewInMemoryDispatcher"
    using auto_mirror_loop_view [OF assms(1) Cons.prems(2), of "[ns]" source] by (simp_all add: case_prod_beta)
  have "wf_store ?t"
    using auto_mirror_loop_stored [OF Cons.prems(1) refl, of "[ns]" c source] by (simp add: case_prod_beta)
  moreover have "fst (run_state (checkForConflicts c source ns') ?t) = fst (run_state (checkForConflicts c source ns') s)" for ns'
    by (intro conflict_local [OF assms(1,4)]) (simp add: view)
  with Cons.prems(3) have "all_mirrored c source nss ?t"
    by (simp add: all_mirrored_def t)
  ultimately show ?case
    using Cons.IH [of ?t] view(2) t by (simp add: case_prod_beta)
qed

text \<open>The first stage: mirrors are only added, and those that can be are.\<close>

lemma Execute_stages:
  assumes "server c view" "ValidateSource (Some source) = None" "source_allowed source" "source_resourceType source = rtype"
    and "wf_store s" "dispatcher s = NewInMemoryDispatcher"
  obtains t where "run_state (ReflectResources_Execute c source) s = run_state (fill_mirrors c source) t"
    "view (world t) = view (world s)" "wf_store t" "dispatcher t = NewInMemoryDispatcher"
    "\<forall>i m. stored s i = Some m \<longrightarrow> stored t i = Some m"
    "all_mirrored c source (obj_namespaces (view (world s))) s \<longrightarrow> stored t = stored s"
    "all_mirrored c source (obj_namespaces (view (world s))) t"
    "\<forall>ns \<in> set (obj_namespaces (view (world s))). ns \<noteq> source_namespace source \<and> CanAutoMirrorToNamespace source ns \<and>
       stored s (NewMirrorID ns (TargetName source)) = None \<and> fst (run_state (checkForConflicts c source ns) s) = None \<longrightarrow>
       stored t (NewMirrorID ns (TargetName source)) = Some (auto_mirror source ns)"
proof (cases "source_autoEnabled source")
  case False
  then have "\<not> CanAutoMirrorToNamespace source ns" for ns
    using CanAutoMirror_allowed by blast
  with False assms show thesis
    by (intro that [of s]) (simp_all add: Execute_allowed all_mirrored_def)
next
  case True
  let ?nss = "obj_namespaces (view (world s))"
  let ?s = "s\<lparr>world := snd (list_namespaces c (world s))\<rparr>"
  let ?t = "snd (run_state (for_each ?nss (auto_mirror_step c source)) ?s)"
  have s: "view (world ?s) = view (world s)" "wf_store ?s" "dispatcher ?s = NewInMemoryDispatcher" "stored ?s = stored s"
    using kept_views [OF server_reads [OF assms(1)]] assms(5,6) by simp_all
  have chk: "fst (run_state (checkForConflicts c source ns) ?s) = fst (run_state (checkForConflicts c source ns) s)" for ns
    by (intro conflict_local [OF assms(1,4)]) (simp only: s)
  have "run_state (handleAutoMirrors c source) s = (None, ?t)"
    by (simp add: handleAutoMirrors_def NamespaceLister_List_def server_namespaces [OF assms(1)] case_prod_beta
        auto_mirror_step_def [abs_def])
  then have "run_state (ReflectResources_Execute c source) s = run_state (fill_mirrors c source) ?t"
    using True assms(2,3) by (simp add: Execute_allowed)
  moreover note auto_mirror_loop_view [OF assms(1) s(3), of ?nss source, unfolded s(1)]
  moreover note auto_mirror_loop_stored [OF s(2) refl, of ?nss c source, unfolded s(4)]
  moreover have "all_mirrored c source ?nss s \<Longrightarrow> stored ?t = stored s"
    using auto_mirror_loop_same [OF assms(1) s(2,3) assms(4), of ?nss] by (simp add: all_mirrored_def s(4) chk)
  moreover note auto_mirror_loop_done [OF assms(1) s(2,3) assms(4) _ _ _ refl, of _ ?nss, unfolded s(4) chk]
  ultimately show thesis
    by (intro that [of ?t]) (unfold all_mirrored_def, blast+)
qed

text \<open>The second stage, up to its loop.\<close>

lemma fill_stages:
  assumes "server c view" "wf_store t" "dispatcher t = NewInMemoryDispatcher"
  obtains u ps where "run_state (fill_mirrors c source) t = (None, snd (run_state (for_each ps (reflectToMirror c source)) u))"
    "view (world u) = view (world t)" "wf_store u" "dispatcher u = NewInMemoryDispatcher"
    "\<forall>i. stored u i = (case stored t i of None \<Rightarrow> None | Some m \<Rightarrow>
       if mirror_sourceID m = source_id source \<and> \<not> CanAutoMirrorToNamespace source (mirror_namespace m) then None else Some m)"
    "set ps = {p. \<exists>i. map_of (mirrors u) i = Some p \<and> mirror_sourceID (heap u ! p) = source_id source}"
proof -
  let ?u = "snd (run_state (cleanupAutoMirrorsWhenNoLongerAllowed c source) t)"
  note keep = server_reads [OF assms(1)]
  note u = cleanup_stored [OF assms(2) refl, of c source] and v = io_view [OF io_world_cleanup(2) [OF keep] assms(3), of source]
  obtain ps w where lst: "run_state (GetBySourceID c (source_id source)) ?u = (Inr ps, ?u\<lparr>world := w\<rparr>)"
    and ps: "set ps = {p. \<exists>i. map_of (mirrors ?u) i = Some p \<and> mirror_sourceID (heap ?u ! p) = source_id source}"
    using GetBySourceID_stored [OF u(1)] by blast
  have "view w = view (world ?u)"
    using io_view(1) [OF io_world_create(4) [OF keep] v(2), of "source_id source"] by (simp add: lst)
  then show thesis
    using that [of ps "?u\<lparr>world := w\<rparr>"] u v ps by (simp add: fill_mirrors_def case_prod_beta lst)
qed

lemma fill_reaches:
  assumes "server c view" "wf_store t" "source_resourceType source = rtype" "present view source src t"
    and "stored t i = Some m" "mirror_sourceID m = source_id source" "CanAutoMirrorToNamespace source (mirror_namespace m)"
    and "\<not> refused source m" "mirror_resourceType m = rtype"
    and "clear_at (objs (view (world t))) (mirror_key m) (current source) (good source (content src))"
  shows "good_at (objs (view (world (snd (run_state (fill_mirrors c source) t))))) (mirror_key m) (good source (content src))"
proof -
  have disp: "dispatcher t = NewInMemoryDispatcher"
    using assms(4) by (simp add: present_def)
  obtain u ps where run: "run_state (fill_mirrors c source) t = (None, snd (run_state (for_each ps (reflectToMirror c source)) u))"
    and u: "view (world u) = view (world t)" "wf_store u" "dispatcher u = NewInMemoryDispatcher"
    and st: "\<forall>i. stored u i = (case stored t i of None \<Rightarrow> None | Some m \<Rightarrow>
       if mirror_sourceID m = source_id source \<and> \<not> CanAutoMirrorToNamespace source (mirror_namespace m) then None else Some m)"
    and ps: "set ps = {p. \<exists>i. map_of (mirrors u) i = Some p \<and> mirror_sourceID (heap u ! p) = source_id source}"
    using assms(1,2) disp by (rule fill_stages [where source = source])
  obtain p where p: "map_of (mirrors u) i = Some p" "heap u ! p = m"
    using st [rule_format, of i] assms(5-7) by (auto simp: stored_def)
  have "present view source src u"
    using assms(4) u by (simp add: present_def)
  moreover have "p \<in> set ps"
    unfolding ps using p assms(6) by blast
  ultimately show ?thesis
    using loop_reaches [OF assms(1,3), of src u p ps m] assms(8-10) p(2) u(1) by (simp add: run)
qed

lemma Execute_reaches:
  assumes "server c view" "wf_store s" "dispatcher s = NewInMemoryDispatcher"
    and "source_resourceType source = rtype" "ValidateSource (Some source) = None" "source_version source \<noteq> ''''"
    and "objs (view (world s)) (source_namespace source, source_name source) = Some src"
    and "ns \<in> set (obj_namespaces (view (world s)))" "ns \<noteq> source_namespace source"
    and "CanAutoMirrorToNamespace source ns" "CanReflectToNamespace source ns"
    and "stored s (NewMirrorID ns (TargetName source)) = None" "objs (view (world s)) (ns, TargetName source) = None"
  shows "good_at (objs (view (world (snd (run_state (ReflectResources_Execute c source) s))))) (ns, TargetName source)
     (good source (content src))"
proof -
  have allowed: "source_allowed source"
    using assms(10) CanAutoMirror_allowed by blast
  obtain t where run: "run_state (ReflectResources_Execute c source) s = run_state (fill_mirrors c source) t"
    and t: "view (world t) = view (world s)" "wf_store t" "dispatcher t = NewInMemoryDispatcher"
    and old: "\<forall>i m. stored s i = Some m \<longrightarrow> stored t i = Some m"
    and "all_mirrored c source (obj_namespaces (view (world s))) s \<longrightarrow> stored t = stored s"
    and "all_mirrored c source (obj_namespaces (view (world s))) t"
    and new: "\<forall>ns \<in> set (obj_namespaces (view (world s))). ns \<noteq> source_namespace source \<and> CanAutoMirrorToNamespace source ns \<and>
       stored s (NewMirrorID ns (TargetName source)) = None \<and> fst (run_state (checkForConflicts c source ns) s) = None \<longrightarrow>
       stored t (NewMirrorID ns (TargetName source)) = Some (auto_mirror source ns)"
    by (rule Execute_stages [OF assms(1,5) allowed assms(4,2,3)])
  note st = new [rule_format, OF assms(8) conjI [OF assms(9) conjI [OF assms(10) conjI [OF assms(12) conflict_free [OF assms(1,4,13)]]]]]
  have "present view source src t"
    using assms(7) t by (simp add: present_def)
  from fill_reaches [OF assms(1) t(2) assms(4) this st] assms show ?thesis
    by (simp add: run record_defs refused_def clear_at_def t(1))
qed

lemma Execute_succeeds:
  assumes "server c view" "ValidateSource (Some source) = None" "source_allowed source" "source_resourceType source = rtype"
    and "wf_store s" "dispatcher s = NewInMemoryDispatcher"
  shows "fst (run_state (ReflectResources_Execute c source) s) = None"
  using assms
proof (rule Execute_stages)
  fix t
  assume run: "run_state (ReflectResources_Execute c source) s = run_state (fill_mirrors c source) t"
    and t: "wf_store t" "dispatcher t = NewInMemoryDispatcher"
  show ?thesis
    unfolding run by (rule fill_stages [OF assms(1) t, of source]) simp
qed

lemma Execute_updates:
  assumes "server c view" "wf_store s" "dispatcher s = NewInMemoryDispatcher"
    and "source_resourceType source = rtype" "ValidateSource (Some source) = None"
    and "objs (view (world s)) (source_namespace source, source_name source) = Some src"
    and "stored s i = Some m" "mirror_sourceID m = source_id source" "mirror_resourceType m = rtype"
    and "mirror_version m \<noteq> source_version source"
    and "CanAutoMirrorToNamespace source (mirror_namespace m)" "CanReflectToNamespace source (mirror_namespace m)"
    and "clear_at (objs (view (world s))) (mirror_key m) (current source) (good source (content src))"
  shows "good_at (objs (view (world (snd (run_state (ReflectResources_Execute c source) s))))) (mirror_key m) (good source (content src))"
proof -
  have allowed: "source_allowed source"
    using assms(11) CanAutoMirror_allowed by blast
  obtain t where run: "run_state (ReflectResources_Execute c source) s = run_state (fill_mirrors c source) t"
    and t: "view (world t) = view (world s)" "wf_store t" "dispatcher t = NewInMemoryDispatcher"
    and old: "\<forall>i m. stored s i = Some m \<longrightarrow> stored t i = Some m"
    and "all_mirrored c source (obj_namespaces (view (world s))) s \<longrightarrow> stored t = stored s"
    and "all_mirrored c source (obj_namespaces (view (world s))) t"
    and new: "\<forall>ns \<in> set (obj_namespaces (view (world s))). ns \<noteq> source_namespace source \<and> CanAutoMirrorToNamespace source ns \<and>
       stored s (NewMirrorID ns (TargetName source)) = None \<and> fst (run_state (checkForConflicts c source ns) s) = None \<longrightarrow>
       stored t (NewMirrorID ns (TargetName source)) = Some (auto_mirror source ns)"
    by (rule Execute_stages [OF assms(1,5) allowed assms(4,2,3)])
  have "present view source src t"
    using assms(6) t by (simp add: present_def)
  from fill_reaches [OF assms(1) t(2) assms(4) this old [rule_format, OF assms(7)]] assms show ?thesis
    by (simp add: run refused_def t(1))
qed

section \<open>A second run\<close>

text \<open>A source without an object is replicated nowhere.\<close>

lemma loop_absent:
  assumes "server c view" "source_resourceType source = rtype" "dispatcher s = NewInMemoryDispatcher"
    and "objs (view (world s)) (source_namespace source, source_name source) = None"
  shows "view (world (snd (run_state (for_each ps (reflectToMirror c source)) s))) = view (world s)"
  using assms(3,4)
proof (induction ps arbitrary: s)
  case Nil
  then show ?case by simp
next
  case (Cons p ps)
  let ?s = "s\<lparr>world := snd (clock c (world s))\<rparr>"
  let ?t = "snd (run_state (reflectToMirror c source p) s)"
  note keep = server_reads [OF assms(1)]
  have "state_io_rel (world_rel (keeps_view view)) (read_source_data c source)"
    unfolding read_source_data_def
    by (intro io_if io_bind io_return io_world_create(6,7) [OF keep] frame_world_rel [OF keep])
  moreover obtain r w where run: "run_state (read_source_data c source) ?s = (r, ?s\<lparr>world := w\<rparr>)"
    using read_source_data_world by (rule run_world_only)
  ultimately have "view w = view (world s)"
    using io_view(1) [of view "read_source_data c source" ?s] Cons.prems(1) kept_views(3) [OF keep] by simp
  moreover have "r = Inl (ApiNotFound (source_name source))"
    using read_source [OF assms(1,2), of ?s] Cons.prems(2) run by (simp add: kept_views(3) [OF keep])
  ultimately have "view (world ?t) = view (world s)" "dispatcher ?t = NewInMemoryDispatcher"
    using run Cons.prems(1) by (simp_all add: reflectToMirror_def time_Now_def)
  with Cons.IH [of ?t] Cons.prems(2) show ?case
    by (simp add: case_prod_beta)
qed

lemma fill_absent:
  assumes "server c view" "source_resourceType source = rtype" "wf_store t" "dispatcher t = NewInMemoryDispatcher"
    and "objs (view (world t)) (source_namespace source, source_name source) = None"
  shows "view (world (snd (run_state (fill_mirrors c source) t))) = view (world t)"
  using assms(1,3,4)
proof (rule fill_stages [where source = source])
  fix u ps
  assume "run_state (fill_mirrors c source) t = (None, snd (run_state (for_each ps (reflectToMirror c source)) u))"
    "view (world u) = view (world t)" "dispatcher u = NewInMemoryDispatcher"
  with loop_absent [OF assms(1,2), of u ps] assms(5) show ?thesis
    by simp
qed

text \<open>After a run all mirrors of the source are refused, and a run over refused mirrors writes nothing.\<close>

definition settled :: "Source \<Rightarrow> 'w sys \<Rightarrow> bool" where
  "settled source s \<longleftrightarrow> (\<forall>i m. stored s i = Some m \<and> mirror_sourceID m = source_id source \<longrightarrow> refused source m)"

lemma fill_settles:
  assumes "server c view" "source_resourceType source = rtype" "wf_store t" "present view source src t"
    and "s' = snd (run_state (fill_mirrors c source) t)"
  shows "present view source src s' \<and> settled source s' \<and> obj_namespaces (view (world s')) = obj_namespaces (view (world t)) \<and>
     (all_mirrored c source nss t \<longrightarrow> all_mirrored c source nss s') \<and> (settled source t \<longrightarrow> view (world s') = view (world t))"
proof -
  have disp: "dispatcher t = NewInMemoryDispatcher"
    using assms(4) by (simp add: present_def)
  obtain u ps where run: "run_state (fill_mirrors c source) t = (None, snd (run_state (for_each ps (reflectToMirror c source)) u))"
    and u: "view (world u) = view (world t)" "wf_store u" "dispatcher u = NewInMemoryDispatcher"
    and st: "\<forall>i. stored u i = (case stored t i of None \<Rightarrow> None | Some m \<Rightarrow>
       if mirror_sourceID m = source_id source \<and> \<not> CanAutoMirrorToNamespace source (mirror_namespace m) then None else Some m)"
    and ps: "set ps = {p. \<exists>i. map_of (mirrors u) i = Some p \<and> mirror_sourceID (heap u ! p) = source_id source}"
    using assms(1,3) disp by (rule fill_stages [where source = source])
  have s': "s' = snd (run_state (for_each ps (reflectToMirror c source)) u)"
    by (simp add: assms(5) run)
  have "present view source src u"
    using assms(4) u by (simp add: present_def)
  note cells = loop_cells [OF assms(1,2) this s'] and keeps = loop_keeps [OF assms(1,2) this s']
  have entry: "p < length (heap u)" "mirror_id (heap u ! p) = i" "NewMirrorID (mirror_namespace (heap u ! p)) (mirror_name (heap u ! p)) = i"
    if "map_of (mirrors u) i = Some p" for i p
    using u(2) map_of_SomeD [OF that] by (auto simp: wf_store_def wf_entry_def wf_mirror_def)
  have "settled source s'"
    unfolding settled_def
  proof (intro allI impI)
    fix i m
    assume m: "stored s' i = Some m \<and> mirror_sourceID m = source_id source"
    then obtain p where p: "map_of (mirrors u) i = Some p" "heap s' ! p = m"
      using cells by (auto simp: stored_def)
    with m cells have "p \<in> set ps"
      unfolding ps by (metis (mono_tags, lifting) mem_Collect_eq)
    with cells entry(1) [OF p(1)] p(2) show "refused source m"
      by blast
  qed
  moreover have "view (world s') = view (world t)" if "settled source t"
  proof -
    have "refused source (heap u ! p)" if p: "p \<in> set ps" for p
    proof -
      obtain i where i: "stored u i = Some (heap u ! p)" "mirror_sourceID (heap u ! p) = source_id source"
        using p ps by (auto simp: stored_def)
      then have "stored t i = Some (heap u ! p)"
        using st [rule_format, of i] by (auto split: option.splits if_splits)
      with i(2) \<open>settled source t\<close> show ?thesis
        unfolding settled_def by blast
    qed
    with keeps u(1) show ?thesis by simp
  qed
  moreover have "all_mirrored c source nss s'" if "all_mirrored c source nss t"
    unfolding all_mirrored_def
  proof (intro ballI impI)
    fix ns
    let ?i = "NewMirrorID ns (TargetName source)"
    assume ns: "ns \<in> set nss" "ns \<noteq> source_namespace source \<and> CanAutoMirrorToNamespace source ns"
    show "stored s' ?i \<noteq> None \<or> fst (run_state (checkForConflicts c source ns) s') \<noteq> None"
    proof (cases "map_of (mirrors u) ?i")
      case None
      have "mirror_namespace m = ns" if "stored t ?i = Some m" for m
        using assms(3) that map_of_SomeD [of "mirrors t" ?i] by (auto simp: stored_def wf_store_def wf_entry_def wf_mirror_def NewMirrorID_def)
      with None ns(2) st [rule_format, of ?i] have "stored t ?i = None"
        by (auto simp: stored_def [of u] split: option.splits if_splits)
      with that ns have "fst (run_state (checkForConflicts c source ns) t) \<noteq> None"
        unfolding all_mirrored_def by blast
      moreover have "(ns, TargetName source) \<noteq> mirror_key (heap u ! p)" if "p \<in> set ps" for p
        using that None entry(3) unfolding ps by fastforce
      then have "objs (view (world s')) (ns, TargetName source) = objs (view (world t)) (ns, TargetName source)"
        using keeps u(1) by simp
      from conflict_local [OF assms(1,2) this] have "fst (run_state (checkForConflicts c source ns) s') = fst (run_state (checkForConflicts c source ns) t)" .
      ultimately show ?thesis by simp
    next
      case (Some p)
      then show ?thesis
        using cells by (simp add: stored_def)
    qed
  qed
  ultimately show ?thesis
    using cells keeps u(1) by simp
qed

lemma Execute_idempotent:
  assumes "server c view" "source_resourceType source = rtype" "wf_store s" "dispatcher s = NewInMemoryDispatcher"
    and "s' = snd (run_state (ReflectResources_Execute c source) s)"
  shows "view (world (snd (run_state (ReflectResources_Execute c source) s'))) = view (world s')"
proof (cases "ValidateSource (Some source) = None \<and> source_allowed source")
  case False
  have "view (world (snd (run_state (ReflectResources_Execute c source) s))) = view (world s) \<and>
      dispatcher (snd (run_state (ReflectResources_Execute c source) s)) = NewInMemoryDispatcher"
    if "dispatcher s = NewInMemoryDispatcher" for s :: "'w sys"
    using False io_view [OF io_world_cleanup(1) [OF server_reads [OF assms(1)]] that, of source]
    by (auto simp: ReflectResources_Execute_def case_prod_beta that split: option.splits)
  with assms(4,5) show ?thesis by simp
next
  case True
  then have ok: "ValidateSource (Some source) = None" "source_allowed source"
    by simp_all
  let ?nss = "obj_namespaces (view (world s))"
  obtain t where run: "run_state (ReflectResources_Execute c source) s = run_state (fill_mirrors c source) t"
    and t: "view (world t) = view (world s)" "wf_store t" "dispatcher t = NewInMemoryDispatcher"
    and "\<forall>i m. stored s i = Some m \<longrightarrow> stored t i = Some m"
    and "all_mirrored c source ?nss s \<longrightarrow> stored t = stored s" and mirrored: "all_mirrored c source ?nss t"
    and "\<forall>ns \<in> set ?nss. ns \<noteq> source_namespace source \<and> CanAutoMirrorToNamespace source ns \<and>
       stored s (NewMirrorID ns (TargetName source)) = None \<and> fst (run_state (checkForConflicts c source ns) s) = None \<longrightarrow>
       stored t (NewMirrorID ns (TargetName source)) = Some (auto_mirror source ns)"
    by (rule Execute_stages [OF assms(1) ok assms(2,3,4)])
  have wf: "wf_store s'"
    unfolding assms(5) by (rule io_keepsD [OF io_wf_Execute assms(3)])
  have s': "s' = snd (run_state (fill_mirrors c source) t)"
    by (simp add: assms(5) run)
  have disp: "dispatcher s' = NewInMemoryDispatcher"
    by (simp add: assms(4,5) Execute_dispatcher)
  obtain t' where run': "run_state (ReflectResources_Execute c source) s' = run_state (fill_mirrors c source) t'"
    and t': "view (world t') = view (world s')" "wf_store t'" "dispatcher t' = NewInMemoryDispatcher"
    and "\<forall>i m. stored s' i = Some m \<longrightarrow> stored t' i = Some m"
    and same: "all_mirrored c source (obj_namespaces (view (world s'))) s' \<longrightarrow> stored t' = stored s'"
    and "all_mirrored c source (obj_namespaces (view (world s'))) t'"
    and "\<forall>ns \<in> set (obj_namespaces (view (world s'))). ns \<noteq> source_namespace source \<and> CanAutoMirrorToNamespace source ns \<and>
       stored s' (NewMirrorID ns (TargetName source)) = None \<and> fst (run_state (checkForConflicts c source ns) s') = None \<longrightarrow>
       stored t' (NewMirrorID ns (TargetName source)) = Some (auto_mirror source ns)"
    by (rule Execute_stages [OF assms(1) ok assms(2) wf disp])
  show ?thesis
  proof (cases "objs (view (world s)) (source_namespace source, source_name source)")
    case None
    with t fill_absent [OF assms(1,2) t(2,3)] have "view (world s') = view (world s)"
      by (simp add: s')
    with None t' fill_absent [OF assms(1,2) t'(2,3)] show ?thesis
      by (simp add: run')
  next
    case (Some src)
    then have "present view source src t"
      using t by (simp add: present_def)
    from fill_settles [OF assms(1,2) t(2) this s', of ?nss]
    have p: "present view source src s'" "settled source s'" "obj_namespaces (view (world s')) = ?nss" "all_mirrored c source ?nss s'"
      using mirrored t(1) by simp_all
    with same have "settled source t'"
      by (simp add: settled_def)
    moreover have "present view source src t'"
      using p(1) t' by (simp add: present_def)
    ultimately show ?thesis
      using fill_settles [OF assms(1,2) t'(2) _ refl, of src] t'(1) by (simp add: run')
  qed
qed

end

end
