(* ===== verification/Replication.thy ===== *)
theory Replication
  imports Mirrored_Kind
begin

text \<open>
  Replication from end to end: on an API server that answers as documented, one run of the replication use
  case brings a Secret or a ConfigMap to every namespace it is meant for, and a second run changes nothing.
  Secrets and ConfigMaps are shown to be the two instances of the contract of mirrored kinds.
\<close>

section \<open>Mirrors in the cluster\<close>

text \<open>An object marked as a mirror of the current version of a source, and the test for it.\<close>

definition mirror_meta :: "Source \<Rightarrow> 'a k8s_object_scheme \<Rightarrow> bool" where
  "mirror_meta source obj \<longleftrightarrow> annotation obj AnnotationReflects = SourceID_String (source_id source) \<and>
     annotation obj AnnotationReflectedVersion = source_version source"

definition current :: "Source \<Rightarrow> 'a k8s_object_scheme \<Rightarrow> bool" where
  "current source obj \<longleftrightarrow>
     Annotations obj \<noteq> None \<and> annotation obj AnnotationReflectedVersion = source_version source"

definition secret_content :: "Secret \<Rightarrow> string_map \<times> string" where
  "secret_content obj = (Data obj, Type obj)"

definition configmap_content :: "ConfigMap \<Rightarrow> string_map \<times> string" where
  "configmap_content obj = (cmData obj ++ BinaryData obj, '''')"

definition good_secret :: "Source \<Rightarrow> string_map \<times> string \<Rightarrow> Secret \<Rightarrow> bool" where
  "good_secret source d obj \<longleftrightarrow> secret_content obj = d \<and> mirror_meta source obj"

definition good_configmap :: "Source \<Rightarrow> string_map \<times> string \<Rightarrow> ConfigMap \<Rightarrow> bool" where
  "good_configmap source d obj \<longleftrightarrow>
     cmData obj = text_entries (fst d) \<and> BinaryData obj = binary_entries (fst d) \<and> mirror_meta source obj"

lemma mirror_metaI: "Annotations obj = Some a \<Longrightarrow> mirror_annotation_map source a \<Longrightarrow> mirror_meta source obj"
  by (simp add: mirror_meta_def annotation_def mirror_annotation_map_def)

lemma kept_good:
  assumes "mirror_annotation_map source a"
  shows "kept sec sec' \<Longrightarrow> Data sec = dat \<Longrightarrow> Type sec = st \<Longrightarrow> Annotations sec = Some a \<Longrightarrow> good_secret source (dat, st) sec'"
    "kept cm cm' \<Longrightarrow> cmData cm = text_entries dat \<Longrightarrow> BinaryData cm = binary_entries dat \<Longrightarrow> Annotations cm = Some a \<Longrightarrow>
     good_configmap source (dat, st) cm'"
  using assms by (auto simp: kept_def good_secret_def secret_content_def good_configmap_def intro: mirror_metaI)

lemma entries_add: "text_entries m ++ binary_entries m = m"
  by (auto simp: map_add_def text_entries_def binary_entries_def fun_eq_iff split: option.splits)

lemma entries_sorts:
  "\<forall>v \<in> ran (text_entries m). v = [] \<or> isPrintable v" "\<forall>v \<in> ran (binary_entries m). v \<noteq> [] \<and> \<not> isPrintable v"
proof -
  have "text_entries m k = Some v \<Longrightarrow> v = [] \<or> isPrintable v" "binary_entries m k = Some v \<Longrightarrow> v \<noteq> [] \<and> \<not> isPrintable v" for k v
    by (cases "m k"; force simp: text_entries_def binary_entries_def split: if_splits)+
  then show "\<forall>v \<in> ran (text_entries m). v = [] \<or> isPrintable v" "\<forall>v \<in> ran (binary_entries m). v \<noteq> [] \<and> \<not> isPrintable v"
    unfolding ran_def by blast+
qed

section \<open>Writing a mirror\<close>

text \<open>The annotations are computed first; the rest is one of the two branches.\<close>

definition write_branch ::
  "'w client \<Rightarrow> Source \<Rightarrow> Mirror \<Rightarrow> string_map \<Rightarrow> string \<Rightarrow> string_map \<Rightarrow> ('w sys, go_error option) state"
where
  "write_branch c source m dat st a =
      (if mirror_resourceType m = ResourceTypeSecret then do {
          r \<leftarrow> GetSecret c (mirror_namespace m) (mirror_name m);
          case r of
            Inl err \<Rightarrow> if \<not> IsNotFound err then return (Some err)
              else CreateSecret c (new_Secret (mirror_name m) (mirror_namespace m) a dat st)
          | Inr secret \<Rightarrow>
              if Annotations secret \<noteq> None \<and> annotation secret AnnotationReflectedVersion = source_version source then return None
              else UpdateSecret c (secret\<lparr>Data := dat, Annotations := Some a, Type := st\<rparr>) }
        else if mirror_resourceType m = ResourceTypeConfigMap then do {
          r \<leftarrow> GetConfigMap c (mirror_namespace m) (mirror_name m);
          case r of
            Inl err \<Rightarrow> if \<not> IsNotFound err then return (Some err)
              else CreateConfigMap c (new_ConfigMap (mirror_name m) (mirror_namespace m) a (text_entries dat) (binary_entries dat))
          | Inr cm \<Rightarrow>
              if Annotations cm \<noteq> None \<and> annotation cm AnnotationReflectedVersion = source_version source then return None
              else UpdateConfigMap c (cm\<lparr>cmData := text_entries dat, BinaryData := binary_entries dat, Annotations := Some a\<rparr>) }
        else return None)"

lemma updateMirrorData_split:
  assumes "api_server c view"
  obtains a w where "mirror_annotation_map source a" and "view w = view (world s)"
    and "run_state (updateMirrorData c source m dat st) s =
      run_state (write_branch c source m dat st a) (s\<lparr>world := w\<rparr>)"
proof (cases "mirror_isAutoCreated m")
  case True
  let ?w = "snd (clock c (world s))"
  show ?thesis
    by (rule that [of "AutoMirrorAnnotations (fst (clock c ?w)) (SourceID_String (source_id source)) (source_version source)"
          "snd (clock c ?w)"])
      (simp_all only: mirror_annotation_maps api_views [OF assms] updateMirrorData_def True if_True Let_def run_bind
         time_Now_def run_prims run_return case_prod_conv write_branch_def [symmetric], simp)
next
  case False
  show ?thesis
    by (rule that [of "MirrorAnnotations (fst (clock c (world s))) (SourceID_String (source_id source)) (source_version source)"
          "snd (clock c (world s))"])
      (simp_all only: mirror_annotation_maps api_views [OF assms] updateMirrorData_def False if_False Let_def run_bind
         time_Now_def run_prims run_return case_prod_conv write_branch_def [symmetric])
qed

lemma secret_branch:
  assumes "api_server c view" and "mirror_annotation_map source a" and "mirror_resourceType m = ResourceTypeSecret"
  shows "\<exists>w. run_state (write_branch c source m dat st a) s = (None, s\<lparr>world := w\<rparr>) \<and> only_secrets (view (world s)) (view w) \<and>
     writes_at (obj_secrets (view (world s))) (obj_secrets (view w)) (mirror_key m) (good_secret source (dat, st)) \<and>
     (clear_at (obj_secrets (view (world s))) (mirror_key m) (current source) (good_secret source (dat, st)) \<longrightarrow>
        good_at (obj_secrets (view w)) (mirror_key m) (good_secret source (dat, st)))"
proof -
  let ?new = "new_Secret (mirror_name m) (mirror_namespace m) a dat st"
  let ?upd = "\<lambda>secret. secret\<lparr>Data := dat, Annotations := Some a, Type := st\<rparr>"
  have "write_branch c source m dat st a = do {
      r \<leftarrow> api (get_secret c (mirror_namespace m) (mirror_name m));
      case r of
        Inl err \<Rightarrow> if \<not> IsNotFound err then return (Some err) else api (create_secret c ?new)
      | Inr obj \<Rightarrow> if current source obj then return None else api (update_secret c (?upd obj)) }"
    unfolding write_branch_def if_P [OF assms(3)] GetSecret_def CreateSecret_def UpdateSecret_def current_def ..
  then show ?thesis
    unfolding clear_at_def
    using serves_write [OF api_serverD(3) [OF assms(1)], of ?new "good_secret source (dat, st)"
        "mirror_namespace m" "mirror_name m" ?upd "\<lambda>w. (obj_configmaps (view w), obj_namespaces (view w))" "current source" s]
      api_views [OF assms(1)] api_serverD(5,6) [OF assms(1)] assms(2)
    by (simp add: new_Secret_def kept_good only_secrets_def conj_ac)
qed

lemma configmap_branch:
  assumes "api_server c view" and "mirror_annotation_map source a" and "mirror_resourceType m = ResourceTypeConfigMap"
  shows "\<exists>w. run_state (write_branch c source m dat st a) s = (None, s\<lparr>world := w\<rparr>) \<and> only_configmaps (view (world s)) (view w) \<and>
     writes_at (obj_configmaps (view (world s))) (obj_configmaps (view w)) (mirror_key m) (good_configmap source (dat, st)) \<and>
     (clear_at (obj_configmaps (view (world s))) (mirror_key m) (current source) (good_configmap source (dat, st)) \<longrightarrow>
        good_at (obj_configmaps (view w)) (mirror_key m) (good_configmap source (dat, st)))"
proof -
  let ?new = "new_ConfigMap (mirror_name m) (mirror_namespace m) a (text_entries dat) (binary_entries dat)"
  let ?upd = "\<lambda>cm. cm\<lparr>cmData := text_entries dat, BinaryData := binary_entries dat, Annotations := Some a\<rparr>"
  have no: "mirror_resourceType m \<noteq> ResourceTypeSecret"
    by (simp add: assms(3))
  have "write_branch c source m dat st a = do {
      r \<leftarrow> api (get_configmap c (mirror_namespace m) (mirror_name m));
      case r of
        Inl err \<Rightarrow> if \<not> IsNotFound err then return (Some err) else api (create_configmap c ?new)
      | Inr obj \<Rightarrow> if current source obj then return None else api (update_configmap c (?upd obj)) }"
    unfolding write_branch_def if_not_P [OF no] if_P [OF assms(3)] GetConfigMap_def CreateConfigMap_def UpdateConfigMap_def
      current_def ..
  then show ?thesis
    unfolding clear_at_def
    using serves_write [OF api_serverD(4) [OF assms(1)], of ?new "good_configmap source (dat, st)"
        "mirror_namespace m" "mirror_name m" ?upd "\<lambda>w. (obj_secrets (view w), obj_namespaces (view w))" "current source" s]
      api_views [OF assms(1)] api_serverD(7,8) [OF assms(1)] assms(2)
    by (simp add: new_ConfigMap_def kept_good only_configmaps_def conj_ac)
qed

text \<open>The whole of \<open>updateMirrorData\<close>: it touches the world only, and writes at most an up-to-date mirror under
  the mirror's own key.\<close>

lemma updateMirrorData_run:
  assumes "api_server c view"
  shows "\<exists>r w. run_state (updateMirrorData c source m dat st) s = (r, s\<lparr>world := w\<rparr>) \<and>
     obj_namespaces (view w) = obj_namespaces (view (world s)) \<and>
     writes_at (obj_secrets (view (world s))) (obj_secrets (view w)) (mirror_key m) (good_secret source (dat, st)) \<and>
     writes_at (obj_configmaps (view (world s))) (obj_configmaps (view w)) (mirror_key m) (good_configmap source (dat, st)) \<and>
     (mirror_resourceType m = ResourceTypeSecret \<and>
      clear_at (obj_secrets (view (world s))) (mirror_key m) (current source) (good_secret source (dat, st)) \<longrightarrow>
        r = None \<and> good_at (obj_secrets (view w)) (mirror_key m) (good_secret source (dat, st))) \<and>
     (mirror_resourceType m = ResourceTypeConfigMap \<and>
      clear_at (obj_configmaps (view (world s))) (mirror_key m) (current source) (good_configmap source (dat, st)) \<longrightarrow>
        r = None \<and> good_at (obj_configmaps (view w)) (mirror_key m) (good_configmap source (dat, st)))"
proof -
  obtain a w1 where a: "mirror_annotation_map source a" and w1: "view w1 = view (world s)"
    and run: "run_state (updateMirrorData c source m dat st) s =
      run_state (write_branch c source m dat st a) (s\<lparr>world := w1\<rparr>)"
    using assms by (rule updateMirrorData_split)
  consider "mirror_resourceType m = ResourceTypeSecret" | "mirror_resourceType m = ResourceTypeConfigMap"
    | "mirror_resourceType m \<noteq> ResourceTypeSecret" "mirror_resourceType m \<noteq> ResourceTypeConfigMap"
    by blast
  then show ?thesis
  proof cases
    case 1
    show ?thesis
      apply (rule exE [OF secret_branch [OF assms a 1, of dat st "s\<lparr>world := w1\<rparr>"]])
      subgoal for w
        unfolding run using 1 by (intro exI [of _ None] exI [of _ w]) (simp add: w1 only_secrets_def)
      done
  next
    case 2
    show ?thesis
      apply (rule exE [OF configmap_branch [OF assms a 2, of dat st "s\<lparr>world := w1\<rparr>"]])
      subgoal for w
        unfolding run using 2 by (intro exI [of _ None] exI [of _ w]) (simp add: w1 only_configmaps_def)
      done
  next
    case 3
    then show ?thesis
      unfolding run write_branch_def by (auto simp: w1)
  qed
qed

section \<open>The two kinds\<close>

lemma secret_conflict:
  assumes "api_server c view" "source_resourceType source = ResourceTypeSecret"
  shows "fst (run_state (checkForConflicts c source ns) s) =
     (case obj_secrets (view (world s)) (ns, TargetName source) of
        None \<Rightarrow> None
      | Some secret \<Rightarrow>
          if IsHelmSecret secret \<or> Annotations secret \<noteq> None \<and> annotation secret AnnotationReflects \<noteq> '''' then None
          else Some (already_exists ns (TargetName source)))"
  using assms(2) servesD(1) [OF api_serverD(3) [OF assms(1)], of ns "TargetName source" "world s"]
  by (cases "obj_secrets (view (world s)) (ns, TargetName source)") (simp_all add: checkForConflicts_def GetSecret_def)

lemma configmap_conflict:
  assumes "api_server c view" "source_resourceType source = ResourceTypeConfigMap"
  shows "fst (run_state (checkForConflicts c source ns) s) =
     (case obj_configmaps (view (world s)) (ns, TargetName source) of
        None \<Rightarrow> None
      | Some cm \<Rightarrow>
          if IsHelmConfigMap cm \<or> Annotations cm \<noteq> None \<and> annotation cm AnnotationReflects \<noteq> '''' then None
          else Some (already_exists ns (TargetName source)))"
  using assms(2) servesD(1) [OF api_serverD(4) [OF assms(1)], of ns "TargetName source" "world s"]
  by (cases "obj_configmaps (view (world s)) (ns, TargetName source)") (simp_all add: checkForConflicts_def GetConfigMap_def)

interpretation secrets: mirrored_kind api_server ResourceTypeSecret obj_secrets secret_content good_secret current
proof unfold_locales
  fix c :: "'w client" and view and source :: Source and s
  assume "api_server c view" "source_resourceType source = ResourceTypeSecret"
  then show "fst (run_state (read_source_data c source) s) =
      (case obj_secrets (view (world s)) (source_namespace source, source_name source) of
         None \<Rightarrow> Inl (ApiNotFound (source_name source)) | Some obj \<Rightarrow> Inr (secret_content obj))"
    using servesD(1) [OF api_serverD(3), of c view "source_namespace source" "source_name source" "world s"]
    by (simp add: read_source_data_def GetSecret_def secret_content_def split: option.splits)
next
  fix c :: "'w client" and view source m dat st s
  assume "api_server c view"
  from updateMirrorData_run [OF this, of source m dat st s]
  show "\<exists>r w. run_state (updateMirrorData c source m dat st) s = (r, s\<lparr>world := w\<rparr>) \<and>
      writes_at (obj_secrets (view (world s))) (obj_secrets (view w)) (mirror_key m) (good_secret source (dat, st)) \<and>
      obj_namespaces (view w) = obj_namespaces (view (world s)) \<and>
      (mirror_resourceType m = ResourceTypeSecret \<and>
       clear_at (obj_secrets (view (world s))) (mirror_key m) (current source) (good_secret source (dat, st)) \<longrightarrow>
       r = None \<and> good_at (obj_secrets (view w)) (mirror_key m) (good_secret source (dat, st)))"
    by blast
qed (auto simp: api_serverD secret_conflict good_secret_def)

interpretation configmaps: mirrored_kind api_server ResourceTypeConfigMap obj_configmaps configmap_content good_configmap current
proof unfold_locales
  fix c :: "'w client" and view and source :: Source and s
  assume "api_server c view" "source_resourceType source = ResourceTypeConfigMap"
  then show "fst (run_state (read_source_data c source) s) =
      (case obj_configmaps (view (world s)) (source_namespace source, source_name source) of
         None \<Rightarrow> Inl (ApiNotFound (source_name source)) | Some obj \<Rightarrow> Inr (configmap_content obj))"
    using servesD(1) [OF api_serverD(4), of c view "source_namespace source" "source_name source" "world s"]
    by (simp add: read_source_data_def GetConfigMap_def configmap_content_def split: option.splits)
next
  fix c :: "'w client" and view source m dat st s
  assume "api_server c view"
  from updateMirrorData_run [OF this, of source m dat st s]
  show "\<exists>r w. run_state (updateMirrorData c source m dat st) s = (r, s\<lparr>world := w\<rparr>) \<and>
      writes_at (obj_configmaps (view (world s))) (obj_configmaps (view w)) (mirror_key m) (good_configmap source (dat, st)) \<and>
      obj_namespaces (view w) = obj_namespaces (view (world s)) \<and>
      (mirror_resourceType m = ResourceTypeConfigMap \<and>
       clear_at (obj_configmaps (view (world s))) (mirror_key m) (current source) (good_configmap source (dat, st)) \<longrightarrow>
       r = None \<and> good_at (obj_configmaps (view w)) (mirror_key m) (good_configmap source (dat, st)))"
    by blast
qed (auto simp: api_serverD configmap_conflict good_configmap_def configmap_content_def entries_add)

section \<open>From end to end\<close>

lemma secret_reaches:
  assumes "api_server c view" and "wf_store s" and "dispatcher s = NewInMemoryDispatcher"
    and "source_resourceType source = ResourceTypeSecret" and "ValidateSource (Some source) = None"
    and "source_version source \<noteq> ''''"
    and "obj_secrets (view (world s)) (source_namespace source, source_name source) = Some obj"
    and "ns \<in> set (obj_namespaces (view (world s)))" and "ns \<noteq> source_namespace source"
    and "CanAutoMirrorToNamespace source ns" and "CanReflectToNamespace source ns"
    and "stored s (NewMirrorID ns (TargetName source)) = None"
    and "obj_secrets (view (world s)) (ns, TargetName source) = None"
  shows "\<exists>obj'. obj_secrets (view (world (snd (run_state (ReflectResources_Execute c source) s)))) (ns, TargetName source) = Some obj' \<and>
     Data obj' = Data obj \<and> Type obj' = Type obj \<and>
     annotation obj' AnnotationReflects = SourceID_String (source_id source) \<and>
     annotation obj' AnnotationReflectedVersion = source_version source"
  using secrets.Execute_reaches [OF assms]
  by (auto simp: good_at_def good_secret_def secret_content_def mirror_meta_def)

text \<open>Replication reaches every permitted namespace. On an API server that behaves as documented, one
  run of the use case for a Secret source copies it to each existing namespace that both annotation sets
  permit and where nothing of its target name exists: afterwards there is a Secret of that name with the
  source's data and type, annotated with the source's identity and version.\<close>

theorem replication_reaches_namespaces:
  assumes "api_server c view" and "wf_store s" and "dispatcher s = NewInMemoryDispatcher"
    and "source_resourceType source = ResourceTypeSecret" and "ValidateSource (Some source) = None"
    and "source_version source \<noteq> ''''"
    and "obj_secrets (view (world s)) (source_namespace source, source_name source) = Some obj"
    and "ns \<in> set (obj_namespaces (view (world s)))" and "ns \<noteq> source_namespace source"
    and "CanAutoMirrorToNamespace source ns" and "CanReflectToNamespace source ns"
    and "stored s (NewMirrorID ns (TargetName source)) = None"
    and "obj_secrets (view (world s)) (ns, TargetName source) = None"
  shows "\<exists>obj'. obj_secrets (view (world (snd (run_state (ReflectResources_Execute c source) s)))) (ns, TargetName source) = Some obj' \<and>
     Data obj' = Data obj \<and> Type obj' = Type obj \<and>
     annotation obj' AnnotationReflects = SourceID_String (source_id source) \<and>
     annotation obj' AnnotationReflectedVersion = source_version source"
  using assms by (rule secret_reaches)

definition example_cluster :: cluster where
  "example_cluster = empty_cluster\<lparr>cl_secrets := [(''prod'', ''db'') \<mapsto> new_Secret ''db'' ''prod'' Map.empty [''pw'' \<mapsto> ''s3cret''] ''Opaque'']\<rparr>"

theorem replication_reaches_namespaces_witness:
  "(let w = world (snd (run_state (ReflectResources_Execute cluster_client example_source) (started example_cluster)))
    in map_option (\<lambda>obj. Data obj ''pw'') (cl_secrets w (''dev'', ''db'')) = Some (Some ''s3cret''))"
proof -
  let ?w = "world (snd (run_state (ReflectResources_Execute cluster_client example_source) (started example_cluster)))"
  have "wf_store (started example_cluster)" "source_resourceType example_source = ResourceTypeSecret"
    "ValidateSource (Some example_source) = None" "source_version example_source \<noteq> ''''"
    "obj_secrets (cluster_view (world (started example_cluster))) (source_namespace example_source, source_name example_source) =
       Some (new_Secret ''db'' ''prod'' Map.empty [''pw'' \<mapsto> ''s3cret''] ''Opaque'')"
    "''dev'' \<in> set (obj_namespaces (cluster_view (world (started example_cluster))))" "''dev'' \<noteq> source_namespace example_source"
    "CanAutoMirrorToNamespace example_source ''dev''" "CanReflectToNamespace example_source ''dev''"
    "stored (started example_cluster) (NewMirrorID ''dev'' (TargetName example_source)) = None"
    "obj_secrets (cluster_view (world (started example_cluster))) (''dev'', TargetName example_source) = None"
    by (simp_all add: wf_store_def example_source_def record_defs ValidateSource_def cluster_view_def example_cluster_def
        empty_cluster_def new_Secret_def CanAutoMirrorToNamespace_def CanReflectToNamespace_def Matches_def IsEmpty_def
        AllowedNamespaces_zero_def stored_def TargetName_def)
  from replication_reaches_namespaces [OF cluster_api_server this(1) started_sel(4) this(2-)]
  have "\<exists>obj'. obj_secrets (cluster_view ?w) (''dev'', ''db'') = Some obj' \<and>
      Data obj' = Data (new_Secret ''db'' ''prod'' Map.empty [''pw'' \<mapsto> ''s3cret''] ''Opaque'')"
    by (auto simp: TargetName_def example_source_def record_defs)
  then show ?thesis
    by (auto simp: cluster_view_def new_Secret_def Let_def)
qed



text \<open>Replication of ConfigMaps. Under the same conditions a ConfigMap reaches each permitted namespace:
  afterwards there is a ConfigMap of the target name that is annotated with the source's identity and
  version and holds every entry of the source, the printable and empty ones in its text part, the others in
  its binary part.\<close>

theorem configmap_reaches_namespaces:
  assumes "api_server c view" and "wf_store s" and "dispatcher s = NewInMemoryDispatcher"
    and "source_resourceType source = ResourceTypeConfigMap" and "ValidateSource (Some source) = None"
    and "source_version source \<noteq> ''''"
    and "obj_configmaps (view (world s)) (source_namespace source, source_name source) = Some obj"
    and "ns \<in> set (obj_namespaces (view (world s)))" and "ns \<noteq> source_namespace source"
    and "CanAutoMirrorToNamespace source ns" and "CanReflectToNamespace source ns"
    and "stored s (NewMirrorID ns (TargetName source)) = None"
    and "obj_configmaps (view (world s)) (ns, TargetName source) = None"
  shows "\<exists>obj'. obj_configmaps (view (world (snd (run_state (ReflectResources_Execute c source) s)))) (ns, TargetName source) = Some obj' \<and>
     cmData obj' ++ BinaryData obj' = cmData obj ++ BinaryData obj \<and>
     (\<forall>v \<in> ran (cmData obj'). v = [] \<or> isPrintable v) \<and> (\<forall>v \<in> ran (BinaryData obj'). v \<noteq> [] \<and> \<not> isPrintable v) \<and>
     annotation obj' AnnotationReflects = SourceID_String (source_id source) \<and>
     annotation obj' AnnotationReflectedVersion = source_version source"
proof -
  obtain obj' where "obj_configmaps (view (world (snd (run_state (ReflectResources_Execute c source) s)))) (ns, TargetName source) = Some obj'"
    and "good_configmap source (configmap_content obj) obj'"
    using configmaps.Execute_reaches [OF assms] unfolding good_at_def by blast
  then show ?thesis
    using entries_sorts [of "cmData obj ++ BinaryData obj"]
    by (intro exI [of _ obj']) (simp add: good_configmap_def configmap_content_def mirror_meta_def entries_add)
qed

definition example_configmap :: cluster where
  "example_configmap = empty_cluster\<lparr>cl_configmaps := [(''prod'', ''db'') \<mapsto> new_ConfigMap ''db'' ''prod'' Map.empty [''host'' \<mapsto> ''pg''] Map.empty]\<rparr>"

theorem configmap_reaches_namespaces_witness:
  "(let source = example_source\<lparr>source_resourceType := ResourceTypeConfigMap\<rparr>;
        w = world (snd (run_state (ReflectResources_Execute cluster_client source) (started example_configmap)))
    in \<exists>obj. cl_configmaps w (''dev'', ''db'') = Some obj \<and> (cmData obj ++ BinaryData obj) ''host'' = Some ''pg'')"
proof -
  let ?source = "example_source\<lparr>source_resourceType := ResourceTypeConfigMap\<rparr>"
  let ?obj = "new_ConfigMap ''db'' ''prod'' Map.empty [''host'' \<mapsto> ''pg''] Map.empty"
  let ?w = "world (snd (run_state (ReflectResources_Execute cluster_client ?source) (started example_configmap)))"
  have "wf_store (started example_configmap)" "source_resourceType ?source = ResourceTypeConfigMap"
    "ValidateSource (Some ?source) = None" "source_version ?source \<noteq> ''''"
    "obj_configmaps (cluster_view (world (started example_configmap))) (source_namespace ?source, source_name ?source) = Some ?obj"
    "''dev'' \<in> set (obj_namespaces (cluster_view (world (started example_configmap))))" "''dev'' \<noteq> source_namespace ?source"
    "CanAutoMirrorToNamespace ?source ''dev''" "CanReflectToNamespace ?source ''dev''"
    "stored (started example_configmap) (NewMirrorID ''dev'' (TargetName ?source)) = None"
    "obj_configmaps (cluster_view (world (started example_configmap))) (''dev'', TargetName ?source) = None"
    by (simp_all add: wf_store_def example_source_def record_defs ValidateSource_def cluster_view_def example_configmap_def
        empty_cluster_def new_ConfigMap_def CanAutoMirrorToNamespace_def CanReflectToNamespace_def Matches_def IsEmpty_def
        AllowedNamespaces_zero_def stored_def TargetName_def)
  from configmap_reaches_namespaces [OF cluster_api_server this(1) started_sel(4) this(2-)]
  have "\<exists>obj'. obj_configmaps (cluster_view ?w) (''dev'', ''db'') = Some obj' \<and>
      cmData obj' ++ BinaryData obj' = cmData ?obj ++ BinaryData ?obj"
    by (auto simp: TargetName_def example_source_def record_defs)
  then show ?thesis
    by (auto simp: cluster_view_def new_ConfigMap_def Let_def)
qed



end
