(* ===== verification/Rule_Replication.thy ===== *)
theory Rule_Replication
  imports Cluster_Rule Replication
begin

text \<open>
  What reconciling a ClusterReplicationRule achieves: the invariant it keeps, what it records in the
  status of the rule, and that a selected Secret reaches the target namespaces. This composes the
  rule reconciler with the replication use case.
\<close>

section \<open>Frame rules\<close>

text \<open>Whatever relation the calls of the client and the use case respect, the rule reconciler respects.\<close>

lemma io_reflect_listed:
  assumes "frame R" "\<And>bp source. state_io_rel R (AddAndExecute c bp (ReflectResources_Execute c source))"
  shows "state_io_rel R (reflect_listed c selector kind targets now isHelm toSource bp synced tot objs)"
  by (induction objs arbitrary: bp synced tot)
    (auto intro!: io_if io_bind io_case_prod io_case_option io_return assms)

lemma io_rule_reconcile:
  assumes "frame R" "state_io_rel R (time_Now c)" "\<And>t. state_io_rel R (time_Since c t)" "\<And>ops. state_io_rel R (record_metrics ops)"
    and "\<And>n. state_io_rel R (api (get_rule c n))" "\<And>ns. state_io_rel R (api (list_secrets c ns))"
    "\<And>ns. state_io_rel R (api (list_configmaps c ns))" "\<And>rule. state_io_rel R (api (update_rule_status c rule))"
    "\<And>k. state_io_rel R (api (rand_Intn c k))" "\<And>d. state_io_rel R (api (wait_for c d))"
    and "state_io_rel R (NamespaceLister_List c)" "\<And>source. state_io_rel R (ReflectResources_Execute c source)"
  shows "state_io_rel R (RuleReconciler_Reconcile c name)"
proof -
  have batch: "state_io_rel R (AddAndExecute c bp (ReflectResources_Execute c source))" for bp source
    unfolding AddAndExecute_def RateLimiter_Wait_def Let_def
    by (intro io_bind io_case_prod io_case_option io_return assms)
  have "state_io_rel R (process_types c rule selector targets processed tot rts)" for rule selector targets processed tot rts
    by (induction rts arbitrary: processed tot)
      (auto simp: processResourceTypeWithStats_def Let_def
        intro!: io_if io_bind io_case_prod io_case_sum io_return io_reflect_listed batch assms)
  then show ?thesis
    unfolding RuleReconciler_Reconcile_def determineTargetNamespaces_def processRule_def updateRuleStatus_def Let_def
    by (intro io_timed io_if io_bind io_case_prod io_case_sum io_case_option io_return assms)
qed

lemma io_sys_rule: "state_io_rel (keeps (wf_sys timeout)) (RuleReconciler_Reconcile c name)"
  by (intro io_rule_reconcile frame_keeps io_sys_prims)
section \<open>What is synced\<close>

text \<open>Objects that the rule does not select are passed over.\<close>

definition selects :: "regexp \<Rightarrow> ('a k8s_object_scheme \<Rightarrow> bool) \<Rightarrow> 'a k8s_object_scheme \<Rightarrow> bool" where
  "selects selector isHelm obj \<longleftrightarrow> regexp_MatchString selector (Name obj) \<and> \<not> isHelm obj"

lemma reflect_listed_filter:
  "reflect_listed c selector kind targets now isHelm toSource bp synced tot objs =
   reflect_listed c selector kind targets now isHelm toSource bp synced tot (filter (selects selector isHelm) objs)"
  by (induction objs arbitrary: bp synced tot) (auto simp: selects_def fun_eq_iff cong: option.case_cong)

lemma wrap64_add [simp]: "wrap64 (wrap64 a + b) = wrap64 (a + b)" "wrap64 (a + wrap64 b) = wrap64 (a + b)"
  unfolding wrap64_def by (simp_all add: mod_simps algebra_simps)

lemma wrap64_idem [simp]: "wrap64 (wrap64 a) = wrap64 a"
  using wrap64_add(1) [of a 0] by simp

text \<open>What one list of synced resources may hold and how the mirrors are counted.\<close>

definition synced_from :: "regexp \<Rightarrow> string \<Rightarrow> nat \<Rightarrow> SyncedResource \<Rightarrow> bool" where
  "synced_from selector ns targets r \<longleftrightarrow>
     regexp_MatchString selector (srName r) \<and> srNamespace r = ns \<and> srMirroredToCount r = int targets \<and>
     srResourceType r \<in> {''Secret'', ''ConfigMap''}"

lemma reflect_listed_result:
  assumes "list_all (\<lambda>obj. Namespace obj = ns) objs" and "kind \<in> {''Secret'', ''ConfigMap''}"
  shows "run_state (reflect_listed c selector kind targets now isHelm toSource bp synced tot objs) s = ((synced', tot'), s') \<Longrightarrow>
     wrap64 tot = tot \<Longrightarrow>
     \<exists>new. synced' = synced @ new \<and> tot' = wrap64 (tot + int (length new * targets)) \<and> list_all (synced_from selector ns targets) new"
  using assms(1)
proof (induction objs arbitrary: bp synced tot s)
  case (Cons obj objs)
  let ?run = "\<lambda>bp synced tot s. run_state (reflect_listed c selector kind targets now isHelm toSource bp synced tot objs) s"
  show ?case
  proof (cases "selects selector isHelm obj")
    case True
    obtain err bp' t where run: "run_state (AddAndExecute c bp (ReflectResources_Execute c (toSource obj))) s = ((err, bp'), t)"
      by (metis surj_pair)
    show ?thesis
    proof (cases err)
      case None
      let ?r = "\<lparr>srName = Name obj, srNamespace = Namespace obj, srResourceType = kind, srMirroredToCount = int targets,
        srLastSyncedTime = Some now\<rparr>"
      have "?run bp' (synced @ [?r]) (wrap64 (tot + int targets)) t = ((synced', tot'), s')"
        using Cons.prems(1) True None run by (simp add: selects_def)
      from Cons.IH [OF this] Cons.prems(3) obtain new where "synced' = synced @ ?r # new"
        "tot' = wrap64 (tot + int targets + int (length new * targets))" "list_all (synced_from selector ns targets) new"
        by auto
      moreover have "synced_from selector ns targets ?r"
        using True assms(2) Cons.prems(3) by (simp add: synced_from_def selects_def)
      ultimately show ?thesis
        by (intro exI [of _ "?r # new"]) (simp add: algebra_simps)
    next
      case (Some e)
      then have "?run bp' synced tot t = ((synced', tot'), s')"
        using Cons.prems(1) True run by (simp add: selects_def)
      from Cons.IH [OF this] Cons.prems show ?thesis by simp
    qed
  next
    case False
    then have "?run bp synced tot s = ((synced', tot'), s')"
      using Cons.prems(1) by (auto simp: selects_def split: if_splits)
    from Cons.IH [OF this] Cons.prems show ?thesis by simp
  qed
qed simp

lemma reflect_listed_all:
  assumes "fst (run_state (reflect_listed c selector kind targets now isHelm toSource bp [] 0 objs) t) = (synced, added)"
    "list_all (\<lambda>obj. Namespace obj = ns) objs" "kind \<in> {''Secret'', ''ConfigMap''}"
  shows "added = wrap64 (int (length synced * targets)) \<and> list_all (synced_from selector ns targets) synced"
proof -
  have "wrap64 0 = 0"
    by (simp add: wrap64_id)
  with reflect_listed_result [OF assms(2,3), of c selector targets now isHelm toSource bp "[]" 0 t synced added] assms(1)
  show ?thesis
    by (metis add_0 append_Nil prod.collapse)
qed

text \<open>A listing of a namespace contains objects of that namespace only.\<close>

definition lists_requested :: "'w client \<Rightarrow> bool" where
  "lists_requested c \<longleftrightarrow>
     (\<forall>ns w objs. fst (list_secrets c ns w) = Inr objs \<longrightarrow> list_all (\<lambda>obj. Namespace obj = ns) objs) \<and>
     (\<forall>ns w objs. fst (list_configmaps c ns w) = Inr objs \<longrightarrow> list_all (\<lambda>obj. Namespace obj = ns) objs)"

lemma processResourceType_result:
  assumes "lists_requested c" "run_state (processResourceTypeWithStats c rule rt selector targets) s = (Inr (synced, added), s')"
  shows "added = wrap64 (int (length synced * length targets)) \<and>
    list_all (synced_from selector (specSourceNamespace (ruleSpec rule)) (length targets)) synced"
proof -
  let ?ns = "specSourceNamespace (ruleSpec rule)"
  have zero: "wrap64 0 = 0"
    by (simp add: wrap64_id)
  note loop = reflect_listed_all [where ns = ?ns and targets = "length targets"]
  consider "rt = ''Secret''" | "rt = ''ConfigMap''" | "rt \<noteq> ''Secret''" "rt \<noteq> ''ConfigMap''" by blast
  then show ?thesis
  proof cases
    case 1
    with assms show ?thesis
      by (auto simp: processResourceTypeWithStats_def time_Now_def lists_requested_def Let_def case_prod_beta
          split: sum.splits dest!: loop)
  next
    case 2
    with assms show ?thesis
      by (auto simp: processResourceTypeWithStats_def time_Now_def lists_requested_def Let_def case_prod_beta
          split: sum.splits dest!: loop)
  next
    case 3
    with assms(2) zero show ?thesis
      by (simp add: processResourceTypeWithStats_def time_Now_def Let_def)
  qed
qed

lemma process_types_result:
  assumes "lists_requested c"
  shows "run_state (process_types c rule selector targets processed tot rts) s = ((processed', tot'), s') \<Longrightarrow> wrap64 tot = tot \<Longrightarrow>
     \<exists>new. processed' = processed @ new \<and> tot' = wrap64 (tot + int (length new * length targets)) \<and>
       list_all (synced_from selector (specSourceNamespace (ruleSpec rule)) (length targets)) new"
proof (induction rts arbitrary: processed tot s)
  case (Cons rt rts)
  obtain r t where run: "run_state (processResourceTypeWithStats c rule rt selector targets) s = (r, t)"
    by fastforce
  show ?case
  proof (cases r)
    case (Inl e)
    with Cons.prems run have "run_state (process_types c rule selector targets processed tot rts) t = ((processed', tot'), s')"
      by simp
    from Cons.IH [OF this] Cons.prems show ?thesis by simp
  next
    case (Inr out)
    obtain synced added where out: "out = (synced, added)" by fastforce
    with Inr run have first: "added = wrap64 (int (length synced * length targets))"
      "list_all (synced_from selector (specSourceNamespace (ruleSpec rule)) (length targets)) synced"
      using processResourceType_result [OF assms] by blast+
    from Inr out Cons.prems run
    have "run_state (process_types c rule selector targets (processed @ synced) (wrap64 (tot + added)) rts) t = ((processed', tot'), s')"
      by simp
    from Cons.IH [OF this] obtain new where "processed' = processed @ synced @ new"
      "tot' = wrap64 (tot + int (length synced * length targets) + int (length new * length targets))"
      "list_all (synced_from selector (specSourceNamespace (ruleSpec rule)) (length targets)) new"
      by (auto simp: first)
    with first(2) show ?thesis
      by (intro exI [of _ "synced @ new"]) (simp add: algebra_simps)
  qed
qed simp

lemma wrap32_wrap64 [simp]: "wrap32 (wrap64 i) = wrap32 i"
proof -
  have "wrap64 i + 2 ^ 31 - (i + 2 ^ 31) = 2 ^ 32 * (- (2 ^ 32 * ((i + 2 ^ 63) div 2 ^ 64)))"
    by (simp add: wrap64_def minus_div_mult_eq_mod [symmetric])
  then have "2 ^ 32 dvd (wrap64 i + 2 ^ 31 - (i + 2 ^ 31))"
    by (metis dvd_triv_left)
  then have "(wrap64 i + 2 ^ 31) mod 2 ^ 32 = (i + 2 ^ 31) mod 2 ^ 32"
    by (simp only: mod_eq_dvd_iff)
  then show ?thesis
    by (simp only: wrap32_def)
qed

text \<open>C19. What the status of a rule says after processing it: the synced resources are resources of the source
  namespace whose names the selector matches; each counts every target namespace as a mirror, and the
  mirrored count is the product, cut to 32 bits; the Active condition is set with the numbers in its message
  exactly when something was synced, and otherwise the previous condition stays. The specification of the
  rule is not changed.\<close>

theorem rule_status_counts:
  assumes "lists_requested c"
  shows "(let rule' = fst (run_state (processRule c rule selector targets) s);
              status = ruleStatus rule'; synced = slice (stSyncedResources status); n = length synced * length targets
          in list_all (\<lambda>r. regexp_MatchString selector (srName r) \<and> srNamespace r = specSourceNamespace (ruleSpec rule) \<and>
                srMirroredToCount r = int (length targets)) synced \<and>
             stMirroredCount status = wrap32 (int n) \<and>
             (if synced = [] then stCondition status = stCondition (ruleStatus rule)
              else map_option (\<lambda>cond. (condType cond, condMessage cond)) (stCondition status) =
                Some (''Active'', ''Synced '' @ dec_int (int (length synced)) @ '' resources to '' @
                  dec_int (wrap64 (int n)) @ '' mirrors'')) \<and>
             ruleSpec rule' = ruleSpec rule)"
proof -
  obtain now t where now: "run_state (time_Now c) s = (now, t)"
    by fastforce
  obtain processed tot u where run: "run_state (process_types c rule selector targets [] 0 (rule_types rule)) t = ((processed, tot), u)"
    by (metis surj_pair)
  have "wrap64 0 = 0"
    by (simp add: wrap64_id)
  from process_types_result [OF assms run this]
  have res: "tot = wrap64 (int (length processed * length targets))"
    "list_all (synced_from selector (specSourceNamespace (ruleSpec rule)) (length targets)) processed"
    by auto
  from res(2) have "list_all (\<lambda>r. regexp_MatchString selector (srName r) \<and> srNamespace r = specSourceNamespace (ruleSpec rule) \<and>
      srMirroredToCount r = int (length targets)) processed"
    by (rule list.pred_mono_strong) (simp add: synced_from_def)
  then show ?thesis
    using now run res(1)
    by (simp add: processRule_def rule_status_def slice_def ReplicationRuleActive_def Let_def)
qed

text \<open>A rule for the Secrets of a namespace, and a client that lists one Secret.\<close>

definition example_rule :: "string \<Rightarrow> ClusterReplicationRule" where
  "example_rule selector =
     \<lparr>Name = ''rule'', Namespace = '''', Annotations = None, Labels = Map.empty, ResourceVersion = ''7'', UID = '''',
      Finalizers = [], OwnerReferences = [], ruleGeneration = 3,
      ruleSpec = \<lparr>specSourceNamespace = ''prod'', specSourceSelector = selector, specResourceTypes = Some [''Secret''],
        specTargetNamespaces = \<lparr>tnSelector = '''', tnExcludes = None, tnIncludes = Some [''dev'']\<rparr>,
        specTargetNameTemplate = '''', specAnnotationsToCopy = None, specLabelsToCopy = None\<rparr>,
      ruleStatus = \<lparr>stActiveMirrors = 0, stErrors = 0, stLastSyncTime = None, stObservedGeneration = 0,
        stSyncedResources = None, stMirroredCount = 0, stCondition = None\<rparr>\<rparr>"

definition example_secret :: Secret where
  "example_secret = (new_Secret ''db'' ''prod'' Map.empty [''pw'' \<mapsto> ''s3cret''] ''Opaque'')\<lparr>ResourceVersion := ''41''\<rparr>"

definition rule_client :: "cluster client" where
  "rule_client = cluster_client
     \<lparr>get_rule := (\<lambda>n w. (Inr (example_rule ''db''), w)),
      list_secrets := (\<lambda>ns w. (Inr (if ns = ''prod'' then [example_secret] else []), w))\<rparr>"

lemma rule_client_lists: "lists_requested rule_client"
  by (simp add: lists_requested_def rule_client_def cluster_client_def example_secret_def new_Secret_def)

theorem rule_status_counts_witness:
  "(let rule' = fst (run_state (processRule rule_client (example_rule ''db'') (projr (compileSelector ''db'')) [''dev'', ''qa'']) (started empty_cluster))
    in ruleSpec rule' = ruleSpec (example_rule ''db'') \<and>
       stMirroredCount (ruleStatus rule') = wrap32 (int (length (slice (stSyncedResources (ruleStatus rule'))) * 2)))"
  using rule_status_counts [OF rule_client_lists, of "example_rule ''db''" "projr (compileSelector ''db'')"
      "[''dev'', ''qa'']" "started empty_cluster"]
  by (auto simp: Let_def mult.commute)

section \<open>Replication by a rule\<close>

text \<open>Waiting is not cut short by a cancelled context.\<close>

definition never_cancelled :: "'w client \<Rightarrow> bool" where
  "never_cancelled c \<longleftrightarrow> (\<forall>d w. fst (wait_for c d w) = None)"

lemma api_reads_view:
  assumes "api_server c view"
  shows "view (snd (clock c w)) = view w" "view (snd (get_rule c n w)) = view w" "view (snd (list_namespaces c w)) = view w"
    "view (snd (list_secrets c ns w)) = view w" "view (snd (rand_Intn c k w)) = view w" "view (snd (wait_for c d w)) = view w"
  using api_serverD(1) [OF assms] by (simp_all add: reads_keep_def keeps_view_def)

lemma AddAndExecute_run:
  assumes "api_server c view" "never_cancelled c"
  obtains w bp' where "view w = view (world s)"
    "run_state (AddAndExecute c bp work) s = (let (r, t) = run_state work (s\<lparr>world := w\<rparr>) in ((r, bp'), t))"
proof -
  let ?rand = "rand_Intn c (nat (defaultMaxDelayMs - defaultMinDelayMs)) (world s)"
  let ?now = "clock c (snd ?rand)"
  let ?allow = "Allow (fst ?now) (limiter bp)"
  let ?w = "snd (wait_for c (wait_delay (fst ?rand) (fst ?allow)) (snd ?now))"
  have "view ?w = view (world s)"
    by (simp add: api_reads_view [OF assms(1)])
  moreover have "run_state (AddAndExecute c bp work) s =
      (let (r, t) = run_state work (s\<lparr>world := ?w\<rparr>) in ((r, bp\<lparr>limiter := snd ?allow\<rparr>), t))"
    using assms(2) by (simp add: AddAndExecute_def RateLimiter_Wait_def time_Now_def never_cancelled_def Let_def case_prod_beta)
  ultimately show thesis
    by (rule that)
qed

text \<open>Processing a rule for Secrets that selects one Secret is one run of the use case for it, between
  calls that change no object.\<close>

lemma processRule_single:
  assumes "api_server c view" "never_cancelled c" and "slice (specResourceTypes (ruleSpec rule)) = [''Secret'']"
    and "\<forall>w. view w = view (world s) \<longrightarrow> (\<exists>objs. fst (list_secrets c (specSourceNamespace (ruleSpec rule)) w) = Inr objs \<and>
       filter (selects selector IsHelmSecret) objs = [obj])"
  obtains w w' where "view w = view (world s)"
    "snd (run_state (processRule c rule selector targets) s) =
       snd (run_state (ReflectResources_Execute c (fst (Rule_secretToSource obj rule targets))) (s\<lparr>world := w\<rparr>))"
proof -
  note views = api_reads_view [OF assms(1)]
  let ?w = "snd (clock c (snd (clock c (snd (clock c (world s))))))"
  let ?bp = "NewBatchProcessor (fst (clock c (snd (clock c (snd (clock c (world s))))))) defaultRateLimitQPS defaultRateLimitBurst defaultBatchSize"
  let ?ns = "specSourceNamespace (ruleSpec rule)"
  let ?work = "ReflectResources_Execute c (fst (Rule_secretToSource obj rule targets))"
  obtain objs where objs: "fst (list_secrets c ?ns ?w) = Inr objs" "filter (selects selector IsHelmSecret) objs = [obj]"
    using assms(4) [rule_format, of ?w] by (auto simp: views)
  obtain w bp' where w: "view w = view (world (s\<lparr>world := snd (list_secrets c ?ns ?w)\<rparr>))"
    and run: "run_state (AddAndExecute c ?bp ?work) (s\<lparr>world := snd (list_secrets c ?ns ?w)\<rparr>) =
      (let (r, t) = run_state ?work (s\<lparr>world := snd (list_secrets c ?ns ?w), world := w\<rparr>) in ((r, bp'), t))"
    by (rule AddAndExecute_run [OF assms(1,2)])
  have "selects selector IsHelmSecret obj"
    using objs(2) by (metis filter_eq_Cons_iff list.set_intros(1) in_set_conv_decomp)
  then have one: "snd (run_state (reflect_listed c selector kind n now IsHelmSecret (\<lambda>sec. fst (Rule_secretToSource sec rule targets)) ?bp [] 0 objs)
      (s\<lparr>world := snd (list_secrets c ?ns ?w)\<rparr>)) = snd (run_state ?work (s\<lparr>world := w\<rparr>))" for kind n now
    unfolding reflect_listed_filter [of _ _ _ _ _ _ _ _ _ _ objs] objs(2)
    by (simp add: run selects_def case_prod_beta Let_def split: option.split)
  have "snd (run_state (processRule c rule selector targets) s) = snd (run_state ?work (s\<lparr>world := w\<rparr>))"
    using assms(3) objs(1) one
    by (simp add: processRule_def rule_types_def processResourceTypeWithStats_def time_Now_def Let_def case_prod_beta)
  then show thesis
    using that [of w] w by (simp add: views)
qed

lemma select_namespaces_set:
  assumes "select_namespaces target names = Inr targets"
  shows "set targets = {ns \<in> set names. (slice (tnIncludes target) = [] \<or> ns \<in> set (slice (tnIncludes target))) \<and>
     (tnSelector target \<noteq> '''' \<longrightarrow> (\<exists>re. compileSelector (tnSelector target) = Inr re \<and> regexp_MatchString re ns)) \<and>
     ns \<notin> set (slice (tnExcludes target))}"
  using assms by (auto simp: select_namespaces_def Let_def list_ex_iff split: if_splits sum.splits)

lemma rule_reconcile_run:
  assumes "api_server c view" "\<forall>w. fst (get_rule c name w) = Inr rule" "\<forall>rule w. view (snd (update_rule_status c rule w)) = view w"
    and "specSourceNamespace (ruleSpec rule) \<noteq> ''''" "compileSelector (specSourceSelector (ruleSpec rule)) = Inr selector"
    and "select_namespaces (specTargetNamespaces (ruleSpec rule)) (obj_namespaces (view (world s))) = Inr targets"
  obtains w where "view w = view (world s)" "fst (run_state (RuleReconciler_Reconcile c name) s) = None"
    "view (world (snd (run_state (RuleReconciler_Reconcile c name) s))) =
     view (world (snd (run_state (processRule c rule selector targets) (s\<lparr>world := w\<rparr>))))"
proof -
  note views = api_reads_view [OF assms(1)]
  let ?w = "snd (list_namespaces c (snd (get_rule c name (snd (clock c (world s))))))"
  have update: "view (world (snd (run_state (updateRuleStatus c r ts) t))) = view (world t)" for r ts t
    using assms(3) by (simp add: updateRuleStatus_def time_Now_def Let_def views split: option.split)
  have "fst (run_state (determineTargetNamespaces c (specTargetNamespaces (ruleSpec rule)))
      (s\<lparr>world := snd (get_rule c name (snd (clock c (world s))))\<rparr>)) = Inr targets"
    using assms(6) by (simp add: determineTargetNamespaces_def NamespaceLister_List_def api_serverD(2) [OF assms(1)] views)
  moreover have "snd (run_state (determineTargetNamespaces c tn) t) = t\<lparr>world := snd (list_namespaces c (world t))\<rparr>" for tn t
    by (simp add: determineTargetNamespaces_def NamespaceLister_List_def)
  ultimately have "fst (run_state (RuleReconciler_Reconcile c name) s) = None \<and>
    view (world (snd (run_state (RuleReconciler_Reconcile c name) s))) =
     view (world (snd (run_state (processRule c rule selector targets) (s\<lparr>world := ?w\<rparr>))))"
    using assms(2,4,5)
    by (simp add: RuleReconciler_Reconcile_def timed_def time_Now_def time_Since_def case_prod_beta Let_def views update)
  then show thesis
    using that [of ?w] by (simp add: views)
qed


definition rule_cluster :: cluster where
  "rule_cluster = empty_cluster\<lparr>cl_secrets := [(''prod'', ''db'') \<mapsto> example_secret]\<rparr>"

lemma rule_client_server: "api_server rule_client cluster_view" "never_cancelled rule_client"
  using cluster_api_server
  by (simp_all add: api_server_def reads_keep_def keeps_view_def rule_client_def never_cancelled_def cluster_client_def)

lemma example_selector:
  "compileSelector ''db'' = Inr (projr (compileSelector ''db'')) \<and> regexp_MatchString (projr (compileSelector ''db'')) ''db''"
  using compileSelector_name [of "''db''"] by (auto simp: dns_label_def is_alnum_def is_digit_def)


section \<open>Selectors with alternatives\<close>

abbreviation lit :: "char \<Rightarrow> regex" where
  "lit c \<equiv> RChar (of_char c)"

lemma parse_loop_plain:
  "is_alnum c \<or> c = 45 \<Longrightarrow> parse_loop w st (c # t) = parse_loop w (push_re (RChar c) st) t"
  by (simp add: parse_step_plain)

lemma dns_label_excludes: "dns_label s \<Longrightarrow> CHR ''^'' \<notin> set s \<and> CHR ''.'' \<notin> set s \<and> CHR ''$'' \<notin> set s \<and> CHR ''*'' \<notin> set s"
  by (auto dest: dns_label_not_special simp: is_alnum_def is_digit_def)

lemma parse_loop_literals:
  "dns_label (c # cs) \<Longrightarrow>
   parse_loop w st (map of_char (c # cs) @ t) =
   parse_loop w (st\<lparr>cats := rev (map lit (c # cs)) @ cats st, lastRepeat := None\<rparr>) t"
proof (induction cs arbitrary: c st)
  case Nil
  then show ?case
    by (auto simp: dns_label_def parse_step_plain push_re_def)
next
  case (Cons d cs)
  from Cons.prems have "is_alnum (of_char c) \<or> of_char c = (45 :: nat)" "dns_label (d # cs)"
    by (auto simp: dns_label_def)
  have "parse_loop w st (map of_char (c # d # cs) @ t) = parse_loop w (push_re (lit c) st) (map of_char (d # cs) @ t)"
    using parse_loop_plain [OF \<open>is_alnum _ \<or> _\<close>] by (simp only: list.map append_Cons)
  also have "\<dots> = parse_loop w ((push_re (lit c) st)\<lparr>cats := rev (map lit (d # cs)) @ cats (push_re (lit c) st), lastRepeat := None\<rparr>) t"
    by (rule Cons.IH) fact
  also have "(push_re (lit c) st)\<lparr>cats := rev (map lit (d # cs)) @ cats (push_re (lit c) st), lastRepeat := None\<rparr> =
      st\<lparr>cats := rev (map lit (c # d # cs)) @ cats st, lastRepeat := None\<rparr>"
    by (simp add: push_re_def)
  finally show ?case .
qed

definition alternative_regex :: "string \<Rightarrow> string \<Rightarrow> regex" where
  "alternative_regex a b = RAlt (cat_list (RBeginText # map lit a)) (cat_list (map lit b @ [REndText]))"

lemma compileSelector_alternatives:
  assumes "dns_label a" "dns_label b"
  shows "compileSelector (a @ ''|'' @ b) = Inr (alternative_regex a b, 0)"
proof -
  let ?s = "a @ ''|'' @ b"
  have "\<not> strings_HasPrefix ?s ''^''" "\<not> strings_HasPrefix ?s ''.*''" "\<not> strings_HasSuffix ?s ''$''" "\<not> strings_HasSuffix ?s ''.*''"
    using assms [THEN dns_label_excludes] by (auto dest!: affix_chars)
  then have re: "selector_regex ?s = ''^'' @ ?s @ ''$''"
    by (simp add: selector_regex_def)
  have asc: "ascii (''^'' @ ?s @ ''$'')"
    using assms [THEN dns_label_text] by (auto simp: ascii_def)
  have valid: "valid_utf8 (''^'' @ ?s @ ''$'')"
    using asc by (rule valid_utf8_ascii)
  obtain c cs d ds where ab: "a = c # cs" "b = d # ds"
    using assms by (cases a; cases b) (auto simp: dns_label_def)
  let ?w = "runes (''^'' @ ?s @ ''$'')"
  let ?st = "\<lambda>as cs. init_pstate\<lparr>alts := as, cats := cs\<rparr>"
  have "?w = 94 # (map of_char a @ (124 # (map of_char b @ [36])))"
    using runes_ascii [OF asc] by simp
  then have "regexp_Compile (''^'' @ ?s @ ''$'') = parse_loop ?w init_pstate (94 # (map of_char a @ (124 # (map of_char b @ [36]))))"
    using valid by (simp only: regexp_Compile_def if_True)
  also have "\<dots> = parse_loop ?w (?st [] [RBeginText]) (map of_char a @ (124 # (map of_char b @ [36])))"
    by (simp add: parse_step_def init_pstate_def perl_flags_def push_re_def)
  also have "\<dots> = parse_loop ?w (?st [] (rev (RBeginText # map lit a))) (124 # (map of_char b @ [36]))"
    unfolding ab parse_loop_literals [OF assms(1) [unfolded ab]] by (simp add: init_pstate_def)
  also have "\<dots> = parse_loop ?w (?st [cat_list (RBeginText # map lit a)] []) (map of_char b @ [36])"
    by (simp add: parse_step_def init_pstate_def)
  also have "\<dots> = parse_loop ?w (?st [cat_list (RBeginText # map lit a)] (rev (map lit b))) [36]"
    unfolding ab parse_loop_literals [OF assms(2) [unfolded ab]] by (simp add: init_pstate_def)
  also have "\<dots> = Inr (alternative_regex a b, 0)"
    by (simp add: parse_step_def init_pstate_def perl_flags_def push_re_def collapse_def alternative_regex_def)
  finally have "regexp_Compile (''^'' @ ?s @ ''$'') = Inr (alternative_regex a b, 0)" .
  then show ?thesis
    by (simp add: compileSelector_def re [simplified])
qed

lemma re_match_literals:
  "re_match (cat_list (map lit cs)) inp (i, caps) =
   (if take (length cs) (drop i inp) = map of_char cs then [(i + length cs, caps)] else [])"
proof (induction cs arbitrary: i)
  case (Cons c cs)
  show ?case
  proof (cases "i < length inp \<and> inp ! i = of_char c")
    case True
    then have "drop i inp = of_char c # drop (Suc i) inp"
      by (metis Cons_nth_drop_Suc)
    with True Cons.IH [of "Suc i"] show ?thesis
      by (simp add: re_match_cat_list one_rune_def del: cat_list.simps)
  next
    case False
    then have "take (length (c # cs)) (drop i inp) \<noteq> map of_char (c # cs)"
      by (cases "drop i inp") (auto simp: drop_eq_Nil2 nth_via_drop dest: nth_via_drop)
    with False show ?thesis
      by (auto simp: re_match_cat_list one_rune_def simp del: cat_list.simps)
  qed
qed simp

lemma re_match_cat_append:
  "re_match (cat_list (rs @ ss)) inp st = concat (map (re_match (cat_list ss) inp) (re_match (cat_list rs) inp st))"
proof (induction rs arbitrary: st)
  case (Cons r rs)
  have "concat (map f (concat (map g xs))) = concat (map (\<lambda>x. concat (map f (g x))) xs)" for f :: "mstate \<Rightarrow> mstate list" and g and xs :: "mstate list"
    by (induction xs) simp_all
  moreover have "re_match (cat_list (rs @ ss)) inp = (\<lambda>st. concat (map (re_match (cat_list ss) inp) (re_match (cat_list rs) inp st)))"
    using Cons by (rule ext)
  ultimately show ?case
    by (simp only: append_Cons re_match_cat_list)
qed simp

text \<open>C20. Alternatives in a selector escape its anchors: \<open>compileSelector\<close> puts the anchors around the text of
  the selector, so \<open>a|b\<close> becomes \<open>^a|b$\<close>. For DNS labels \<open>a\<close> and \<open>b\<close> the expression matches exactly
  the names that begin with \<open>a\<close> or end with \<open>b\<close>, not only the two names.\<close>

theorem selector_alternatives_unanchored:
  assumes "dns_label a" and "dns_label b"
  shows "\<exists>re. compileSelector (a @ ''|'' @ b) = Inr re \<and>
     (\<forall>name. dns_label name \<longrightarrow> (regexp_MatchString re name \<longleftrightarrow> strings_HasPrefix name a \<or> strings_HasSuffix name b))"
proof -
  have "regexp_MatchString (alternative_regex a b, 0) name \<longleftrightarrow> strings_HasPrefix name a \<or> strings_HasSuffix name b"
    if "dns_label name" for name
  proof -
    let ?inp = "map of_char name :: rune list"
    have runes: "runes name = ?inp"
      using dns_label_text [OF that] by (simp add: runes_ascii)
    have chars: "map of_char xs = (map of_char ys :: rune list) \<longleftrightarrow> xs = ys" for xs ys :: string
      by (metis injI inj_map_eq_map of_char_eq_iff)
    have same_text: "take n (drop i ?inp) = map of_char xs \<longleftrightarrow> take n (drop i name) = xs" for n i xs
      by (simp only: take_map drop_map chars)
    have "re_match (alternative_regex a b) ?inp (i, []) \<noteq> [] \<longleftrightarrow>
        i = 0 \<and> take (length a) (drop i name) = a \<or> take (length b) (drop i name) = b \<and> i + length b = length name" for i
      unfolding alternative_regex_def re_match.simps re_match_cat_list [of RBeginText] re_match_cat_append re_match_literals same_text
      by (auto simp: empty_if_def re_match_literals same_text same_text [of _ 0, unfolded drop_0])
    then have "regexp_MatchString (alternative_regex a b, 0) name \<longleftrightarrow>
        (\<exists>i \<le> length name. i = 0 \<and> take (length a) (drop i name) = a \<or> take (length b) (drop i name) = b \<and> i + length b = length name)"
      by (simp add: regexp_MatchString_def runes Let_def list_ex_upto del: upt_Suc)
    also have "\<dots> \<longleftrightarrow> strings_HasPrefix name a \<or> strings_HasSuffix name b"
      unfolding strings_HasPrefix_def strings_HasSuffix_def by (auto intro: exI [of _ "length name - length b"])
    finally show ?thesis .
  qed
  with compileSelector_alternatives [OF assms] show ?thesis
    by blast
qed

theorem selector_alternatives_unanchored_witness:
  "\<exists>re. compileSelector ''dev|prod'' = Inr re \<and> regexp_MatchString re ''developer'' \<and> regexp_MatchString re ''nonprod''"
proof -
  have "dns_label ''dev''" "dns_label ''prod''" "dns_label ''developer''" "dns_label ''nonprod''"
    by (simp_all add: dns_label_def is_alnum_def is_digit_def)
  with selector_alternatives_unanchored [of "''dev''" "''prod''"] show ?thesis
    by (force simp: strings_HasPrefix_def strings_HasSuffix_def)
qed

end
