(* ===== verification/Source_Replication.thy ===== *)
theory Source_Replication
  imports Controllers Replication
begin

text \<open>
  What reconciling an annotated Secret or ConfigMap achieves, in terms of its annotations: this composes the
  source reconciler, the readers of the annotations, the patterns of namespaces and the replication use case.
\<close>

section \<open>Annotations\<close>

text \<open>The namespace is listed by the value of an annotation: one of its patterns matches it as a glob.\<close>

definition listed :: "string \<Rightarrow> string \<Rightarrow> bool" where
  "listed str ns \<longleftrightarrow> (\<exists>p \<in> set (ParseAllowedNamespacesAnnotation str). strings_TrimSpace p \<noteq> [] \<and> glob (strings_TrimSpace p) ns)"

definition plain_list :: "string \<Rightarrow> bool" where
  "plain_list str \<longleftrightarrow> (\<forall>p \<in> set (ParseAllowedNamespacesAnnotation str). plain_pattern (strings_TrimSpace p))"

lemma annotated_matches:
  assumes "plain_list str" "dns_label ns"
  shows "Matches (annotated_namespaces str) ns \<longleftrightarrow> str \<noteq> '''' \<and> listed str ns"
proof -
  obtain an where "NewAllowedNamespaces (ParseAllowedNamespacesAnnotation str) = Inr an"
    and "Matches an ns \<longleftrightarrow> (\<exists>p \<in> set (ParseAllowedNamespacesAnnotation str). strings_TrimSpace p \<noteq> [] \<and> glob (strings_TrimSpace p) ns)"
    using add_patterns_glob [OF assms(1) [unfolded plain_list_def] assms(2), of AllowedNamespaces_zero]
    by (auto simp: NewAllowedNamespaces_def)
  then show ?thesis
    by (simp add: annotated_namespaces_def AllowedNamespaces_or_zero_def listed_def)
qed

text \<open>The annotations ask for a copy in the namespace: replication is allowed and automatic, replicate-to
  lists the namespace, and auto-replicate-to is missing or lists it as well.\<close>

definition asks_for :: "'a k8s_object_scheme \<Rightarrow> string \<Rightarrow> bool" where
  "asks_for obj ns \<longleftrightarrow>
     annotation obj AnnotationReplicationAllowed = ''true'' \<and> annotation obj AnnotationReplicationAutoEnabled = ''true'' \<and>
     annotation obj AnnotationReplicationAllowedNamespaces \<noteq> '''' \<and> listed (annotation obj AnnotationReplicationAllowedNamespaces) ns \<and>
     (annotation obj AnnotationReplicationAutoNamespaces = '''' \<or> listed (annotation obj AnnotationReplicationAutoNamespaces) ns)"

definition plain_annotations :: "'a k8s_object_scheme \<Rightarrow> bool" where
  "plain_annotations obj \<longleftrightarrow> plain_list (annotation obj AnnotationReplicationAllowedNamespaces) \<and>
     plain_list (annotation obj AnnotationReplicationAutoNamespaces)"

lemma source_of_permits:
  assumes "asks_for obj ns" "plain_annotations obj" "dns_label ns"
    and "source = source_of typ (annotated_namespaces (annotation obj AnnotationReplicationAutoNamespaces)) obj"
  shows "CanReflectToNamespace source ns" "CanAutoMirrorToNamespace source ns"
  using assms by (auto simp: asks_for_def plain_annotations_def CanReflectToNamespace_def CanAutoMirrorToNamespace_def annotated_matches
      annotated_namespaces_def [of "''''"])

section \<open>The reconciler\<close>

text \<open>Once a replicable source has been read, reconciling is one run of the use case; nothing but the
  not-found cache, the metrics and the world differs before it.\<close>

lemma source_reconcile_executes:
  assumes "reads_keep (keeps_view view) c" "map_of (entries (notFoundCache s)) (cacheKey ns n) = None"
    and "\<And>t. view (world t) = view (world s) \<Longrightarrow> fst (run_state (SourceReconciler_fetchSource c ns n) t) = Inr (Some source)"
    and "dispatcher s = NewInMemoryDispatcher"
  obtains w nf ms where "view w = view (world s)"
    "fst (run_state (SourceReconciler_Reconcile c ns n) s) =
       map_option (Wrapped ''failed to replicate'')
         (fst (run_state (ReflectResources_Execute c source) (s\<lparr>world := w, notFoundCache := nf, metrics := ms\<rparr>)))"
    "view (world (snd (run_state (SourceReconciler_Reconcile c ns n) s))) =
       view (world (snd (run_state (ReflectResources_Execute c source) (s\<lparr>world := w, notFoundCache := nf, metrics := ms\<rparr>))))"
proof -
  let ?w = "snd (clock c (snd (clock c (world s))))"
  have "state_io_rel world_only (SourceReconciler_fetchSource c ns n)"
    unfolding SourceReconciler_fetchSource_def by (intro io_if io_bind io_return io_case_sum io_world_only frame_world_only)
  then obtain r w where fetch: "run_state (SourceReconciler_fetchSource c ns n) (s\<lparr>world := ?w\<rparr>) = (r, s\<lparr>world := ?w\<rparr>\<lparr>world := w\<rparr>)"
    by (rule run_world_only)
  have "state_io_rel (world_rel (keeps_view view)) (SourceReconciler_fetchSource c ns n)"
    unfolding SourceReconciler_fetchSource_def
    by (intro io_if io_bind io_return io_case_sum io_world_reads [OF assms(1)] frame_world_rel [OF assms(1)])
  from io_view(1) [OF this, of "s\<lparr>world := ?w\<rparr>"] have "view w = view (world s)"
    using assms(4) by (simp add: fetch kept_views [OF assms(1)])
  moreover have "r = Inr (Some source)"
    using assms(3) [of "s\<lparr>world := ?w\<rparr>"] fetch by (simp add: kept_views [OF assms(1)])
  ultimately show thesis
    using assms(2) fetch
    by (intro that [where w = w and nf = "fst (MarkFound (cacheKey ns n) (notFoundCache s))"
          and ms = "metrics s @ snd (MarkFound (cacheKey ns n) (notFoundCache s))"])
      (simp_all add: SourceReconciler_Reconcile_def timed_def notFoundCache_IsNotFound_def notFoundCache_MarkFound_def
        NotFoundCache_IsNotFound_def Cache_Get_def time_Now_def time_Since_def Let_def case_prod_beta kept_views [OF assms(1)]
        split: option.splits)
qed

section \<open>Properties\<close>

lemma fetch_secret:
  assumes "api_server c view" "obj_secrets (view (world t)) (ns, n) = Some obj" "\<not> IsHelmSecret obj"
  shows "fst (run_state (SourceReconciler_fetchSource c ns n) t) = Inr (SourceReconciler_secretToSource obj)"
  using servesD(1) [OF api_serverD(3) [OF assms(1)], of ns n "world t"] assms(2,3)
  by (simp add: SourceReconciler_fetchSource_def)

lemma fetch_configmap:
  assumes "api_server c view" "obj_secrets (view (world t)) (ns, n) = None" "obj_configmaps (view (world t)) (ns, n) = Some obj"
    and "\<not> IsHelmConfigMap obj"
  shows "fst (run_state (SourceReconciler_fetchSource c ns n) t) = Inr (SourceReconciler_configMapToSource obj)"
  using servesD(1) [OF api_serverD(3) [OF assms(1)], of ns n "world t"]
    servesD(1) [OF api_serverD(4) [OF assms(1)], of ns n "snd (get_secret c ns n (world t))"] assms(2-4)
  by (simp add: SourceReconciler_fetchSource_def api_views [OF assms(1)])

lemma secret_reconcile_reaches:
  assumes "api_server c view" and "wf_store s" and "dispatcher s = NewInMemoryDispatcher"
    and "map_of (entries (notFoundCache s)) (ns @ ''/'' @ n) = None"
    and "obj_secrets (view (world s)) (ns, n) = Some obj" and "\<not> IsHelmSecret obj"
    and "ns \<noteq> ''''" and "n \<noteq> ''''" and "ResourceVersion obj \<noteq> ''''" and "plain_annotations obj"
    and "target \<in> set (obj_namespaces (view (world s)))" and "dns_label target" and "target \<noteq> ns" and "asks_for obj target"
    and "stored s (NewMirrorID target n) = None" and "obj_secrets (view (world s)) (target, n) = None"
  shows "fst (run_state (SourceReconciler_Reconcile c ns n) s) = None \<and>
     (\<exists>obj'. obj_secrets (view (world (snd (run_state (SourceReconciler_Reconcile c ns n) s)))) (target, n) = Some obj' \<and>
        Data obj' = Data obj \<and> Type obj' = Type obj \<and> annotation obj' AnnotationReflects = ns @ ''/'' @ n)"
proof -
  let ?source = "source_of ResourceTypeSecret (annotated_namespaces (annotation obj AnnotationReplicationAutoNamespaces)) obj"
  have key: "Namespace obj = ns" "Name obj = n"
    using servesD(2) [OF api_serverD(3) [OF assms(1)] assms(5)] by simp_all
  have read: "SourceReconciler_secretToSource obj = Some ?source"
    using assms(14) by (simp add: asks_for_def source_secret.read_eq)
  have fetch: "fst (run_state (SourceReconciler_fetchSource c ns n) t) = Inr (Some ?source)" if "view (world t) = view (world s)" for t
    using fetch_secret [OF assms(1) _ assms(6), of t ns n] that assms(5) by (simp add: read)
  obtain w nf ms where w: "view w = view (world s)"
    "fst (run_state (SourceReconciler_Reconcile c ns n) s) = map_option (Wrapped ''failed to replicate'')
       (fst (run_state (ReflectResources_Execute c ?source) (s\<lparr>world := w, notFoundCache := nf, metrics := ms\<rparr>)))"
    "view (world (snd (run_state (SourceReconciler_Reconcile c ns n) s))) =
       view (world (snd (run_state (ReflectResources_Execute c ?source) (s\<lparr>world := w, notFoundCache := nf, metrics := ms\<rparr>))))"
    by (rule source_reconcile_executes [OF api_serverD(1) [OF assms(1)] assms(4) [folded cacheKey_def] fetch assms(3)])
  let ?t = "s\<lparr>world := w, notFoundCache := nf, metrics := ms\<rparr>"
  have t: "wf_store ?t" "dispatcher ?t = NewInMemoryDispatcher" "stored ?t = stored s" "view (world ?t) = view (world s)"
    using assms(2,3) w(1) by (simp_all add: wf_store_def stored_def fun_eq_iff)
  have ok: "ValidateSource (Some ?source) = None" "source_allowed ?source"
    using assms(7,8) key by (simp_all add: ValidateSource_def)
  note permits = source_of_permits [OF assms(14,10,12) refl, of ResourceTypeSecret]
  have "good_at (obj_secrets (view (world (snd (run_state (ReflectResources_Execute c ?source) ?t))))) (target, TargetName ?source)
      (good_secret ?source (secret_content obj))"
    using assms permits ok(1) t by (intro secrets.Execute_reaches [OF assms(1)]) (simp_all add: key)
  then show ?thesis
    using secrets.Execute_succeeds [OF assms(1) ok _ t(1,2)]
    by (auto simp: w(2,3) good_at_def good_secret_def secret_content_def mirror_meta_def SourceID_String_def key)
qed

text \<open>An annotated Secret reaches the namespaces its annotations list. On an API server that behaves as
  documented, reconciling a Secret with \<open>replicate: "true"\<close> and \<open>auto-replicate: "true"\<close> succeeds and copies
  it to each existing namespace that replicate-to lists (read as comma-separated globs) and that
  auto-replicate-to, if present, lists as well, and where nothing of its name exists.\<close>

theorem annotated_secret_replicated:
  assumes "api_server c view" and "wf_store s" and "dispatcher s = NewInMemoryDispatcher"
    and "map_of (entries (notFoundCache s)) (ns @ ''/'' @ n) = None"
    and "obj_secrets (view (world s)) (ns, n) = Some obj" and "\<not> IsHelmSecret obj"
    and "ns \<noteq> ''''" and "n \<noteq> ''''" and "ResourceVersion obj \<noteq> ''''" and "plain_annotations obj"
    and "target \<in> set (obj_namespaces (view (world s)))" and "dns_label target" and "target \<noteq> ns" and "asks_for obj target"
    and "stored s (NewMirrorID target n) = None" and "obj_secrets (view (world s)) (target, n) = None"
  shows "fst (run_state (SourceReconciler_Reconcile c ns n) s) = None \<and>
     (\<exists>obj'. obj_secrets (view (world (snd (run_state (SourceReconciler_Reconcile c ns n) s)))) (target, n) = Some obj' \<and>
        Data obj' = Data obj \<and> Type obj' = Type obj \<and> annotation obj' AnnotationReflects = ns @ ''/'' @ n)"
  using assms by (rule secret_reconcile_reaches)

definition star_annotations :: string_map where
  "star_annotations = [AnnotationReplicationAllowed \<mapsto> ''true'', AnnotationReplicationAutoEnabled \<mapsto> ''true'',
     AnnotationReplicationAllowedNamespaces \<mapsto> ''*'']"

definition annotated_cluster :: cluster where
  "annotated_cluster = empty_cluster\<lparr>cl_secrets := [(''prod'', ''db'') \<mapsto>
     (new_Secret ''db'' ''prod'' star_annotations [''pw'' \<mapsto> ''s3cret''] ''Opaque'')\<lparr>ResourceVersion := ''7''\<rparr>]\<rparr>"

lemma star_listed: "plain_list ''*''" "listed ''*'' ns" "plain_list ''''"
proof -
  have "strings_TrimSpace ''*'' = ''*''"
    by (simp add: strings_TrimSpace_ascii trim_both_def unicode_IsSpace_def)
  moreover have "glob ''*'' ns"
    by (auto simp: list_ex_iff intro: bexI [of _ "length ns"])
  ultimately show "plain_list ''*''" "listed ''*'' ns" "plain_list ''''"
    by (simp_all add: plain_list_def listed_def ParseAllowedNamespacesAnnotation_def plain_pattern_def plain_char_def)
qed

lemma star_object:
  assumes "Annotations obj = Some star_annotations"
  shows "plain_annotations obj" "asks_for obj ns"
proof -
  have "annotation obj AnnotationReplicationAllowed = ''true''" "annotation obj AnnotationReplicationAutoEnabled = ''true''"
    "annotation obj AnnotationReplicationAllowedNamespaces = ''*''" "annotation obj AnnotationReplicationAutoNamespaces = ''''"
    using assms by (simp_all add: annotation_def star_annotations_def)
  then show "plain_annotations obj" "asks_for obj ns"
    by (simp_all add: plain_annotations_def asks_for_def star_listed)
qed

lemma star_no_helm: "star_annotations ''meta.helm.sh/release-name'' = None" "star_annotations ''helm.sh/release'' = None"
  by (simp_all add: star_annotations_def annotation_keys)

theorem annotated_secret_replicated_witness:
  "(let w = world (snd (run_state (SourceReconciler_Reconcile cluster_client ''prod'' ''db'') (started annotated_cluster)))
    in map_option (\<lambda>obj. Data obj ''pw'') (cl_secrets w (''dev'', ''db'')) = Some (Some ''s3cret''))"
proof -
  let ?obj = "the (cl_secrets annotated_cluster (''prod'', ''db''))"
  let ?w = "world (snd (run_state (SourceReconciler_Reconcile cluster_client ''prod'' ''db'') (started annotated_cluster)))"
  have obj: "?obj = (new_Secret ''db'' ''prod'' star_annotations [''pw'' \<mapsto> ''s3cret''] ''Opaque'')\<lparr>ResourceVersion := ''7''\<rparr>"
    by (simp add: annotated_cluster_def)
  have "wf_store (started annotated_cluster)" "map_of (entries (notFoundCache (started annotated_cluster))) (''prod'' @ ''/'' @ ''db'') = None"
    "obj_secrets (cluster_view (world (started annotated_cluster))) (''prod'', ''db'') = Some ?obj" "\<not> IsHelmSecret ?obj"
    "''prod'' \<noteq> ''''" "''db'' \<noteq> ''''" "ResourceVersion ?obj \<noteq> ''''" "plain_annotations ?obj"
    "''dev'' \<in> set (obj_namespaces (cluster_view (world (started annotated_cluster))))" "dns_label ''dev''" "''dev'' \<noteq> ''prod''"
    "asks_for ?obj ''dev''" "stored (started annotated_cluster) (NewMirrorID ''dev'' ''db'') = None"
    "obj_secrets (cluster_view (world (started annotated_cluster))) (''dev'', ''db'') = None"
    by (simp_all add: star_object started_def wf_store_def stored_def cluster_view_def annotated_cluster_def empty_cluster_def
        NewNotFoundCache_def NewCache_def new_Secret_def IsHelmSecret_def strings_HasPrefix_def has_helm_annotation_def star_no_helm
        dns_label_def is_alnum_def is_digit_def)
  from annotated_secret_replicated [OF cluster_api_server this(1) started_sel(4) this(2-)]
  have "\<exists>obj'. obj_secrets (cluster_view ?w) (''dev'', ''db'') = Some obj' \<and> Data obj' = Data ?obj"
    by blast
  then show ?thesis
    by (auto simp: cluster_view_def obj new_Secret_def Let_def)
qed



definition annotated_configmap :: cluster where
  "annotated_configmap = empty_cluster\<lparr>cl_configmaps := [(''prod'', ''app'') \<mapsto>
     (new_ConfigMap ''app'' ''prod'' star_annotations [''host'' \<mapsto> ''pg''] Map.empty)\<lparr>ResourceVersion := ''7''\<rparr>]\<rparr>"



end
