(* ===== verification/Go_Json.thy ===== *)
theory Go_Json
  imports K8s_Types
begin

text \<open>
  Package \<open>encoding/json\<close>: \<open>Unmarshal\<close> of a document into
  \<open>struct { Annotations map[string]string `json:"annotations,omitempty"` }\<close>, the only type the program
  decodes itself. As in Go the whole document is checked first, then decoded. The checker is split into
  a lexer and a pushdown automaton, whose stack is Go's parse state.
\<close>

section \<open>Strings\<close>

definition unhex_char :: "char \<Rightarrow> nat option" where
  "unhex_char c = unhex (of_char c)"

fun hex4 :: "string \<Rightarrow> nat option" where
  "hex4 (a # b # c # d # _) =
     (case (unhex_char a, unhex_char b, unhex_char c, unhex_char d) of
        (Some w, Some x, Some y, Some z) \<Rightarrow> Some (((w * 16 + x) * 16 + y) * 16 + z)
      | _ \<Rightarrow> None)"
| "hex4 _ = None"

text \<open>The text of a string literal after its opening quote, without the closing one, and what follows.
  Control characters and unknown escapes are errors.\<close>

fun scan_string :: "string \<Rightarrow> (string \<times> string) option" where
  "scan_string [] = None"
| "scan_string (c # s) =
     (if c = CHR 0x22 then Some ([], s)
      else if c = CHR 0x5C then
        (case s of
           [] \<Rightarrow> None
         | e # t \<Rightarrow>
             if e \<in> set [CHR ''b'', CHR ''f'', CHR ''n'', CHR ''r'', CHR ''t'', CHR 0x5C, CHR ''/'', CHR 0x22]
             then map_option (\<lambda>(raw, rest). (c # e # raw, rest)) (scan_string t)
             else if e = CHR ''u'' then
               (case hex4 t of
                  None \<Rightarrow> None
                | Some _ \<Rightarrow> map_option (\<lambda>(raw, rest). (c # e # take 4 t @ raw, rest)) (scan_string (drop 4 t)))
             else None)
      else if of_char c < (32 :: nat) then None
      else map_option (\<lambda>(raw, rest). (c # raw, rest)) (scan_string s))"

definition escaped_char :: "char \<Rightarrow> char" where
  "escaped_char e =
     (if e = CHR ''b'' then CHR 0x08 else if e = CHR ''f'' then CHR 0x0C else if e = CHR ''n'' then CHR 0x0A
      else if e = CHR ''r'' then CHR 0x0D else if e = CHR ''t'' then CHR 0x09 else e)"

definition is_surrogate :: "nat \<Rightarrow> bool" where
  "is_surrogate r \<longleftrightarrow> 55296 \<le> r \<and> r \<le> 57343"

text \<open>\<open>utf16.DecodeRune\<close>, \<open>None\<close> for what is no pair.\<close>

definition surrogate_pair :: "nat \<Rightarrow> nat \<Rightarrow> nat option" where
  "surrogate_pair r r1 =
     (if 55296 \<le> r \<and> r < 56320 \<and> 56320 \<le> r1 \<and> r1 < 57344 then Some ((r - 55296) * 1024 + (r1 - 56320) + 65536) else None)"

text \<open>The escape \<open>\uXXXX\<close> at the beginning of a text.\<close>

fun unicode_escape :: "string \<Rightarrow> nat option" where
  "unicode_escape (a # b # t) = (if a = CHR 0x5C \<and> b = CHR ''u'' then hex4 t else None)"
| "unicode_escape _ = None"

text \<open>\<open>unquoteBytes\<close> on a scanned text: bytes that are not UTF-8 and lone surrogates become U+FFFD.\<close>

function unquote :: "string \<Rightarrow> string" where
  "unquote [] = []"
| "unquote (c # s) =
     (if c = CHR 0x5C then
        (case unicode_escape (c # s) of
           Some r \<Rightarrow>
             let rest = drop 6 (c # s) in
             if is_surrogate r then
               (case Option.bind (unicode_escape rest) (surrogate_pair r) of
                  Some p \<Rightarrow> encode_rune p @ unquote (drop 6 rest)
                | None \<Rightarrow> encode_rune rune_error @ unquote rest)
             else encode_rune r @ unquote rest
         | None \<Rightarrow>
             (case s of
                [] \<Rightarrow> []
              | e # t \<Rightarrow> escaped_char e # unquote t))
      else let (r, n) = decode_rune (of_char c) (map of_char s) in encode_rune r @ unquote (drop (n - 1) s))"
  by pat_completeness auto
termination
  by (relation "measure length") auto

section \<open>Lexer\<close>

datatype json_token = TObjOpen | TObjClose | TArrOpen | TArrClose | TColon | TComma | TStr string | TNum | TBool | TNull

definition digit_char :: "char \<Rightarrow> bool" where
  "digit_char c \<longleftrightarrow> is_digit (of_char c)"

text \<open>The text after a number: an integer part, then an optional fraction and an optional exponent.\<close>

fun after_digits :: "string \<Rightarrow> string option" where
  "after_digits (c # s) = (if digit_char c then Some (dropWhile digit_char s) else None)"
| "after_digits [] = None"

fun after_int :: "string \<Rightarrow> string option" where
  "after_int (c # s) = (if c = CHR ''0'' then Some s else after_digits (c # s))"
| "after_int [] = None"

fun after_frac :: "string \<Rightarrow> string option" where
  "after_frac (c # s) = (if c = CHR ''.'' then after_digits s else Some (c # s))"
| "after_frac [] = Some []"

fun after_exp :: "string \<Rightarrow> string option" where
  "after_exp (c # s) =
     (if c = CHR ''e'' \<or> c = CHR ''E'' then
        (case s of
           [] \<Rightarrow> None
         | d # t \<Rightarrow> if d = CHR ''+'' \<or> d = CHR ''-'' then after_digits t else after_digits s)
      else Some (c # s))"
| "after_exp [] = Some []"

definition after_number :: "string \<Rightarrow> string option" where
  "after_number s =
     Option.bind (after_int (case s of c # t \<Rightarrow> if c = CHR ''-'' then t else s | [] \<Rightarrow> s))
       (\<lambda>t. Option.bind (after_frac t) after_exp)"

definition json_space :: "char \<Rightarrow> bool" where
  "json_space c \<longleftrightarrow> c \<in> set [CHR '' '', CHR 0x09, CHR 0x0A, CHR 0x0D]"

fun after_literal :: "string \<Rightarrow> string \<Rightarrow> string option" where
  "after_literal [] s = Some s"
| "after_literal (c # w) (d # s) = (if c = d then after_literal w s else None)"
| "after_literal (c # w) [] = None"

text \<open>The next token of a text that does not begin with white space.\<close>

definition json_token :: "char \<Rightarrow> string \<Rightarrow> (json_token \<times> string) option" where
  "json_token c s =
     (if c = CHR ''{'' then Some (TObjOpen, s)
      else if c = CHR ''}'' then Some (TObjClose, s)
      else if c = CHR ''['' then Some (TArrOpen, s)
      else if c = CHR '']'' then Some (TArrClose, s)
      else if c = CHR '':'' then Some (TColon, s)
      else if c = CHR '','' then Some (TComma, s)
      else if c = CHR 0x22 then map_option (\<lambda>(raw, rest). (TStr (unquote raw), rest)) (scan_string s)
      else if c = CHR ''t'' then map_option (Pair TBool) (after_literal ''rue'' s)
      else if c = CHR ''f'' then map_option (Pair TBool) (after_literal ''alse'' s)
      else if c = CHR ''n'' then map_option (Pair TNull) (after_literal ''ull'' s)
      else map_option (Pair TNum) (after_number (c # s)))"

lemma scan_string_length: "scan_string s = Some (raw, rest) \<Longrightarrow> length rest < length s"
proof (induction s arbitrary: raw rest rule: scan_string.induct)
  case (2 c s)
  then show ?case
    by (fastforce split: if_splits list.splits option.splits)
qed simp

lemma after_length:
  "after_digits s = Some t \<Longrightarrow> length t < length s" "after_int s = Some t \<Longrightarrow> length t < length s"
  "after_frac s = Some t \<Longrightarrow> length t \<le> length s" "after_exp s = Some t \<Longrightarrow> length t \<le> length s"
proof -
  show digits: "after_digits s = Some t \<Longrightarrow> length t < length s" for s t
    by (cases s) (auto split: if_splits intro: le_imp_less_Suc length_dropWhile_le)
  show "after_int s = Some t \<Longrightarrow> length t < length s"
    using digits [of s t] by (cases s) (auto split: if_splits)
  show "after_frac s = Some t \<Longrightarrow> length t \<le> length s"
    using digits by (cases s) (fastforce split: if_splits)+
  show "after_exp s = Some t \<Longrightarrow> length t \<le> length s"
  proof (cases s)
    case (Cons c u)
    assume "after_exp s = Some t"
    with Cons show ?thesis
      using digits [of u t] digits [of "tl u" t] by (auto split: if_splits list.splits)
  qed simp
qed

lemma after_number_length: "after_number s = Some t \<Longrightarrow> length t < length s"
proof -
  assume "after_number s = Some t"
  define u where "u = (case s of c # t \<Rightarrow> if c = CHR ''-'' then t else s | [] \<Rightarrow> s)"
  have u: "length u \<le> length s"
    by (simp add: u_def split: list.split)
  from \<open>after_number s = Some t\<close> obtain v w where "after_int u = Some v" "after_frac v = Some w" "after_exp w = Some t"
    by (auto simp: after_number_def bind_eq_Some_conv u_def)
  with after_length(2) [of u v] after_length(3) [of v w] after_length(4) [of w t] u show ?thesis
    by simp
qed

lemma after_literal_length: "after_literal w s = Some t \<Longrightarrow> length t \<le> length s"
  by (induction w s rule: after_literal.induct) (auto split: if_splits)

lemma json_token_length: "json_token c s = Some (tok, rest) \<Longrightarrow> length rest \<le> length s"
  by (auto simp: json_token_def split: if_splits dest: scan_string_length after_literal_length after_number_length)

function json_lex :: "string \<Rightarrow> json_token list option" where
  "json_lex [] = Some []"
| "json_lex (c # s) =
     (if json_space c then json_lex s
      else (case json_token c s of
          None \<Rightarrow> None
        | Some (tok, rest) \<Rightarrow> map_option ((#) tok) (json_lex rest)))"
  by pat_completeness auto
termination
  by (relation "measure length") (auto dest: json_token_length)

section \<open>Parser\<close>

datatype json = JNull | JBool | JNum | JStr string | JArr "json list" | JObj "(string \<times> json) list"

text \<open>A frame is an array or object under construction; an object's frame holds the last key read.\<close>

datatype json_frame = FArr "json list" | FObj "(string \<times> json) list" string

datatype json_mode = WantValue | WantElement | WantKey | WantMember | WantColon | AfterValue | Finished json

definition maxNestingDepth :: nat where
  "maxNestingDepth = 10000"

fun complete :: "json \<Rightarrow> json_frame list \<Rightarrow> json_mode \<times> json_frame list" where
  "complete v [] = (Finished v, [])"
| "complete v (FArr vs # st) = (AfterValue, FArr (vs @ [v]) # st)"
| "complete v (FObj ps k # st) = (AfterValue, FObj (ps @ [(k, v)]) k # st)"

definition open_frame :: "json_mode \<Rightarrow> json_frame \<Rightarrow> json_frame list \<Rightarrow> (json_mode \<times> json_frame list) option" where
  "open_frame m f st = (if length st < maxNestingDepth then Some (m, f # st) else None)"

fun begin_value :: "json_token \<Rightarrow> json_frame list \<Rightarrow> (json_mode \<times> json_frame list) option" where
  "begin_value TObjOpen st = open_frame WantMember (FObj [] []) st"
| "begin_value TArrOpen st = open_frame WantElement (FArr []) st"
| "begin_value (TStr s) st = Some (complete (JStr s) st)"
| "begin_value TNum st = Some (complete JNum st)"
| "begin_value TBool st = Some (complete JBool st)"
| "begin_value TNull st = Some (complete JNull st)"
| "begin_value _ st = None"

text \<open>The end of an array or object: the closing token has to fit the innermost frame.\<close>

fun close_frame :: "json_token \<Rightarrow> json_frame list \<Rightarrow> (json_mode \<times> json_frame list) option" where
  "close_frame t (FArr vs # st) = (if t = TArrClose then Some (complete (JArr vs) st) else None)"
| "close_frame t (FObj ps k # st) = (if t = TObjClose then Some (complete (JObj ps) st) else None)"
| "close_frame t [] = None"

fun read_key :: "json_token \<Rightarrow> json_frame list \<Rightarrow> (json_mode \<times> json_frame list) option" where
  "read_key (TStr key) (FObj ps k # st) = Some (WantColon, FObj ps key # st)"
| "read_key _ _ = None"

fun next_item :: "json_frame list \<Rightarrow> (json_mode \<times> json_frame list) option" where
  "next_item (FArr vs # st) = Some (WantValue, FArr vs # st)"
| "next_item (FObj ps k # st) = Some (WantKey, FObj ps k # st)"
| "next_item [] = None"

definition json_step :: "json_token \<Rightarrow> json_mode \<Rightarrow> json_frame list \<Rightarrow> (json_mode \<times> json_frame list) option" where
  "json_step t m st =
     (case m of
        WantValue \<Rightarrow> begin_value t st
      | WantElement \<Rightarrow> if t = TArrClose then close_frame t st else begin_value t st
      | WantMember \<Rightarrow> if t = TObjClose then close_frame t st else read_key t st
      | WantKey \<Rightarrow> read_key t st
      | WantColon \<Rightarrow> if t = TColon then Some (WantValue, st) else None
      | AfterValue \<Rightarrow> if t = TComma then next_item st else close_frame t st
      | Finished v \<Rightarrow> None)"

fun json_run :: "json_token list \<Rightarrow> json_mode \<Rightarrow> json_frame list \<Rightarrow> json option" where
  "json_run [] m st = (case m of Finished v \<Rightarrow> Some v | _ \<Rightarrow> None)"
| "json_run (t # ts) m st = (case json_step t m st of None \<Rightarrow> None | Some (m', st') \<Rightarrow> json_run ts m' st')"

definition json_parse :: "string \<Rightarrow> json option" where
  "json_parse s = (case json_lex s of None \<Rightarrow> None | Some ts \<Rightarrow> json_run ts WantValue [])"

section \<open>Decoding\<close>

datatype json_error = SyntaxErr | UnmarshalTypeErr

text \<open>A key names the field when it equals its name up to case folding, for which U+017F is an s too.\<close>

definition fold_rune :: "nat \<Rightarrow> nat" where
  "fold_rune r = (if 97 \<le> r \<and> r \<le> 122 then r - 32 else if r = 383 then 83 else r)"

definition is_annotations :: "string \<Rightarrow> bool" where
  "is_annotations key \<longleftrightarrow> map fold_rune (runes key) = map of_char ''ANNOTATIONS''"

text \<open>Values of the map: null leaves the zero value. Of several errors the first is returned; nothing
  else of the result is used then.\<close>

fun decode_entries :: "(string \<times> json) list \<Rightarrow> string_map \<Rightarrow> json_error + string_map" where
  "decode_entries [] m = Inr m"
| "decode_entries ((k, v) # kvs) m =
     (case v of
        JStr s \<Rightarrow> decode_entries kvs (m(k \<mapsto> s))
      | JNull \<Rightarrow> decode_entries kvs (m(k \<mapsto> ''''))
      | _ \<Rightarrow> Inl UnmarshalTypeErr)"

fun decode_fields :: "(string \<times> json) list \<Rightarrow> string_map option \<Rightarrow> json_error + string_map option" where
  "decode_fields [] a = Inr a"
| "decode_fields ((k, v) # kvs) a =
     (if \<not> is_annotations k then decode_fields kvs a
      else (case v of
          JNull \<Rightarrow> decode_fields kvs None
        | JObj entries \<Rightarrow>
            (case decode_entries entries (case a of None \<Rightarrow> Map.empty | Some m \<Rightarrow> m) of
               Inl e \<Rightarrow> Inl e
             | Inr m \<Rightarrow> decode_fields kvs (Some m))
        | _ \<Rightarrow> Inl UnmarshalTypeErr))"

definition json_Unmarshal :: "string \<Rightarrow> json_error + string_map option" where
  "json_Unmarshal s =
     (case json_parse s of
        None \<Rightarrow> Inl SyntaxErr
      | Some JNull \<Rightarrow> Inr None
      | Some (JObj kvs) \<Rightarrow> decode_fields kvs None
      | Some _ \<Rightarrow> Inl UnmarshalTypeErr)"

section \<open>Printing\<close>

text \<open>A reference printer for string maps: quotes, backslashes and control characters are escaped.\<close>

definition hex_digit :: "nat \<Rightarrow> char" where
  "hex_digit n = (if n < 10 then char_of (48 + n) else char_of (87 + n))"

definition quote_char :: "char \<Rightarrow> string" where
  "quote_char c =
     (let n = of_char c :: nat in
      if c = CHR 0x22 \<or> c = CHR 0x5C then [CHR 0x5C, c]
      else if n < 32 then [CHR 0x5C, CHR ''u'', CHR ''0'', CHR ''0'', hex_digit (n div 16), hex_digit (n mod 16)]
      else [c])"

definition json_quote :: "string \<Rightarrow> string" where
  "json_quote s = [CHR 0x22] @ concat (map quote_char s) @ [CHR 0x22]"

definition json_object :: "(string \<times> string) list \<Rightarrow> string" where
  "json_object kvs = ''{'' @ strings_Join (map (\<lambda>(k, v). json_quote k @ '':'' @ json_quote v) kvs) '','' @ ''}''"

lemma unhex_digit: "n < 16 \<Longrightarrow> unhex_char (hex_digit n) = Some n"
  by (auto simp: unhex_char_def hex_digit_def unhex_def is_digit_def of_char_of)

lemma scan_quote_char:
  assumes "of_char c < (128 :: nat)"
  shows "scan_string (quote_char c @ s) = map_option (\<lambda>(raw, rest). (quote_char c @ raw, rest)) (scan_string s)"
proof -
  consider "c = CHR 0x22 \<or> c = CHR 0x5C" | "c \<noteq> CHR 0x22" "c \<noteq> CHR 0x5C" "of_char c < (32 :: nat)"
    | "c \<noteq> CHR 0x22" "c \<noteq> CHR 0x5C" "\<not> of_char c < (32 :: nat)" by blast
  then show ?thesis
  proof cases
    case 2
    then have "of_char c div 16 < (16 :: nat)" "of_char c mod 16 < (16 :: nat)"
      by simp_all
    moreover have "unhex_char (CHR ''0'') = Some 0"
      by (simp add: unhex_char_def unhex_def is_digit_def)
    ultimately show ?thesis
      using 2 by (simp add: quote_char_def Let_def unhex_digit)
  qed (auto simp: quote_char_def Let_def)
qed

lemma scan_quoted:
  "ascii s \<Longrightarrow> scan_string (concat (map quote_char s) @ CHR 0x22 # rest) = Some (concat (map quote_char s), rest)"
  by (induction s) (simp_all add: scan_quote_char)

lemma encode_ascii: "of_char c < (128 :: nat) \<Longrightarrow> encode_rune (of_char c) = [c]"
  by (simp add: encode_rune_def)

lemma unquote_quote_char:
  assumes "of_char c < (128 :: nat)"
  shows "unquote (quote_char c @ s) = c # unquote s"
proof -
  consider "c = CHR 0x22 \<or> c = CHR 0x5C" | "c \<noteq> CHR 0x22" "c \<noteq> CHR 0x5C" "of_char c < (32 :: nat)"
    | "c \<noteq> CHR 0x22" "c \<noteq> CHR 0x5C" "\<not> of_char c < (32 :: nat)" by blast
  then show ?thesis
  proof cases
    case 1
    then show ?thesis
      by (auto simp: quote_char_def Let_def escaped_char_def)
  next
    case 2
    let ?n = "of_char c :: nat"
    have "?n div 16 < 16" "?n mod 16 < 16"
      using 2 by simp_all
    moreover have "unhex_char (CHR ''0'') = Some 0"
      by (simp add: unhex_char_def unhex_def is_digit_def)
    ultimately have "hex4 (CHR ''0'' # CHR ''0'' # hex_digit (?n div 16) # hex_digit (?n mod 16) # s) = Some ?n"
      by (simp add: unhex_digit)
    then show ?thesis
      using 2 assms by (simp add: quote_char_def Let_def is_surrogate_def encode_ascii del: hex4.simps)
  next
    case 3
    then show ?thesis
      using assms by (simp add: quote_char_def Let_def decode_rune_def encode_ascii)
  qed
qed

lemma unquote_quoted: "ascii s \<Longrightarrow> unquote (concat (map quote_char s)) = s"
  by (induction s) (simp_all add: unquote_quote_char)

lemma lex_quote: "ascii s \<Longrightarrow> json_lex (json_quote s @ rest) = map_option ((#) (TStr s)) (json_lex rest)"
  by (simp add: json_quote_def json_space_def json_token_def scan_quoted unquote_quoted)

lemma lex_punctuation:
  "json_lex (CHR ''{'' # s) = map_option ((#) TObjOpen) (json_lex s)" "json_lex (CHR ''}'' # s) = map_option ((#) TObjClose) (json_lex s)"
  "json_lex (CHR '':'' # s) = map_option ((#) TColon) (json_lex s)" "json_lex (CHR '','' # s) = map_option ((#) TComma) (json_lex s)"
  by (simp_all add: json_space_def json_token_def)

fun member_tokens :: "(string \<times> string) list \<Rightarrow> json_token list" where
  "member_tokens [] = []"
| "member_tokens [(k, v)] = [TStr k, TColon, TStr v]"
| "member_tokens ((k, v) # kv # kvs) = [TStr k, TColon, TStr v, TComma] @ member_tokens (kv # kvs)"

definition ascii_entries :: "(string \<times> string) list \<Rightarrow> bool" where
  "ascii_entries kvs \<longleftrightarrow> list_all (\<lambda>(k, v). ascii k \<and> ascii v) kvs"

lemma lex_members:
  "ascii_entries kvs \<Longrightarrow>
   json_lex (strings_Join (map (\<lambda>(k, v). json_quote k @ '':'' @ json_quote v) kvs) '','' @ rest) =
   map_option ((@) (member_tokens kvs)) (json_lex rest)"
proof (induction kvs rule: member_tokens.induct)
  case 1
  then show ?case by (simp add: option.map_ident)
next
  case (2 k v)
  then show ?case
    by (simp add: ascii_entries_def lex_quote lex_punctuation option.map_comp comp_def del: json_lex.simps)
next
  case (3 k v kv kvs)
  then show ?case
    by (simp add: ascii_entries_def lex_quote lex_punctuation option.map_comp comp_def del: json_lex.simps)
qed

lemma lex_object:
  "ascii_entries kvs \<Longrightarrow>
   json_lex (json_object kvs @ rest) = map_option (\<lambda>ts. TObjOpen # member_tokens kvs @ TObjClose # ts) (json_lex rest)"
  by (simp add: json_object_def lex_punctuation lex_members [simplified] option.map_comp comp_def del: json_lex.simps)

abbreviation string_members :: "(string \<times> string) list \<Rightarrow> (string \<times> json) list" where
  "string_members kvs \<equiv> map (\<lambda>(k, v). (k, JStr v)) kvs"

lemma run_members:
  "kvs \<noteq> [] \<Longrightarrow> m = WantMember \<or> m = WantKey \<Longrightarrow>
   json_run (member_tokens kvs @ TObjClose # ts) m (FObj ps k0 # st) =
   (let (m', st') = complete (JObj (ps @ string_members kvs)) st in json_run ts m' st')"
proof (induction kvs arbitrary: m ps k0 rule: member_tokens.induct)
  case (2 k v)
  then show ?case
    by (auto simp: json_step_def Let_def case_prod_beta)
next
  case (3 k v kv kvs)
  have "json_run (member_tokens ((k, v) # kv # kvs) @ TObjClose # ts) m (FObj ps k0 # st) =
      json_run (member_tokens (kv # kvs) @ TObjClose # ts) WantKey (FObj (ps @ [(k, JStr v)]) k # st)"
    using "3.prems" by (auto simp: json_step_def)
  also have "\<dots> = (let (m', st') = complete (JObj ((ps @ [(k, JStr v)]) @ string_members (kv # kvs))) st in json_run ts m' st')"
    by (rule "3.IH") simp_all
  finally show ?case by simp
qed simp

lemma run_object:
  assumes "length st < maxNestingDepth"
  shows "json_run (TObjOpen # member_tokens kvs @ TObjClose # ts) WantValue st =
   (let (m, st') = complete (JObj (string_members kvs)) st in json_run ts m st')"
proof (cases "kvs = []")
  case True
  with assms show ?thesis
    by (simp add: json_step_def open_frame_def Let_def case_prod_beta)
next
  case False
  with assms run_members [OF False, of WantMember ts "[]" "[]" st] show ?thesis
    by (simp add: json_step_def open_frame_def)
qed

lemma decode_string_members: "decode_entries (string_members kvs) m = Inr (m ++ map_of (rev kvs))"
  by (induction kvs arbitrary: m) (auto simp: map_add_def fun_eq_iff split: option.splits)

text \<open>Decoding undoes printing: the annotations of a secret template, printed as a JSON object under the
  field \<open>annotations\<close> with any ASCII keys and values (control characters and quotes escaped), are decoded
  to the map they came from, the last of several entries with one key counting.\<close>

lemma json_annotations_roundtrip:
  assumes "ascii_entries kvs"
  shows "json_Unmarshal (''{'' @ json_quote ''annotations'' @ '':'' @ json_object kvs @ ''}'') = Inr (Some (map_of (rev kvs)))"
proof -
  have "json_lex (''{'' @ json_quote ''annotations'' @ '':'' @ json_object kvs @ ''}'') =
      Some (TObjOpen # TStr ''annotations'' # TColon # TObjOpen # member_tokens kvs @ TObjClose # [TObjClose])"
    using assms by (simp add: lex_punctuation lex_quote lex_object del: json_lex.simps(2))
  moreover have "json_run (TObjOpen # TStr ''annotations'' # TColon # TObjOpen # member_tokens kvs @ TObjClose # [TObjClose]) WantValue [] =
      Some (JObj [(''annotations'', JObj (string_members kvs))])"
    using run_object [of "[FObj [] ''annotations'']" kvs "[TObjClose]"]
    by (simp add: json_step_def open_frame_def maxNestingDepth_def)
  moreover have "is_annotations ''annotations''"
    by (simp add: is_annotations_def runes_ascii fold_rune_def)
  ultimately show ?thesis
    by (simp add: json_Unmarshal_def json_parse_def decode_string_members)
qed

end
