(* ===== verification/Ingress_Controller.thy ===== *)
theory Ingress_Controller
  imports Controllers Go_Json
begin

text \<open>
  Package \<open>controllers\<close> (internal/controllers/controllers.go): the reconciler for Ingresses, which
  replicates the TLS Secret of an Ingress whose cert-manager secret template asks for it.
\<close>

section \<open>IngressReconciler\<close>

text \<open>The annotations of the template that the Secret does not have are added to it; the order in which
  the map is visited does not matter.\<close>

definition merged_secret :: "Secret \<Rightarrow> string_map option \<Rightarrow> Secret" where
  "merged_secret secret ingressAnnotations =
     secret\<lparr>Annotations := Some (
       case ingressAnnotations of
         None \<Rightarrow> (case Annotations secret of None \<Rightarrow> Map.empty | Some m \<Rightarrow> m)
       | Some t \<Rightarrow> (case Annotations secret of None \<Rightarrow> t | Some m \<Rightarrow> t ++ m))\<rparr>"

definition read_ingress_secret :: "Secret \<Rightarrow> Source option" where
  "read_ingress_secret secret =
     (if annotation secret AnnotationReplicationAllowed \<noteq> ''true'' then None
      else
        let source = NewSource (Namespace secret) (Name secret) ResourceTypeSecret;
            source1 = read_allowed_namespaces secret source;
            source2 = read_auto_enabled secret source1;
            source3 = read_auto_namespaces secret source2;
            source4 = SetAllowed True source3
        in Some (Source_SetVersion (ResourceVersion secret) source4))"

definition ingressSecretToSource :: "Secret \<Rightarrow> string_map option \<Rightarrow> Source option" where
  "ingressSecretToSource secret ingressAnnotations = read_ingress_secret (merged_secret secret ingressAnnotations)"

definition secret_template :: string where
  "secret_template = ''cert-manager.io/secret-template''"

definition template_annotation :: "string_map option \<Rightarrow> string \<Rightarrow> string" where
  "template_annotation t key = (case t of None \<Rightarrow> '''' | Some m \<Rightarrow> (case m key of None \<Rightarrow> '''' | Some v \<Rightarrow> v))"

definition IngressReconciler_Reconcile :: "'w client \<Rightarrow> string \<Rightarrow> string \<Rightarrow> ('w sys, go_error option) state" where
  "IngressReconciler_Reconcile c namespace name = timed c ''ingress'' (do {
     r \<leftarrow> api (get_ingress c namespace name);
     case r of
       Inl err \<Rightarrow>
         if IsNotFound err then return (None, None)
         else return (Some err, Some (Wrapped ''failed to get Ingress'' err))
     | Inr ingress \<Rightarrow>
         let secretTemplateStr = annotation ingress secret_template in
         if secretTemplateStr = '''' then return (None, None)
         else (case json_Unmarshal secretTemplateStr of
             Inl _ \<Rightarrow> return (None, None)
           | Inr template \<Rightarrow>
               if template_annotation template AnnotationReplicationAllowed \<noteq> ''true'' then return (None, None)
               else if length (tlsSecretNames ingress) = 0 then return (None, None)
               else if tlsSecretNames ingress ! 0 = '''' then return (None, None)
               else do {
                 r2 \<leftarrow> api (get_secret c namespace (tlsSecretNames ingress ! 0));
                 case r2 of
                   Inl err \<Rightarrow>
                     if IsNotFound err then return (None, None)
                     else return (Some err, Some (Wrapped ''failed to get Secret'' err))
                 | Inr secret \<Rightarrow>
                     (case ingressSecretToSource secret template of
                        None \<Rightarrow> return (None, None)
                      | Some source \<Rightarrow> do {
                          err \<leftarrow> ReflectResources_Execute c source;
                          case err of
                            Some e \<Rightarrow> return (Some e, Some (Wrapped ''failed to replicate'' e))
                          | None \<Rightarrow> return (None, None) }) }) })"

section \<open>Interfaces provided\<close>

interpretation ingress_secret: source_reader read_ingress_secret ResourceTypeSecret "\<lambda>_. True"
  "\<lambda>obj. annotation obj AnnotationReplicationAutoNamespaces"
  by unfold_locales (auto simp: read_ingress_secret_def reader_defs)

lemma io_sys_ingress: "state_io_rel (keeps (wf_sys timeout)) (IngressReconciler_Reconcile c ns n)"
  unfolding IngressReconciler_Reconcile_def Let_def
  by (intro io_timed io_if io_bind io_return io_case_sum io_case_option io_sys_prims frame_keeps)

section \<open>Properties\<close>

text \<open>Two programs with the same runs are equal.\<close>

lemma state_eqI: "(\<And>s. run_state m s = run_state m' s) \<Longrightarrow> m = m'"
  by (cases m; cases m') (simp add: fun_eq_iff)

text \<open>The secret template of an Ingress as cert-manager documents it: a JSON object with annotations.\<close>

definition template_document :: "(string \<times> string) list \<Rightarrow> string" where
  "template_document kvs = ''{'' @ json_quote ''annotations'' @ '':'' @ json_object kvs @ ''}''"

text \<open>C12. What reconciling an Ingress amounts to. When its secret template is a JSON document whose annotations
  ask for replication (any ASCII keys and values, whatever has to be escaped) and its first TLS entry
  names an existing Secret, the reconciler replicates exactly the source that the Secret describes with
  the template's annotations added; an annotation of the Secret itself wins, so a Secret that says
  \<open>replicate: "false"\<close> is left alone.\<close>

theorem ingress_replicates_tls_secret:
  assumes "\<forall>w. fst (get_ingress c ns n w) = Inr ingress" and "annotation ingress secret_template = template_document kvs"
    and "ascii_entries kvs" and "map_of (rev kvs) AnnotationReplicationAllowed = Some ''true''"
    and "tlsSecretNames ingress = secretName # others" and "secretName \<noteq> ''''"
    and "\<forall>w. fst (get_secret c ns secretName w) = Inr secret" and "own = (case Annotations secret of None \<Rightarrow> Map.empty | Some m \<Rightarrow> m)"
    and "merged = secret\<lparr>Annotations := Some (map_of (rev kvs) ++ own)\<rparr>"
  shows "IngressReconciler_Reconcile c ns n = timed c ''ingress'' (do {
     _ \<leftarrow> api (get_ingress c ns n);
     _ \<leftarrow> api (get_secret c ns secretName);
     if (case own AnnotationReplicationAllowed of None \<Rightarrow> True | Some v \<Rightarrow> v = ''true'') then do {
       err \<leftarrow> ReflectResources_Execute c (source_of ResourceTypeSecret
         (annotated_namespaces (annotation merged AnnotationReplicationAutoNamespaces)) merged);
       return (err, map_option (Wrapped ''failed to replicate'') err) }
     else return (None, None) })"
proof -
  have doc: "json_Unmarshal (annotation ingress secret_template) = Inr (Some (map_of (rev kvs)))"
    unfolding assms(2) template_document_def by (rule json_annotations_roundtrip [OF assms(3)])
  have nonempty: "annotation ingress secret_template \<noteq> ''''"
    by (simp add: assms(2) template_document_def)
  have merged: "merged_secret secret (Some (map_of (rev kvs))) = merged"
    by (simp add: merged_secret_def assms(8,9) split: option.split)
  have allowed: "annotation merged AnnotationReplicationAllowed = ''true'' \<longleftrightarrow>
      (case own AnnotationReplicationAllowed of None \<Rightarrow> True | Some v \<Rightarrow> v = ''true'')"
    using assms(4) by (simp add: assms(9) annotation_def map_add_def split: option.split)
  have read: "ingressSecretToSource secret (Some (map_of (rev kvs))) =
      (if annotation merged AnnotationReplicationAllowed = ''true''
       then Some (source_of ResourceTypeSecret (annotated_namespaces (annotation merged AnnotationReplicationAutoNamespaces)) merged)
       else None)"
    unfolding ingressSecretToSource_def merged by (simp add: ingress_secret.read_eq)
  show ?thesis
    unfolding IngressReconciler_Reconcile_def
    by (rule arg_cong [where f = "timed c ''ingress''"], rule state_eqI)
      (use assms(1,4,5,6,7) in \<open>simp add: doc nonempty read allowed [symmetric] template_annotation_def Let_def case_prod_beta split: option.split\<close>)
qed

text \<open>An Ingress with a template, and a client that serves it and a Secret.\<close>

definition example_entries :: "(string \<times> string) list" where
  "example_entries = [(AnnotationReplicationAllowed, ''true''), (AnnotationReplicationAllowedNamespaces, ''dev'')]"

definition example_ingress :: Ingress where
  "example_ingress =
     \<lparr>Name = ''web'', Namespace = ''prod'', Annotations = Some [secret_template \<mapsto> template_document example_entries], Labels = Map.empty,
      ResourceVersion = ''1'', UID = '''', Finalizers = [], OwnerReferences = [], tlsSecretNames = [''web-tls'']\<rparr>"

definition ingress_client :: "cluster client" where
  "ingress_client = cluster_client
     \<lparr>get_ingress := (\<lambda>ns n w. (Inr example_ingress, w)),
      get_secret := (\<lambda>ns n w. (Inr (new_Secret ''web-tls'' ''prod'' [AnnotationReplicationAllowed \<mapsto> ''false''] Map.empty ''Opaque''), w))\<rparr>"

theorem ingress_replicates_tls_secret_witness:
  "cl_log (world (snd (run_state (IngressReconciler_Reconcile ingress_client ''prod'' ''web'') (started empty_cluster)))) = []"
proof -
  let ?secret = "new_Secret ''web-tls'' ''prod'' [AnnotationReplicationAllowed \<mapsto> ''false''] Map.empty ''Opaque''"
  have "\<forall>w. fst (get_ingress ingress_client ''prod'' ''web'' w) = Inr example_ingress"
    "annotation example_ingress secret_template = template_document example_entries" "ascii_entries example_entries"
    "map_of (rev example_entries) AnnotationReplicationAllowed = Some ''true''"
    "tlsSecretNames example_ingress = ''web-tls'' # []" "''web-tls'' \<noteq> ''''"
    "\<forall>w. fst (get_secret ingress_client ''prod'' ''web-tls'' w) = Inr ?secret"
    by (simp_all add: ingress_client_def example_ingress_def example_entries_def annotation_def ascii_entries_def
        AnnotationReplicationAllowed_def AnnotationReplicationAllowedNamespaces_def)
  note run = ingress_replicates_tls_secret [OF this refl refl]
  show ?thesis
    unfolding run
    by (simp add: timed_def time_Now_def time_Since_def new_Secret_def ingress_client_def cluster_client_def case_prod_beta Let_def)
qed

end
