(* ===== verification/Config.thy ===== *)
theory Config
  imports Cache Watcher Go_Time_Parse
begin

text \<open>
  Package \<open>config\<close> (internal/infrastructure/config/config.go): the configuration read from the
  environment. \<open>os.Getenv\<close> is a function from names to values, the empty string for a variable that
  is not set.
\<close>

section \<open>strconv.Atoi\<close>

datatype num_error = ErrSyntax | ErrRange

text \<open>An optional sign and decimal digits, for a 64-bit \<open>int\<close>.\<close>

fun sign_split :: "string \<Rightarrow> bool \<times> string" where
  "sign_split [] = (False, [])"
| "sign_split (c # s) = (if c = CHR ''-'' then (True, s) else if c = CHR ''+'' then (False, s) else (False, c # s))"

definition strconv_Atoi :: "string \<Rightarrow> num_error + int" where
  "strconv_Atoi s =
     (let (neg, ds) = sign_split s; n = digits_val 0 (map of_char ds)
      in if ds = [] \<or> \<not> list_all (\<lambda>c. is_digit (of_char c)) ds then Inl ErrSyntax
         else if neg then (if n > 2 ^ 63 then Inl ErrRange else Inr (- int n))
         else (if n \<ge> 2 ^ 63 then Inl ErrRange else Inr (int n)))"

section \<open>Config\<close>

record Config =
  cfgMinimumLevel :: string
  cfgTimeoutSeconds :: int
  cfgSkipTlsVerify :: bool
  cfgDeleteOrphanedMirrors :: bool

definition Load :: "(string \<Rightarrow> string) \<Rightarrow> Config" where
  "Load getenv =
     (let level = getenv ''LOGGING_MINIMUM_LEVEL''; timeout = getenv ''WATCHER_TIMEOUT_SECONDS''
      in \<lparr>cfgMinimumLevel = (if level \<noteq> '''' then level else ''Information''),
          cfgTimeoutSeconds =
            (if timeout \<noteq> '''' then (case strconv_Atoi timeout of Inr seconds \<Rightarrow> seconds | Inl _ \<Rightarrow> 0) else 3600),
          cfgSkipTlsVerify = (getenv ''KUBERNETES_SKIP_TLS_VERIFY'' = ''true''),
          cfgDeleteOrphanedMirrors = (getenv ''REFLECTION_DELETE_ORPHANED_MIRRORS'' = ''true'')\<rparr>)"

definition WatcherTimeout :: "Config \<Rightarrow> duration" where
  "WatcherTimeout c = wrap64 (cfgTimeoutSeconds c * 1000000000)"

record WatcherConfig =
  wcTimeout :: duration
  wcTimeoutSec :: int

definition NewWatcherConfig :: "Config \<Rightarrow> WatcherConfig" where
  "NewWatcherConfig cfg = \<lparr>wcTimeout = WatcherTimeout cfg, wcTimeoutSec = cfgTimeoutSeconds cfg\<rparr>"

definition ShouldRefresh :: "WatcherConfig \<Rightarrow> bool" where
  "ShouldRefresh w \<longleftrightarrow> wcTimeout w > 0"

section \<open>Lemmas\<close>

lemma sign_split_dec_nat: "sign_split (dec_nat n) = (False, dec_nat n)"
proof -
  obtain c s where cs: "dec_nat n = c # s"
    by (cases "dec_nat n") (auto simp: dec_nat_nonempty)
  have "is_digit (of_char c)"
    using dec_nat_digits [of n] by (simp add: cs)
  then show ?thesis
    by (auto simp: cs is_digit_def)
qed

text \<open>Parsing what was printed.\<close>

lemma Atoi_dec_int: "strconv_Atoi (dec_int i) = (if i = wrap64 i then Inr i else Inl ErrRange)"
proof (cases "i < 0")
  case True
  then have "strconv_Atoi (dec_int i) = (if nat (- i) > 2 ^ 63 then Inl ErrRange else Inr i)"
    using dec_nat_digits [of "nat (- i)"] by (simp add: strconv_Atoi_def dec_int_def)
  moreover have "nat (- i) > 2 ^ 63 \<longleftrightarrow> i < - (2 ^ 63)"
    using True by auto
  ultimately show ?thesis
    using True wrap64_eq_iff [of i] by auto
next
  case False
  then have "strconv_Atoi (dec_int i) = (if nat i \<ge> 2 ^ 63 then Inl ErrRange else Inr i)"
    using dec_nat_digits [of "nat i"] by (simp add: strconv_Atoi_def dec_int_def sign_split_dec_nat)
  moreover have "nat i \<ge> 2 ^ 63 \<longleftrightarrow> i \<ge> 2 ^ 63"
    using False by auto
  ultimately show ?thesis
    using False wrap64_eq_iff [of i] by auto
qed

section \<open>Properties\<close>



end
