(* ===== verification/Program.thy ===== *)
theory Program
  imports Rule_Replication Source_Replication Ingress_Controller Config
begin

text \<open>
  The program as cmd/replikator/main.go puts it together: the state it allocates, which reconciler
  serves which kind of object behind which predicate, and the runs of the whole. Work queues are lists
  of requests; a request may be taken from any place in a queue. Reconciliations run one after another
  here, although the controllers run several at a time.
\<close>

section \<open>Start\<close>

definition run_hook :: "session_hook \<Rightarrow> 'w sys \<Rightarrow> 'w sys" where
  "run_hook h s = (case h of ClearCaches \<Rightarrow>
     s\<lparr>notFoundCache := Cache_Clear (notFoundCache s), propertiesCache := PropertiesCache_Clear (propertiesCache s),
       mirrorCache := MirrorCache_Clear (mirrorCache s)\<rparr>)"

definition allocated :: "Config \<Rightarrow> 'w \<Rightarrow> 'w sys" where
  "allocated cfg w =
     \<lparr>world = w, heap = [], mirrors = [], dispatcher = NewInMemoryDispatcher, metrics = [],
      notFoundCache = NewNotFoundCache (WatcherTimeout cfg), propertiesCache = NewPropertiesCache (WatcherTimeout cfg),
      mirrorCache = NewMirrorCache, sessionManager = OnSessionEnd ClearCaches (NewSessionManager (WatcherTimeout cfg))\<rparr>"

definition sessionManager_EndSession :: "('w sys, bool) state" where
  "sessionManager_EndSession = State (\<lambda>s.
     case EndSession run_hook (sessionManager s) s of
       None \<Rightarrow> (False, s)
     | Some (m, s') \<Rightarrow> (True, s'\<lparr>sessionManager := m\<rparr>))"

section \<open>Controllers\<close>

datatype request =
    SourceRequest string string
  | MirrorRequest string string
  | NamespaceRequest string
  | CertificateRequest string string
  | IngressRequest string string
  | RuleRequest string

definition reconcile :: "'w client \<Rightarrow> bool \<Rightarrow> request \<Rightarrow> ('w sys, outcome) state" where
  "reconcile c deleteOrphaned r =
     (case r of
        SourceRequest ns n \<Rightarrow> do { e \<leftarrow> SourceReconciler_Reconcile c ns n; return (Returns e) }
      | MirrorRequest ns n \<Rightarrow> do { e \<leftarrow> MirrorReconciler_Reconcile c deleteOrphaned ns n; return (Returns e) }
      | NamespaceRequest n \<Rightarrow> NamespaceReconciler_Reconcile c n
      | CertificateRequest ns n \<Rightarrow> do { e \<leftarrow> CertificateReconciler_Reconcile c ns n; return (Returns e) }
      | IngressRequest ns n \<Rightarrow> do { e \<leftarrow> IngressReconciler_Reconcile c ns n; return (Returns e) }
      | RuleRequest n \<Rightarrow> do { e \<leftarrow> RuleReconciler_Reconcile c n; return (Returns e) })"

text \<open>An event of a Secret or ConfigMap goes through the predicates of the source and of the mirror
  controller for its kind.\<close>

datatype object_event = Created k8s_object | Updated k8s_object k8s_object | Deleted k8s_object | Generic k8s_object

fun event_object :: "object_event \<Rightarrow> k8s_object" where
  "event_object (Created obj) = obj"
| "event_object (Updated old new) = new"
| "event_object (Deleted obj) = obj"
| "event_object (Generic obj) = obj"

fun source_filter :: "object_event \<Rightarrow> ('w sys, bool) state" where
  "source_filter (Created obj) = return (SourcePredicate_Create (Some obj))"
| "source_filter (Updated old new) = SourcePredicate_Update (Some old) new"
| "source_filter (Deleted obj) = SourcePredicate_Delete obj"
| "source_filter (Generic obj) = return (SourcePredicate_Generic (Some obj))"

fun mirror_filter :: "object_event \<Rightarrow> bool" where
  "mirror_filter (Created obj) = MirrorPredicate_Create (Some obj)"
| "mirror_filter (Updated old new) = MirrorPredicate_Update (Some new)"
| "mirror_filter (Deleted obj) = MirrorPredicate_Delete (Some obj)"
| "mirror_filter (Generic obj) = MirrorPredicate_Generic (Some obj)"

definition deliver :: "object_event \<Rightarrow> ('w sys, request list) state" where
  "deliver ev = do {
     src \<leftarrow> source_filter ev;
     let ns = Namespace (event_object ev); let n = Name (event_object ev);
     return ((if src then [SourceRequest ns n] else []) @ (if mirror_filter ev then [MirrorRequest ns n] else [])) }"

section \<open>Runs\<close>

record 'w program =
  psys :: "'w sys"
  queue :: "request list"
  crashed :: bool

text \<open>A request whose reconciliation returns an error is queued again. Namespaces, Certificates, Ingresses
  and rules have no predicates: any event queues their request.\<close>

inductive own_step :: "'w client \<Rightarrow> bool \<Rightarrow> 'w program \<Rightarrow> 'w program \<Rightarrow> bool" for c del where
  event_step: "run_state (deliver ev) (psys p) = (reqs, s) \<Longrightarrow> own_step c del p (p\<lparr>psys := s, queue := queue p @ reqs\<rparr>)"
| watch_step: "(\<And>ns n. r \<noteq> SourceRequest ns n \<and> r \<noteq> MirrorRequest ns n) \<Longrightarrow> own_step c del p (p\<lparr>queue := queue p @ [r]\<rparr>)"
| work_step: "queue p = before @ r # after \<Longrightarrow> run_state (reconcile c del r) (psys p) = (Returns err, s) \<Longrightarrow>
     own_step c del p (p\<lparr>psys := s, queue := before @ after @ (case err of None \<Rightarrow> [] | Some _ \<Rightarrow> [r])\<rparr>)"
| panic_step: "queue p = before @ r # after \<Longrightarrow> run_state (reconcile c del r) (psys p) = (Panic, s) \<Longrightarrow>
     own_step c del p (p\<lparr>psys := s, crashed := True\<rparr>)"
| shutdown_step: "run_state sessionManager_EndSession (psys p) = (ok, s) \<Longrightarrow>
     own_step c del p (p\<lparr>psys := s, crashed := crashed p \<or> \<not> ok\<rparr>)"

inductive_cases own_stepE: "own_step c del p p'"

text \<open>Between its steps the world may change in any way.\<close>

inductive program_reach :: "'w client \<Rightarrow> Config \<Rightarrow> 'w program \<Rightarrow> bool" for c cfg where
  program_start: "run_state (sessionManager_StartSession c) (allocated cfg w) = (ok, s) \<Longrightarrow>
     program_reach c cfg \<lparr>psys = s, queue = [], crashed = \<not> ok\<rparr>"
| program_own: "program_reach c cfg p \<Longrightarrow> own_step c (cfgDeleteOrphanedMirrors cfg) p p' \<Longrightarrow> program_reach c cfg p'"
| program_world: "program_reach c cfg p \<Longrightarrow> program_reach c cfg (p\<lparr>psys := (psys p)\<lparr>world := w\<rparr>\<rparr>)"

section \<open>The invariant\<close>

lemma io_sys_reconcile: "state_io_rel (keeps (wf_sys timeout)) (reconcile c del r)"
  unfolding reconcile_def
  by (cases r) (auto intro!: io_bind io_return io_sys_reconcilers io_sys_rule io_sys_ingress)

lemma io_sys_deliver: "state_io_rel (keeps (wf_sys timeout)) (deliver ev)"
proof -
  have "state_io_rel (keeps (wf_sys timeout)) (source_filter ev)"
    by (cases ev) (auto intro!: io_return io_sys_reconcilers)
  then show ?thesis
    unfolding deliver_def Let_def by (intro io_bind io_return frame_keeps)
qed

lemma EndSession_runs:
  assumes "wf_sys timeout s"
  shows "fst (run_state sessionManager_EndSession s)" "wf_sys timeout (snd (run_state sessionManager_EndSession s))"
proof -
  let ?hooks = "fold run_hook (onSessionEnd (sessionManager s)) s"
  have hooks: "wf_sys timeout t \<Longrightarrow> wf_sys timeout (fold run_hook hs t)" for hs t
    by (induction hs arbitrary: t)
      (auto simp: run_hook_def wf_sys_def Cache_Clear_def MirrorCache_Clear_def split: session_hook.splits)
  have "EndSession run_hook (sessionManager s) s \<noteq> None"
    using assms wf_manager_calls(2) by (auto simp: wf_sys_def)
  then show "fst (run_state sessionManager_EndSession s)"
    by (auto simp: sessionManager_EndSession_def)
  have "EndSession run_hook (sessionManager s) s = Some (m, s') \<Longrightarrow> wf_manager timeout m \<and> (s' = s \<or> s' = ?hooks)" for m s'
    using assms by (auto simp: wf_sys_def wf_manager_def session_defs split: option.splits if_splits)
  then show "wf_sys timeout (snd (run_state sessionManager_EndSession s))"
    using assms hooks [OF assms, of "onSessionEnd (sessionManager s)"]
    by (fastforce simp: sessionManager_EndSession_def wf_sys_def split: option.splits)
qed

lemma reconcile_no_panic:
  assumes "wf_sys timeout s"
  shows "fst (run_state (reconcile c del r) s) \<noteq> Panic"
proof (cases r)
  case (NamespaceRequest n)
  let ?s = "s\<lparr>world := snd (clock c (world s))\<rparr>"
  obtain ok t where start: "run_state (restart_expired_session c) ?s = (ok, t)"
    by fastforce
  have "wf_sys timeout ?s"
    using assms by (simp add: wf_sys_def)
  from restart_run(1) [OF this start [symmetric]] show ?thesis
    by (auto simp: NamespaceRequest reconcile_def NamespaceReconciler_Reconcile_def timed_def time_Now_def start case_prod_beta
        Let_def split: sum.splits)
qed (simp_all add: reconcile_def case_prod_beta Let_def)

lemma allocated_wf: "wf_sys (WatcherTimeout cfg) (allocated cfg w)"
  by (simp add: wf_sys_def wf_store_def allocated_def wf_manager_def session_defs NewNotFoundCache_def NewCache_def NewMirrorCache_def)

lemma start_runs:
  assumes "wf_sys timeout s" "run_state (sessionManager_StartSession c) s = (ok, t)"
  shows "ok" "wf_sys timeout t"
proof -
  have "StartSession now (sessionManager s) \<noteq> None" for now
    using assms(1) wf_manager_calls(1) by (auto simp: wf_sys_def)
  from this [of "fst (clock c (world s))"] assms(2) show ok
    by (auto simp: sessionManager_StartSession_def time_Now_def split: option.splits)
  from io_keepsD [OF io_sys_session(2) assms(1), of c] assms(2) show "wf_sys timeout t"
    by simp
qed

definition program_ok :: "duration \<Rightarrow> 'w program \<Rightarrow> bool" where
  "program_ok timeout p \<longleftrightarrow> wf_sys timeout (psys p) \<and> \<not> crashed p"

lemma own_step_ok:
  assumes "own_step c del p p'" "program_ok timeout p"
  shows "program_ok timeout p'"
  using assms(1)
proof cases
  case (event_step ev reqs s)
  with assms(2) io_keepsD [OF io_sys_deliver, of timeout "psys p" ev] show ?thesis
    by (simp add: program_ok_def)
next
  case watch_step
  with assms(2) show ?thesis by (simp add: program_ok_def)
next
  case (work_step before r after err s)
  with assms(2) io_keepsD [OF io_sys_reconcile, of timeout "psys p" c del r] show ?thesis
    by (simp add: program_ok_def)
next
  case (panic_step before r after s)
  with assms(2) reconcile_no_panic [of timeout "psys p" c del r] show ?thesis
    by (simp add: program_ok_def)
next
  case (shutdown_step ok s)
  with assms(2) EndSession_runs [of timeout "psys p"] show ?thesis
    by (simp add: program_ok_def)
qed

lemma program_reach_ok: "program_reach c cfg p \<Longrightarrow> program_ok (WatcherTimeout cfg) p"
proof (induction rule: program_reach.induct)
  case (program_start w ok s)
  with start_runs [OF allocated_wf program_start] show ?case
    by (simp add: program_ok_def)
next
  case (program_own p p')
  from program_own.hyps(2) program_own.IH show ?case by (rule own_step_ok)
next
  case (program_world p w)
  then show ?case by (simp add: program_ok_def wf_sys_def)
qed

section \<open>Properties\<close>

text \<open>C3. The invariant of the whole program. However its events, reconciliations (of all six kinds, in any
  order), restarts of the watch session and the shutdown follow each other, and whatever the API server and
  the rest of the world answer or do in between, the program never panics; the mirror store maps each
  identity once, to an allocated mirror of that identity; the caches hold each key once; and the session
  manager keeps the configured timeout and a session whose stop channel can be closed.\<close>

theorem program_invariant:
  assumes "program_reach c cfg p"
  shows "\<not> crashed p \<and> wf_store (psys p) \<and> distinct (map fst (mirrorCache (psys p))) \<and>
     distinct (map fst (entries (notFoundCache (psys p)))) \<and> wf_manager (WatcherTimeout cfg) (sessionManager (psys p)) \<and>
     (\<forall>r. fst (run_state (reconcile c (cfgDeleteOrphanedMirrors cfg) r) (psys p)) \<noteq> Panic)"
  using program_reach_ok [OF assms] reconcile_no_panic [of "WatcherTimeout cfg" "psys p"]
  by (simp add: program_ok_def wf_sys_def)

theorem program_invariant_witness:
  "\<exists>p. program_reach cluster_client (Load (\<lambda>_. '''')) p \<and> queue p = [SourceRequest ''prod'' ''db''] \<and> \<not> crashed p"
proof -
  let ?cfg = "Load (\<lambda>_. '''')"
  let ?s = "snd (run_state (sessionManager_StartSession cluster_client) (allocated ?cfg empty_cluster))"
  let ?ok = "fst (run_state (sessionManager_StartSession cluster_client) (allocated ?cfg empty_cluster))"
  let ?p = "\<lparr>psys = ?s, queue = [], crashed = \<not> ?ok\<rparr>"
  let ?obj = "empty_object\<lparr>Namespace := ''prod'', Name := ''db'', Annotations := Some [AnnotationReplicationAllowed \<mapsto> ''true'']\<rparr>"
  have "run_state (deliver (Created ?obj)) ?s = ([SourceRequest ''prod'' ''db''], ?s)"
    by (simp add: deliver_def SourcePredicate_Create_def hasReplicationAnnotation_def MirrorPredicate_Create_def
        hasReflectsAnnotation_def AnnotationReplicationAllowed_def AnnotationReflects_def)
  then have "own_step cluster_client del ?p (?p\<lparr>psys := ?s, queue := queue ?p @ [SourceRequest ''prod'' ''db'']\<rparr>)" for del
    by (intro event_step) simp
  then have "program_reach cluster_client ?cfg (?p\<lparr>psys := ?s, queue := queue ?p @ [SourceRequest ''prod'' ''db'']\<rparr>)"
    by (intro program_own [OF program_start]) auto
  with program_invariant [OF this] show ?thesis
    by (intro exI [of _ "?p\<lparr>psys := ?s, queue := queue ?p @ [SourceRequest ''prod'' ''db'']\<rparr>"]) simp
qed
section \<open>What the program writes\<close>

text \<open>Writing an object that says which source it mirrors respects \<open>W\<close>, and so does updating the status of
  a rule; nothing is said of other writes or of deletions.\<close>

definition marked :: "'a k8s_object_scheme \<Rightarrow> bool" where
  "marked obj \<longleftrightarrow> annotation obj AnnotationReflects \<noteq> ''''"

definition marked_writes_keep :: "('w \<Rightarrow> 'w \<Rightarrow> bool) \<Rightarrow> 'w client \<Rightarrow> bool" where
  "marked_writes_keep W c \<longleftrightarrow>
     (\<forall>obj w. marked obj \<longrightarrow> W w (snd (create_secret c obj w)) \<and> W w (snd (update_secret c obj w))) \<and>
     (\<forall>obj w. marked obj \<longrightarrow> W w (snd (create_configmap c obj w)) \<and> W w (snd (update_configmap c obj w))) \<and>
     (\<forall>rule w. W w (snd (update_rule_status c rule w)))"

lemma marked_permitted: "marked_writes_keep W c \<Longrightarrow> permitted_writes_keep W c source"
  by (auto simp: marked_writes_keep_def permitted_writes_keep_def permitted_secret_def permitted_configmap_def permitted_meta_def
      marked_def SourceID_String_def)

lemma NonDeleting_marked [simp]: "marked_writes_keep W (NonDeletingClient c) = marked_writes_keep W c"
  by (simp add: marked_writes_keep_def NonDeletingClient_def)

text \<open>The reconcilers respect \<open>W\<close>.\<close>

lemma io_world_sys_caches:
  assumes "reads_keep W c"
  shows "state_io_rel (world_rel W) (mirrorCache_Set key e)" "state_io_rel (world_rel W) mirrorCache_Clear"
    "state_io_rel (world_rel W) (mirrorCache_DeleteByNamespace c ns)" "state_io_rel (world_rel W) (sessionManager_IsSessionValid c)"
    "state_io_rel (world_rel W) (sessionManager_StartSession c)"
  unfolding mirrorCache_Set_def mirrorCache_Clear_def mirrorCache_DeleteByNamespace_def sessionManager_IsSessionValid_def
    sessionManager_StartSession_def Let_def
  by (intro io_bind [OF frame_world_rel [OF assms]] io_case_prod io_case_option io_return [OF frame_world_rel [OF assms]]
      io_world_reads [OF assms] io_world_create [OF assms] io_world_prims [OF assms]; simp)+

lemma io_world_reconcile:
  assumes "reads_keep W c" "gets_requested c" "marked_writes_keep W c"
  shows "state_io_rel (world_rel W) (reconcile (NonDeletingClient c) del r)"
proof -
  let ?c = "NonDeletingClient c"
  have keep: "reads_keep W ?c" and gets: "gets_requested ?c" and writes: "marked_writes_keep W ?c"
    using assms by simp_all
  note fr = frame_world_rel [OF keep]
  have exec: "state_io_rel (world_rel W) (ReflectResources_Execute ?c source)" for source
    using keep gets marked_permitted [OF writes] by (rule io_Execute)
  have status: "state_io_rel (world_rel W) (api (update_rule_status ?c rule))" for rule
    using writes by (intro io_world_api) (simp add: marked_writes_keep_def)
  have delete: "state_io_rel (world_rel W) (DeleteMirror_Execute ?c del i rt)" for i rt
    unfolding DeleteMirror_Execute_def
    by (intro io_if io_bind io_return io_world_nondeleting [OF assms(1)] io_world_create [OF keep] fr)
  note leaves = exec status delete io_world_create [OF keep] io_world_reads [OF keep] io_world_caches [OF keep]
    io_world_sys_caches [OF keep] io_world_prims(1-4) [OF keep]
  have rule: "state_io_rel (world_rel W) (RuleReconciler_Reconcile ?c n)" for n
    by (intro io_rule_reconcile fr leaves)
  have mirror: "state_io_rel (world_rel W) (MirrorReconciler_Reconcile ?c del ns n)" for ns n
    unfolding MirrorReconciler_Reconcile_def MirrorReconciler_fetchMirror_def MirrorReconciler_fetchSource_def
      deleteMirrorIfOrphaned_def register_mirror_def Let_def
    by (intro io_timed [OF fr] io_if io_bind [OF fr] io_return [OF fr] io_case_sum io_case_option io_for_each [OF fr] leaves)
  have others: "state_io_rel (world_rel W) (NamespaceReconciler_Reconcile ?c n)"
    "state_io_rel (world_rel W) (CertificateReconciler_Reconcile ?c ns n)" "state_io_rel (world_rel W) (IngressReconciler_Reconcile ?c ns n)" for ns n
    unfolding NamespaceReconciler_Reconcile_def CertificateReconciler_Reconcile_def IngressReconciler_Reconcile_def
      restart_expired_session_def handleNamespaceDeletion_def Let_def
    by (intro io_timed [OF fr] io_if io_bind [OF fr] io_return [OF fr] io_case_sum io_case_option io_for_each [OF fr] leaves)+
  have source: "state_io_rel (world_rel W) (SourceReconciler_Reconcile ?c ns n)" for ns n
    using keep gets marked_permitted [OF writes] by (rule io_source_reconcile)
  show ?thesis
    unfolding reconcile_def
    by (cases r) (auto intro!: io_bind [OF fr] io_return [OF fr] source mirror others rule)
qed

lemma own_step_world:
  assumes "own_step (NonDeletingClient c) del p p'" "reads_keep W c" "gets_requested c" "marked_writes_keep W c"
  shows "world_rel W (psys p) (psys p')"
proof -
  note fr = frame_world_rel [OF assms(2)]
  have refl: "world_rel W s s" for s
    using fr by (rule frame_refl)
  have "state_io_rel (world_rel W) (deliver ev)" for ev
  proof -
    have "state_io_rel (world_rel W) (source_filter ev)"
      by (cases ev) (auto simp: SourcePredicate_Update_def SourcePredicate_Delete_def
          intro!: io_return [OF fr] io_bind [OF fr] io_world_caches [OF assms(2)])
    then show ?thesis
      unfolding deliver_def Let_def by (intro io_bind [OF fr] io_return [OF fr])
  qed
  note deliver = io_run [OF this]
  have hooks: "world (fold run_hook hs t) = world t \<and> dispatcher (fold run_hook hs t) = dispatcher t" for hs t
    by (induction hs arbitrary: t) (auto simp: run_hook_def split: session_hook.splits)
  have shutdown: "world_rel W s (snd (run_state sessionManager_EndSession s))" for s
    using refl [of s] hooks [of "onSessionEnd (sessionManager s)" s]
    by (auto simp: sessionManager_EndSession_def EndSession_def world_rel_def split: option.splits)
  from assms(1) show ?thesis
  proof cases
    case (event_step ev reqs s)
    with deliver [of "psys p" ev] show ?thesis by simp
  next
    case watch_step
    with refl show ?thesis by simp
  next
    case (work_step before r after err s)
    with io_run [OF io_world_reconcile [OF assms(2-4)], of "psys p" del r] show ?thesis by simp
  next
    case (panic_step before r after s)
    with io_run [OF io_world_reconcile [OF assms(2-4)], of "psys p" del r] show ?thesis by simp
  next
    case (shutdown_step ok s)
    with shutdown [of "psys p"] show ?thesis by simp
  qed
qed

text \<open>The program registers no event handlers.\<close>

lemma program_reach_dispatcher:
  assumes "gets_requested c" "program_reach (NonDeletingClient c) cfg p"
  shows "dispatcher (psys p) = NewInMemoryDispatcher"
  using assms(2)
proof (induction rule: program_reach.induct)
  case (program_start w ok s)
  then have "s = snd (run_state (sessionManager_StartSession (NonDeletingClient c)) (allocated cfg w))"
    by simp
  then show ?case
    by (simp add: sessionManager_StartSession_def time_Now_def allocated_def split: option.splits)
next
  case (program_own p p')
  have "reads_keep (\<lambda>_ _. True) c" "marked_writes_keep (\<lambda>_ _. True) c"
    by (simp_all add: reads_keep_def marked_writes_keep_def reflp_def transp_def)
  with own_step_world [OF program_own.hyps(2) _ assms(1)] program_own.IH show ?case
    by (simp add: world_rel_def)
qed simp

text \<open>C2. The program writes mirrors and nothing else, and deletes nothing. With the client that main.go hands
  out, every run of the program from a state it has reached, over any events and reconciliations, changes
  the cluster only by creating and updating Secrets and ConfigMaps that carry a replicated-from annotation
  and by updating the status of rules: a relation on worlds that these writes and all reads respect holds
  between the beginning and the end of the run, even if a deletion, or a write of an unmarked object, would
  break it.\<close>

theorem program_writes_only_mirrors:
  assumes "program_reach (NonDeletingClient c) cfg p" and "(own_step (NonDeletingClient c) (cfgDeleteOrphanedMirrors cfg))\<^sup>*\<^sup>* p p'"
    and "reads_keep W c" and "gets_requested c" and "marked_writes_keep W c"
  shows "W (world (psys p)) (world (psys p'))"
proof -
  have "world_rel W (psys p) (psys p')"
    using assms(2)
  proof (induction rule: rtranclp_induct)
    case base
    show ?case using frame_world_rel [OF assms(3)] by (rule frame_refl)
  next
    case (step q q')
    with own_step_world [OF step.hyps(2) assms(3-5)] show ?case
      by (blast intro: frame_trans [OF frame_world_rel [OF assms(3)]])
  qed
  moreover have "handlers_keep W NewInMemoryDispatcher"
    using assms(3) by (auto simp: handlers_keep_def reads_keep_def reflp_def)
  ultimately show ?thesis
    using program_reach_dispatcher [OF assms(4,1)] by (simp add: world_rel_def)
qed

theorem program_writes_only_mirrors_witness:
  "\<exists>p p'. program_reach (NonDeletingClient cluster_client) (Load (\<lambda>_. ''true'')) p \<and>
     cl_secrets (world (psys p)) (''dev'', ''db'') \<noteq> None \<and>
     own_step (NonDeletingClient cluster_client) True p p' \<and> queue p = [MirrorRequest ''dev'' ''db''] \<and>
     cl_secrets (world (psys p')) (''dev'', ''db'') \<noteq> None"
proof -
  let ?c = "NonDeletingClient cluster_client" and ?cfg = "Load (\<lambda>_. ''true'')"
  let ?obj = "new_Secret ''db'' ''dev'' [AnnotationReflects \<mapsto> ''prod/gone''] Map.empty ''Opaque''"
  let ?w = "empty_cluster\<lparr>cl_secrets := [(''dev'', ''db'') \<mapsto> ?obj]\<rparr>"
  let ?W = "\<lambda>w w' :: cluster. \<forall>k. cl_secrets w k \<noteq> None \<longrightarrow> cl_secrets w' k \<noteq> None"
  obtain ok s where start: "run_state (sessionManager_StartSession ?c) (allocated ?cfg ?w) = (ok, s)"
    by fastforce
  let ?fresh = "\<lparr>psys = s, queue = [], crashed = \<not> ok\<rparr>"
  let ?p = "?fresh\<lparr>psys := s, queue := queue ?fresh @ [MirrorRequest ''dev'' ''db'']\<rparr>"
  have del: "cfgDeleteOrphanedMirrors ?cfg = True"
    by (simp add: Load_def Let_def)
  let ?meta = "empty_object\<lparr>Namespace := ''dev'', Name := ''db'', Annotations := Some [AnnotationReflects \<mapsto> ''prod/gone'']\<rparr>"
  have "run_state (deliver (Created ?meta)) (psys ?fresh) = ([MirrorRequest ''dev'' ''db''], s)"
    by (simp add: deliver_def SourcePredicate_Create_def hasReplicationAnnotation_def MirrorPredicate_Create_def
        hasReflectsAnnotation_def AnnotationReplicationAllowed_def AnnotationReflects_def)
  from event_step [OF this] have "own_step ?c True ?fresh ?p" .
  then have reach: "program_reach ?c ?cfg ?p"
    by (intro program_own [OF program_start [OF start]]) (simp only: del)
  obtain out t where run: "run_state (reconcile ?c True (MirrorRequest ''dev'' ''db'')) (psys ?p) = (out, t)"
    by fastforce
  then obtain err where "out = Returns err"
    by (auto simp: reconcile_def case_prod_beta Let_def)
  with run have step: "own_step ?c True ?p (?p\<lparr>psys := t, queue := [] @ [] @ (case err of None \<Rightarrow> [] | Some _ \<Rightarrow> [MirrorRequest ''dev'' ''db''])\<rparr>)"
    by (intro work_step) simp_all
  have "s = snd (run_state (sessionManager_StartSession ?c) (allocated ?cfg ?w))"
    using start by simp
  then have world: "cl_secrets (world s) (''dev'', ''db'') \<noteq> None"
    by (simp add: sessionManager_StartSession_def time_Now_def allocated_def cluster_client_def NonDeletingClient_def split: option.splits)
  have "reads_keep ?W cluster_client" "gets_requested cluster_client" "marked_writes_keep ?W cluster_client"
    by (auto simp: reads_keep_def gets_requested_def marked_writes_keep_def cluster_client_def reflp_def transp_def
        put_secret_def put_configmap_def not_found_def split: option.splits)
  note hyps = this
  have "(own_step ?c (cfgDeleteOrphanedMirrors ?cfg))\<^sup>*\<^sup>* ?p (?p\<lparr>psys := t, queue := [] @ [] @ (case err of None \<Rightarrow> [] | Some _ \<Rightarrow> [MirrorRequest ''dev'' ''db''])\<rparr>)"
    unfolding del using step by (rule r_into_rtranclp)
  from program_writes_only_mirrors [OF reach this hyps] world have "cl_secrets (world t) (''dev'', ''db'') \<noteq> None"
    by simp
  with reach step world show ?thesis
    by (intro exI [of _ ?p] exI conjI) auto
qed

section \<open>Sources\<close>

text \<open>A source made from an object: it has the identity, type and version of the object, and every pattern
  of its namespace sets has its compiled expression.\<close>

definition made_from :: "ResourceType \<Rightarrow> 'a k8s_object_scheme \<Rightarrow> Source option \<Rightarrow> bool" where
  "made_from rt obj r \<longleftrightarrow>
     (case r of
        None \<Rightarrow> True
      | Some s \<Rightarrow> wf_source s \<and> source_allowed s \<and> source_id s = NewSourceID (Namespace obj) (Name obj) \<and>
          source_resourceType s = rt \<and> source_version s = ResourceVersion obj)"

lemma read_made_from:
  "(\<And>s. r = Some s \<Longrightarrow> wf_source s) \<Longrightarrow>
   (\<And>s. r = Some s \<Longrightarrow> annotation obj AnnotationReplicationAllowed = ''true'' \<and> source_allowed s \<and>
     source_version s = ResourceVersion obj \<and> source_id s = NewSourceID (Namespace obj) (Name obj) \<and> source_resourceType s = rt) \<Longrightarrow>
   made_from rt obj r"
  by (auto simp: made_from_def split: option.split)

text \<open>C13. Every source the program ever replicates is well formed. All ten readers, of the adapters, of the
  Source, Mirror, Certificate and Ingress reconcilers and of the rule reconciler, whatever annotations,
  templates and rules they are given, return a source (if any) that is allowed, has the identity, the
  version and the type of the object it was read from, and namespace sets whose patterns all compiled.\<close>

theorem sources_well_formed:
  "list_all (made_from ResourceTypeSecret sec)
     [secretToSource sec, SourceReconciler_secretToSource sec, MirrorReconciler_secretToSource sec, certificateSecretToSource sec,
      ingressSecretToSource sec template, Some (fst (Rule_secretToSource sec rule targets))] \<and>
   list_all (made_from ResourceTypeConfigMap cm)
     [configMapToSource cm, SourceReconciler_configMapToSource cm, MirrorReconciler_configMapToSource cm,
      Some (fst (Rule_configMapToSource cm rule targets))]"
proof -
  have "made_from ResourceTypeSecret (merged_secret sec template) (ingressSecretToSource sec template)"
    unfolding ingressSecretToSource_def by (intro read_made_from ingress_secret.read_wf ingress_secret.read_permission)
  then have "made_from ResourceTypeSecret sec (ingressSecretToSource sec template)"
    by (cases "ingressSecretToSource sec template") (simp_all add: made_from_def merged_secret_def)
  moreover have "made_from ResourceTypeSecret sec (secretToSource sec)" "made_from ResourceTypeConfigMap cm (configMapToSource cm)"
    "made_from ResourceTypeSecret sec (SourceReconciler_secretToSource sec)"
    "made_from ResourceTypeConfigMap cm (SourceReconciler_configMapToSource cm)"
    "made_from ResourceTypeSecret sec (MirrorReconciler_secretToSource sec)"
    "made_from ResourceTypeConfigMap cm (MirrorReconciler_configMapToSource cm)"
    "made_from ResourceTypeSecret sec (certificateSecretToSource sec)"
    by (intro read_made_from adapter_secret.read_wf adapter_secret.read_permission adapter_configmap.read_wf
        adapter_configmap.read_permission source_secret.read_wf source_secret.read_permission source_configmap.read_wf
        source_configmap.read_permission mirror_secret.read_wf mirror_secret.read_permission mirror_configmap.read_wf
        mirror_configmap.read_permission certificate_secret.read_wf certificate_secret.read_permission; assumption)+
  ultimately show ?thesis
    by (simp add: made_from_def [of _ _ "Some _"] Rule_secretToSource_def Rule_configMapToSource_def)
qed

section \<open>From an event to the copies\<close>

lemma server_gets: "api_server c view \<Longrightarrow> gets_requested c"
  using servesD [OF api_serverD(3), of c view] servesD [OF api_serverD(4), of c view]
  unfolding gets_requested_def by (auto split: option.splits)

lemma NonDeleting_gets [simp]: "gets_requested (NonDeletingClient c) = gets_requested c"
  by (simp add: gets_requested_def NonDeletingClient_def)

text \<open>An update event unmarks the name, so the reconciliation it queues looks at the cluster.\<close>

lemma deliver_update:
  "hasReplicationAnnotation (Some new) \<Longrightarrow> run_state (deliver (Updated old new)) s =
     (SourceRequest (Namespace new) (Name new) # filter (\<lambda>_. mirror_filter (Updated old new)) [MirrorRequest (Namespace new) (Name new)],
      s\<lparr>notFoundCache := fst (MarkFound (cacheKey (Namespace new) (Name new)) (notFoundCache s)),
        metrics := metrics s @ snd (MarkFound (cacheKey (Namespace new) (Name new)) (notFoundCache s))\<rparr>)"
  by (simp add: deliver_def SourcePredicate_Update_def notFoundCache_MarkFound_def Let_def case_prod_beta)

lemma MarkFound_unmarks: "map_of (entries (fst (MarkFound key c))) key = None"
  by (simp add: MarkFound_def Cache_Delete_def map_of_delete)

lemma stored_notFound [simp]: "stored (s\<lparr>notFoundCache := nf\<rparr>) = stored s"
  by (simp add: stored_def fun_eq_iff)

lemma update_reconciled:
  assumes "program_reach (NonDeletingClient c) cfg p" and "api_server (NonDeletingClient c) view"
    and "Namespace new = ns" and "Name new = n" and "hasReplicationAnnotation (Some (new :: k8s_object))"
    and "obj_secrets (view (world (psys p))) (ns, n) = Some obj" and "\<not> IsHelmSecret obj"
    and "ns \<noteq> ''''" and "n \<noteq> ''''" and "ResourceVersion obj \<noteq> ''''" and "plain_annotations obj"
    and "target \<in> set (obj_namespaces (view (world (psys p))))" and "dns_label target" and "target \<noteq> ns" and "asks_for obj target"
    and "stored (psys p) (NewMirrorID target n) = None" and "obj_secrets (view (world (psys p))) (target, n) = None"
  obtains reqs s where "run_state (deliver (Updated old new)) (psys p) = (SourceRequest ns n # reqs, s)"
    and "set reqs \<subseteq> {MirrorRequest ns n}" and "fst (run_state (SourceReconciler_Reconcile (NonDeletingClient c) ns n) s) = None"
    and "\<exists>obj'. obj_secrets (view (world (snd (run_state (SourceReconciler_Reconcile (NonDeletingClient c) ns n) s)))) (target, n) = Some obj' \<and>
      Data obj' = Data obj \<and> Type obj' = Type obj \<and> annotation obj' AnnotationReflects = ns @ ''/'' @ n"
proof -
  let ?c = "NonDeletingClient c"
  have wf: "wf_sys (WatcherTimeout cfg) (psys p)"
    using program_reach_ok [OF assms(1)] by (simp add: program_ok_def)
  have disp: "dispatcher (psys p) = NewInMemoryDispatcher"
    using program_reach_dispatcher [OF _ assms(1)] server_gets [OF assms(2)] by simp
  let ?s = "(psys p)\<lparr>notFoundCache := fst (MarkFound (cacheKey ns n) (notFoundCache (psys p))),
    metrics := metrics (psys p) @ snd (MarkFound (cacheKey ns n) (notFoundCache (psys p)))\<rparr>"
  have s: "wf_store ?s" "dispatcher ?s = NewInMemoryDispatcher" "stored ?s = stored (psys p)" "world ?s = world (psys p)"
    using wf disp by (simp_all add: wf_sys_def wf_store_def stored_def fun_eq_iff)
  have run: "fst (run_state (SourceReconciler_Reconcile ?c ns n) ?s) = None"
    "\<exists>obj'. obj_secrets (view (world (snd (run_state (SourceReconciler_Reconcile ?c ns n) ?s)))) (target, n) = Some obj' \<and>
      Data obj' = Data obj \<and> Type obj' = Type obj \<and> annotation obj' AnnotationReflects = ns @ ''/'' @ n"
    using secret_reconcile_reaches [OF assms(2) s(1,2), of ns n obj target] assms(6-) MarkFound_unmarks [of "cacheKey ns n"]
    by (simp_all add: s cacheKey_def)
  show thesis
    by (rule that [OF deliver_update [OF assms(5), of old "psys p", unfolded assms(3,4)] _ run]) auto
qed


lemma NonDeleting_server [simp]: "api_server (NonDeletingClient c) view = api_server c view"
  by (simp add: api_server_def reads_keep_def NonDeletingClient_def)


end
