(* ===== verification/Logger.thy ===== *)
theory Logger
  imports Config
begin

text \<open>
  Package \<open>logger\<close> (pkg/logger/logger.go): the wrapper around \<open>log/slog\<close>. A handler of slog has a
  minimum level and the attribute lists added by \<open>With\<close>; standard output is the list of records
  written to it. Arguments are of any type \<open>'a\<close>; how a record is printed as JSON is left out.
\<close>

section \<open>log/slog\<close>

type_synonym level = int

definition LevelDebug :: level where "LevelDebug = - 4"
definition LevelInfo :: level where "LevelInfo = 0"
definition LevelWarn :: level where "LevelWarn = 4"
definition LevelError :: level where "LevelError = 8"

record 'a slog_handler =
  minimum :: level
  attributes :: "'a list list"

record 'a slog_record =
  rec_level :: level
  rec_msg :: string
  rec_attributes :: "'a list list"
  rec_args :: "'a list"

definition slog_log :: "level \<Rightarrow> 'a slog_handler \<Rightarrow> string \<Rightarrow> 'a list \<Rightarrow> 'a slog_record list \<Rightarrow> 'a slog_record list" where
  "slog_log lvl h msg args out =
     (if lvl \<ge> minimum h
      then out @ [\<lparr>rec_level = lvl, rec_msg = msg, rec_attributes = attributes h, rec_args = args\<rparr>]
      else out)"

definition slog_With :: "'a list \<Rightarrow> 'a slog_handler \<Rightarrow> 'a slog_handler" where
  "slog_With args h = (if args = [] then h else h\<lparr>attributes := attributes h @ [args]\<rparr>)"

section \<open>SlogLogger\<close>

record 'a SlogLogger =
  logger :: "'a slog_handler"

definition NewSlogLogger :: "'a SlogLogger" where
  "NewSlogLogger = \<lparr>logger = \<lparr>minimum = LevelInfo, attributes = []\<rparr>\<rparr>"

definition Logger_Debug :: "'a SlogLogger \<Rightarrow> string \<Rightarrow> 'a list \<Rightarrow> 'a slog_record list \<Rightarrow> 'a slog_record list" where
  "Logger_Debug l msg args = slog_log LevelDebug (logger l) msg args"

definition Logger_Info :: "'a SlogLogger \<Rightarrow> string \<Rightarrow> 'a list \<Rightarrow> 'a slog_record list \<Rightarrow> 'a slog_record list" where
  "Logger_Info l msg args = slog_log LevelInfo (logger l) msg args"

definition Logger_Warn :: "'a SlogLogger \<Rightarrow> string \<Rightarrow> 'a list \<Rightarrow> 'a slog_record list \<Rightarrow> 'a slog_record list" where
  "Logger_Warn l msg args = slog_log LevelWarn (logger l) msg args"

definition Logger_Error :: "'a SlogLogger \<Rightarrow> string \<Rightarrow> 'a list \<Rightarrow> 'a slog_record list \<Rightarrow> 'a slog_record list" where
  "Logger_Error l msg args = slog_log LevelError (logger l) msg args"

definition Logger_With :: "'a SlogLogger \<Rightarrow> 'a list \<Rightarrow> 'a SlogLogger" where
  "Logger_With l args = \<lparr>logger = slog_With args (logger l)\<rparr>"

section \<open>What is printed\<close>

datatype 'a log_message = Debug string "'a list" | Info string "'a list" | Warn string "'a list" | Err string "'a list"

fun log_call :: "'a SlogLogger \<Rightarrow> 'a log_message \<Rightarrow> 'a slog_record list \<Rightarrow> 'a slog_record list" where
  "log_call l (Debug msg args) = Logger_Debug l msg args"
| "log_call l (Info msg args) = Logger_Info l msg args"
| "log_call l (Warn msg args) = Logger_Warn l msg args"
| "log_call l (Err msg args) = Logger_Error l msg args"

fun is_debug :: "'a log_message \<Rightarrow> bool" where
  "is_debug (Debug msg args) = True"
| "is_debug _ = False"

lemmas logger_defs = Logger_Debug_def Logger_Info_def Logger_Warn_def Logger_Error_def slog_log_def
  LevelDebug_def LevelInfo_def LevelWarn_def LevelError_def

text \<open>Loggers made from the program's logger with \<open>With\<close> carry all the added arguments, and keep its level.\<close>

lemma With_chain:
  "logger (fold (\<lambda>args l. Logger_With l args) argss l) =
     (logger l)\<lparr>attributes := attributes (logger l) @ filter (\<lambda>args. args \<noteq> []) argss\<rparr>"
  by (induction argss arbitrary: l) (auto simp: Logger_With_def slog_With_def)

text \<open>The program's loggers print all messages but those of level Debug, in the order of the calls, whatever
  minimum level is configured.\<close>

theorem debug_never_printed:
  "map rec_msg (fold (log_call (fold (\<lambda>args l. Logger_With l args) argss NewSlogLogger)) calls out) =
     map rec_msg out @ map (\<lambda>call. case call of Debug m _ \<Rightarrow> m | Info m _ \<Rightarrow> m | Warn m _ \<Rightarrow> m | Err m _ \<Rightarrow> m)
       (filter (\<lambda>call. \<not> is_debug call) calls)"
proof (induction calls arbitrary: out)
  case (Cons call calls)
  have "minimum (logger (fold (\<lambda>args l. Logger_With l args) argss NewSlogLogger)) = LevelInfo"
    by (simp add: With_chain NewSlogLogger_def)
  with Cons.IH show ?case
    by (cases call) (simp_all add: logger_defs)
qed simp

end
