(* ===== verification/Wiring.thy ===== *)
theory Wiring
  imports Program Logger
begin

text \<open>
  The object graph that main.go (cmd/replikator) builds: which service, use case and reconciler holds a
  reference to which other object. The remaining theories give every reconciler one shared store, the same
  caches and a client that does not delete; here that is derived from the constructor calls of \<open>main\<close>.
\<close>

section \<open>References\<close>

text \<open>A reference is to an object of the manager that controller-runtime made, or to the \<open>n\<close>th object
  the program itself allocated.\<close>

datatype library_object = ManagerClient | ManagerScheme | EventRecorderFor string

datatype ref = Lib library_object | Obj nat

section \<open>The structs\<close>

record KubernetesAdapter =
  ka_client :: ref
  ka_recorder :: ref
  ka_scheme :: ref

definition NewKubernetesAdapter :: "ref \<Rightarrow> ref \<Rightarrow> ref \<Rightarrow> KubernetesAdapter" where
  "NewKubernetesAdapter c recorder scheme = \<lparr>ka_client = c, ka_recorder = recorder, ka_scheme = scheme\<rparr>"

record NamespaceListerAdapter =
  nl_client :: ref

definition NewNamespaceListerAdapter :: "ref \<Rightarrow> NamespaceListerAdapter" where
  "NewNamespaceListerAdapter c = \<lparr>nl_client = c\<rparr>"

definition NewInMemoryMirrorStore :: "(MirrorID \<times> nat) list" where
  "NewInMemoryMirrorStore = []"

record ReflectionService =
  rs_eventDispatcher :: ref

definition NewReflectionService :: "ref \<Rightarrow> ReflectionService" where
  "NewReflectionService disp = \<lparr>rs_eventDispatcher = disp\<rparr>"

record ReflectResourcesUseCase =
  ru_reflectionService :: ref
  ru_sourceStore :: ref
  ru_mirrorRepo :: ref
  ru_namespaceLister :: ref
  ru_logger :: ref

definition NewReflectResourcesUseCase :: "ref \<Rightarrow> ref \<Rightarrow> ref \<Rightarrow> ref \<Rightarrow> ref \<Rightarrow> ReflectResourcesUseCase" where
  "NewReflectResourcesUseCase svc sourceStore mirrorRepo lister lg =
     \<lparr>ru_reflectionService = svc, ru_sourceStore = sourceStore, ru_mirrorRepo = mirrorRepo,
      ru_namespaceLister = lister, ru_logger = lg\<rparr>"

record HandleSourceDeletionUseCase =
  hu_mirrorRepo :: ref
  hu_sourceStore :: ref
  hu_deleteOrphaned :: bool

definition NewHandleSourceDeletionUseCase :: "ref \<Rightarrow> ref \<Rightarrow> bool \<Rightarrow> HandleSourceDeletionUseCase" where
  "NewHandleSourceDeletionUseCase mirrorRepo sourceStore deleteOrphaned =
     \<lparr>hu_mirrorRepo = mirrorRepo, hu_sourceStore = sourceStore, hu_deleteOrphaned = deleteOrphaned\<rparr>"

record CreateMirrorUseCase =
  cu_mirrorRepo :: ref
  cu_reflectionService :: ref

definition NewCreateMirrorUseCase :: "ref \<Rightarrow> ref \<Rightarrow> CreateMirrorUseCase" where
  "NewCreateMirrorUseCase mirrorRepo svc = \<lparr>cu_mirrorRepo = mirrorRepo, cu_reflectionService = svc\<rparr>"

record DeleteMirrorUseCase =
  du_mirrorRepo :: ref
  du_sourceStore :: ref
  du_deleteOrphaned :: bool

definition NewDeleteMirrorUseCase :: "ref \<Rightarrow> ref \<Rightarrow> bool \<Rightarrow> DeleteMirrorUseCase" where
  "NewDeleteMirrorUseCase mirrorRepo sourceStore deleteOrphaned =
     \<lparr>du_mirrorRepo = mirrorRepo, du_sourceStore = sourceStore, du_deleteOrphaned = deleteOrphaned\<rparr>"

record SourceReconciler =
  sr_client :: ref
  sr_recorder :: ref
  sr_reflectUseCase :: ref
  sr_deleteUseCase :: ref
  sr_reflectionSvc :: ref
  sr_namespaceLister :: ref
  sr_propertiesCache :: ref
  sr_notFoundCache :: ref
  sr_log :: ref
  sr_watcherConfig :: WatcherConfig

definition NewSourceReconciler ::
  "ref \<Rightarrow> ref \<Rightarrow> ref \<Rightarrow> ref \<Rightarrow> ref \<Rightarrow> ref \<Rightarrow> ref \<Rightarrow> ref \<Rightarrow> ref \<Rightarrow> WatcherConfig \<Rightarrow> SourceReconciler" where
  "NewSourceReconciler c recorder reflectUC deleteUC svc lister propsCache nfCache lg watcherCfg =
     \<lparr>sr_client = c, sr_recorder = recorder, sr_reflectUseCase = reflectUC, sr_deleteUseCase = deleteUC,
      sr_reflectionSvc = svc, sr_namespaceLister = lister, sr_propertiesCache = propsCache,
      sr_notFoundCache = nfCache, sr_log = lg, sr_watcherConfig = watcherCfg\<rparr>"

record MirrorReconciler =
  mr_client :: ref
  mr_recorder :: ref
  mr_createMirrorUC :: ref
  mr_deleteMirrorUC :: ref
  mr_reflectUseCase :: ref
  mr_reflectionSvc :: ref
  mr_namespaceLister :: ref
  mr_mirrorStore :: ref
  mr_mirrorCache :: ref
  mr_log :: ref

definition NewMirrorReconciler ::
  "ref \<Rightarrow> ref \<Rightarrow> ref \<Rightarrow> ref \<Rightarrow> ref \<Rightarrow> ref \<Rightarrow> ref \<Rightarrow> ref \<Rightarrow> ref \<Rightarrow> ref \<Rightarrow> MirrorReconciler" where
  "NewMirrorReconciler c recorder createUC deleteUC reflectUC svc lister store mCache lg =
     \<lparr>mr_client = c, mr_recorder = recorder, mr_createMirrorUC = createUC, mr_deleteMirrorUC = deleteUC,
      mr_reflectUseCase = reflectUC, mr_reflectionSvc = svc, mr_namespaceLister = lister,
      mr_mirrorStore = store, mr_mirrorCache = mCache, mr_log = lg\<rparr>"

record NamespaceReconciler =
  nr_client :: ref
  nr_recorder :: ref
  nr_reflectUseCase :: ref
  nr_namespaceLister :: ref
  nr_mirrorCache :: ref
  nr_mirrorStore :: ref
  nr_log :: ref
  nr_sessionManager :: ref

definition NewNamespaceReconciler ::
  "ref \<Rightarrow> ref \<Rightarrow> ref \<Rightarrow> ref \<Rightarrow> ref \<Rightarrow> ref \<Rightarrow> ref \<Rightarrow> ref \<Rightarrow> NamespaceReconciler" where
  "NewNamespaceReconciler c recorder reflectUC lister mCache store lg sessions =
     \<lparr>nr_client = c, nr_recorder = recorder, nr_reflectUseCase = reflectUC, nr_namespaceLister = lister,
      nr_mirrorCache = mCache, nr_mirrorStore = store, nr_log = lg, nr_sessionManager = sessions\<rparr>"

record CertificateReconciler =
  cr_client :: ref
  cr_scheme :: ref
  cr_recorder :: ref
  cr_reflectUseCase :: ref
  cr_log :: ref

definition NewCertificateReconciler :: "ref \<Rightarrow> ref \<Rightarrow> ref \<Rightarrow> ref \<Rightarrow> ref \<Rightarrow> CertificateReconciler" where
  "NewCertificateReconciler c scheme recorder reflectUC lg =
     \<lparr>cr_client = c, cr_scheme = scheme, cr_recorder = recorder, cr_reflectUseCase = reflectUC, cr_log = lg\<rparr>"

record IngressReconciler =
  ir_client :: ref
  ir_scheme :: ref
  ir_recorder :: ref
  ir_reflectUseCase :: ref
  ir_log :: ref

definition NewIngressReconciler :: "ref \<Rightarrow> ref \<Rightarrow> ref \<Rightarrow> ref \<Rightarrow> ref \<Rightarrow> IngressReconciler" where
  "NewIngressReconciler c scheme recorder reflectUC lg =
     \<lparr>ir_client = c, ir_scheme = scheme, ir_recorder = recorder, ir_reflectUseCase = reflectUC, ir_log = lg\<rparr>"

record ClusterReplicationRuleReconciler =
  rr_client :: ref
  rr_scheme :: ref
  rr_recorder :: ref
  rr_reflectUseCase :: ref
  rr_deleteSourceUC :: ref
  rr_namespaceLister :: ref
  rr_propertiesCache :: ref
  rr_notFoundCache :: ref
  rr_log :: ref

definition NewClusterReplicationRuleReconciler ::
  "ref \<Rightarrow> ref \<Rightarrow> ref \<Rightarrow> ref \<Rightarrow> ref \<Rightarrow> ref \<Rightarrow> ref \<Rightarrow> ref \<Rightarrow> ref \<Rightarrow> ClusterReplicationRuleReconciler" where
  "NewClusterReplicationRuleReconciler c scheme recorder reflectUC deleteUC lister propsCache nfCache lg =
     \<lparr>rr_client = c, rr_scheme = scheme, rr_recorder = recorder, rr_reflectUseCase = reflectUC,
      rr_deleteSourceUC = deleteUC, rr_namespaceLister = lister, rr_propertiesCache = propsCache,
      rr_notFoundCache = nfCache, rr_log = lg\<rparr>"

record SourcePredicate =
  sp_notFoundCache :: ref

definition NewSourcePredicate :: "ref \<Rightarrow> SourcePredicate" where
  "NewSourcePredicate nfCache = \<lparr>sp_notFoundCache = nfCache\<rparr>"

section \<open>The heap\<close>

text \<open>The closure that \<open>main\<close> registers with the session manager captures the logger and the three caches.\<close>

datatype closure = ClearingClosure (cl_log: ref) (cl_notFound: ref) (cl_properties: ref) (cl_mirrors: ref)

datatype 'w component =
    NonDeletingClientObj ref
  | LoggerObj
  | KubernetesAdapterObj KubernetesAdapter
  | NamespaceListerObj NamespaceListerAdapter
  | MirrorStoreObj "(MirrorID \<times> nat) list"
  | DispatcherObj "'w InMemoryDispatcher"
  | ReflectionServiceObj ReflectionService
  | NotFoundCacheObj Cache
  | PropertiesCacheObj PropertiesCache
  | MirrorCacheObj MirrorCache
  | SessionManagerObj "closure SessionManager" ref
  | ReflectObj ReflectResourcesUseCase
  | DeleteSourceObj HandleSourceDeletionUseCase
  | CreateMirrorObj CreateMirrorUseCase
  | DeleteMirrorObj DeleteMirrorUseCase
  | SourceReconcilerObj SourceReconciler
  | MirrorReconcilerObj MirrorReconciler
  | NamespaceReconcilerObj NamespaceReconciler
  | CertificateReconcilerObj CertificateReconciler
  | IngressReconcilerObj IngressReconciler
  | RuleReconcilerObj ClusterReplicationRuleReconciler
  | SourcePredicateObj SourcePredicate
  | MirrorPredicateObj

text \<open>\<open>&T{...}\<close> allocates; a method call on a pointer changes the object it points to.\<close>

definition new_obj :: "'w component \<Rightarrow> ('w component list, ref) state" where
  "new_obj x = State (\<lambda>h. (Obj (length h), h @ [x]))"

fun change :: "('w component \<Rightarrow> 'w component) \<Rightarrow> ref \<Rightarrow> 'w component list \<Rightarrow> 'w component list" where
  "change f (Obj n) h = (if n < length h then h[n := f (h ! n)] else h)"
| "change f (Lib x) h = h"

definition call_obj :: "('w component \<Rightarrow> 'w component) \<Rightarrow> ref \<Rightarrow> ('w component list, unit) state" where
  "call_obj f r = State (\<lambda>h. ((), change f r h))"

fun OnSessionEnd_obj :: "closure \<Rightarrow> 'w component \<Rightarrow> 'w component" where
  "OnSessionEnd_obj cl (SessionManagerObj m l) = SessionManagerObj (OnSessionEnd cl m) l"
| "OnSessionEnd_obj cl x = x"

fun Clear_obj :: "'w component \<Rightarrow> 'w component" where
  "Clear_obj (NotFoundCacheObj c) = NotFoundCacheObj (Cache_Clear c)"
| "Clear_obj (PropertiesCacheObj c) = PropertiesCacheObj (PropertiesCache_Clear c)"
| "Clear_obj (MirrorCacheObj c) = MirrorCacheObj (MirrorCache_Clear c)"
| "Clear_obj x = x"

definition run_closure :: "closure \<Rightarrow> 'w component list \<Rightarrow> 'w component list" where
  "run_closure cl h = change Clear_obj (cl_mirrors cl) (change Clear_obj (cl_properties cl) (change Clear_obj (cl_notFound cl) h))"

section \<open>main\<close>

text \<open>What \<open>main\<close> keeps in local variables for the rest of the start.\<close>

record wiring =
  sourceReconciler :: ref
  mirrorReconciler :: ref
  namespaceReconciler :: ref
  certReconciler :: ref
  ingressReconciler :: ref
  clusterRuleReconciler :: ref
  notFoundCache_ref :: ref
  sessionManager_ref :: ref

definition main_wiring :: "Config \<Rightarrow> ('w component list, wiring) state" where
  "main_wiring cfg = do {
     lg \<leftarrow> new_obj LoggerObj;
     nonDeletingClient \<leftarrow> new_obj (NonDeletingClientObj (Lib ManagerClient));
     let recorder = Lib (EventRecorderFor ''replikator''); let scheme = Lib ManagerScheme;
     k8sAdapter \<leftarrow> new_obj (KubernetesAdapterObj (NewKubernetesAdapter nonDeletingClient recorder scheme));
     namespaceLister \<leftarrow> new_obj (NamespaceListerObj (NewNamespaceListerAdapter nonDeletingClient));
     mirrorStore \<leftarrow> new_obj (MirrorStoreObj NewInMemoryMirrorStore);
     eventDispatcher \<leftarrow> new_obj (DispatcherObj NewInMemoryDispatcher);
     reflectionSvc \<leftarrow> new_obj (ReflectionServiceObj (NewReflectionService eventDispatcher));
     nfCache \<leftarrow> new_obj (NotFoundCacheObj (NewNotFoundCache (WatcherTimeout cfg)));
     propsCache \<leftarrow> new_obj (PropertiesCacheObj (NewPropertiesCache (WatcherTimeout cfg)));
     mCache \<leftarrow> new_obj (MirrorCacheObj NewMirrorCache);
     sessions \<leftarrow> new_obj (SessionManagerObj (NewSessionManager (WatcherTimeout cfg)) lg);
     reflectUseCase \<leftarrow> new_obj (ReflectObj (NewReflectResourcesUseCase reflectionSvc k8sAdapter mirrorStore namespaceLister lg));
     deleteSourceUC \<leftarrow> new_obj (DeleteSourceObj (NewHandleSourceDeletionUseCase mirrorStore k8sAdapter (cfgDeleteOrphanedMirrors cfg)));
     createMirrorUC \<leftarrow> new_obj (CreateMirrorObj (NewCreateMirrorUseCase mirrorStore reflectionSvc));
     deleteMirrorUC \<leftarrow> new_obj (DeleteMirrorObj (NewDeleteMirrorUseCase mirrorStore k8sAdapter (cfgDeleteOrphanedMirrors cfg)));
     let watcherConfig = NewWatcherConfig cfg;
     source \<leftarrow> new_obj (SourceReconcilerObj (NewSourceReconciler nonDeletingClient recorder reflectUseCase deleteSourceUC
       reflectionSvc namespaceLister propsCache nfCache lg watcherConfig));
     mirror \<leftarrow> new_obj (MirrorReconcilerObj (NewMirrorReconciler nonDeletingClient recorder createMirrorUC deleteMirrorUC
       reflectUseCase reflectionSvc namespaceLister mirrorStore mCache lg));
     namespace \<leftarrow> new_obj (NamespaceReconcilerObj (NewNamespaceReconciler nonDeletingClient recorder reflectUseCase
       namespaceLister mCache mirrorStore lg sessions));
     cert \<leftarrow> new_obj (CertificateReconcilerObj (NewCertificateReconciler nonDeletingClient scheme recorder reflectUseCase lg));
     ingress \<leftarrow> new_obj (IngressReconcilerObj (NewIngressReconciler nonDeletingClient scheme recorder reflectUseCase lg));
     rule \<leftarrow> new_obj (RuleReconcilerObj (NewClusterReplicationRuleReconciler nonDeletingClient scheme recorder reflectUseCase
       deleteSourceUC namespaceLister propsCache nfCache lg));
     call_obj (OnSessionEnd_obj (ClearingClosure lg nfCache propsCache mCache)) sessions;
     return \<lparr>sourceReconciler = source, mirrorReconciler = mirror, namespaceReconciler = namespace, certReconciler = cert,
       ingressReconciler = ingress, clusterRuleReconciler = rule, notFoundCache_ref = nfCache, sessionManager_ref = sessions\<rparr> }"

section \<open>Who refers to what\<close>

fun refs :: "'w component \<Rightarrow> ref list" where
  "refs (NonDeletingClientObj c) = [c]"
| "refs (KubernetesAdapterObj a) = [ka_client a, ka_recorder a, ka_scheme a]"
| "refs (NamespaceListerObj a) = [nl_client a]"
| "refs (ReflectionServiceObj v) = [rs_eventDispatcher v]"
| "refs (SessionManagerObj m l) = l # concat (map (\<lambda>cl. [cl_log cl, cl_notFound cl, cl_properties cl, cl_mirrors cl]) (onSessionEnd m))"
| "refs (ReflectObj u) = [ru_reflectionService u, ru_sourceStore u, ru_mirrorRepo u, ru_namespaceLister u, ru_logger u]"
| "refs (DeleteSourceObj u) = [hu_mirrorRepo u, hu_sourceStore u]"
| "refs (CreateMirrorObj u) = [cu_mirrorRepo u, cu_reflectionService u]"
| "refs (DeleteMirrorObj u) = [du_mirrorRepo u, du_sourceStore u]"
| "refs (SourceReconcilerObj r) = [sr_client r, sr_recorder r, sr_reflectUseCase r, sr_deleteUseCase r, sr_reflectionSvc r,
     sr_namespaceLister r, sr_propertiesCache r, sr_notFoundCache r, sr_log r]"
| "refs (MirrorReconcilerObj r) = [mr_client r, mr_recorder r, mr_createMirrorUC r, mr_deleteMirrorUC r, mr_reflectUseCase r,
     mr_reflectionSvc r, mr_namespaceLister r, mr_mirrorStore r, mr_mirrorCache r, mr_log r]"
| "refs (NamespaceReconcilerObj r) = [nr_client r, nr_recorder r, nr_reflectUseCase r, nr_namespaceLister r, nr_mirrorCache r,
     nr_mirrorStore r, nr_log r, nr_sessionManager r]"
| "refs (CertificateReconcilerObj r) = [cr_client r, cr_scheme r, cr_recorder r, cr_reflectUseCase r, cr_log r]"
| "refs (IngressReconcilerObj r) = [ir_client r, ir_scheme r, ir_recorder r, ir_reflectUseCase r, ir_log r]"
| "refs (RuleReconcilerObj r) = [rr_client r, rr_scheme r, rr_recorder r, rr_reflectUseCase r, rr_deleteSourceUC r,
     rr_namespaceLister r, rr_propertiesCache r, rr_notFoundCache r, rr_log r]"
| "refs (SourcePredicateObj p) = [sp_notFoundCache p]"
| "refs _ = []"

lemma run_new [simp]: "run_state (new_obj x) h = (Obj (length h), h @ [x])"
  by (simp add: new_obj_def)

lemma run_call [simp]: "run_state (call_obj f r) h = ((), change f r h)"
  by (simp add: call_obj_def)

lemmas constructor_defs = NewKubernetesAdapter_def NewNamespaceListerAdapter_def NewReflectionService_def NewReflectResourcesUseCase_def
  NewHandleSourceDeletionUseCase_def NewCreateMirrorUseCase_def NewDeleteMirrorUseCase_def NewSourceReconciler_def
  NewMirrorReconciler_def NewNamespaceReconciler_def NewCertificateReconciler_def NewIngressReconciler_def
  NewClusterReplicationRuleReconciler_def NewSourcePredicate_def

text \<open>The fields of type \<open>client.Client\<close>, the flags that allow deletions, and the registered closures.\<close>

fun client_refs :: "'w component \<Rightarrow> ref list" where
  "client_refs (KubernetesAdapterObj a) = [ka_client a]"
| "client_refs (NamespaceListerObj a) = [nl_client a]"
| "client_refs (SourceReconcilerObj r) = [sr_client r]"
| "client_refs (MirrorReconcilerObj r) = [mr_client r]"
| "client_refs (NamespaceReconcilerObj r) = [nr_client r]"
| "client_refs (CertificateReconcilerObj r) = [cr_client r]"
| "client_refs (IngressReconcilerObj r) = [ir_client r]"
| "client_refs (RuleReconcilerObj r) = [rr_client r]"
| "client_refs _ = []"

fun delete_flags :: "'w component \<Rightarrow> bool list" where
  "delete_flags (DeleteSourceObj u) = [hu_deleteOrphaned u]"
| "delete_flags (DeleteMirrorObj u) = [du_deleteOrphaned u]"
| "delete_flags _ = []"

fun closures :: "'w component \<Rightarrow> closure list" where
  "closures (SessionManagerObj m l) = onSessionEnd m"
| "closures _ = []"

fun target_object :: "'w component list \<Rightarrow> ref \<Rightarrow> 'w component option" where
  "target_object h (Obj n) = (if n < length h then Some (h ! n) else None)"
| "target_object h (Lib x) = None"

text \<open>The objects whose contents the state \<open>'w sys\<close> holds, and a heap with the contents of a given state.\<close>

fun is_shared :: "'w component \<Rightarrow> bool" where
  "is_shared (MirrorStoreObj m) = True"
| "is_shared (DispatcherObj d) = True"
| "is_shared (NotFoundCacheObj c) = True"
| "is_shared (PropertiesCacheObj c) = True"
| "is_shared (MirrorCacheObj c) = True"
| "is_shared _ = False"

definition shared_objects :: "'w sys \<Rightarrow> 'w component list" where
  "shared_objects s = [MirrorStoreObj (mirrors s), DispatcherObj (dispatcher s), NotFoundCacheObj (notFoundCache s),
     PropertiesCacheObj (propertiesCache s), MirrorCacheObj (mirrorCache s)]"

fun put_state :: "'w sys \<Rightarrow> 'w component \<Rightarrow> 'w component" where
  "put_state s (MirrorStoreObj m) = MirrorStoreObj (mirrors s)"
| "put_state s (DispatcherObj d) = DispatcherObj (dispatcher s)"
| "put_state s (NotFoundCacheObj c) = NotFoundCacheObj (notFoundCache s)"
| "put_state s (PropertiesCacheObj c) = PropertiesCacheObj (propertiesCache s)"
| "put_state s (MirrorCacheObj c) = MirrorCacheObj (mirrorCache s)"
| "put_state s x = x"

lemmas wiring_defs = main_wiring_def NewInMemoryMirrorStore_def constructor_defs OnSessionEnd_def NewSessionManager_def Let_def

lemma wired_clients:
  fixes h :: "'w component list"
  assumes "run_state (main_wiring cfg) [] = (ws, h)"
  shows "filter (\<lambda>x. Lib ManagerClient \<in> set (refs x)) h = [NonDeletingClientObj (Lib ManagerClient)]"
    and "set (concat (map client_refs h)) = {Obj 1}" and "h ! 1 = NonDeletingClientObj (Lib ManagerClient)" and "length h = 21"
    and "concat (map delete_flags h) = [cfgDeleteOrphanedMirrors cfg, cfgDeleteOrphanedMirrors cfg]"
    and "filter is_shared h = shared_objects (allocated cfg w)"
    and "concat (map closures h) = [ClearingClosure (Obj 0) (Obj 7) (Obj 8) (Obj 9)]"
    and "run_closure (ClearingClosure (Obj 0) (Obj 7) (Obj 8) (Obj 9)) (map (put_state s) h) = map (put_state (run_hook ClearCaches s)) h"
  using assms by (auto simp: wiring_defs allocated_def shared_objects_def run_hook_def run_closure_def)

text \<open>C14. The object graph. No object but the \<open>NonDeletingClient\<close> refers to the client of the manager, and every
  field of type \<open>client.Client\<close> refers to that \<open>NonDeletingClient\<close>. There is one mirror store, one event dispatcher
  and one cache of each kind, with the contents of the initial state of the model; both use cases that delete
  get the configured flag. The closure run at the end of a session does to these objects what \<open>run_hook\<close> does to the
  state, whatever the state is.\<close>

theorem main_wiring_shares:
  fixes w :: 'w
  shows "case run_state (main_wiring cfg) [] of (ws, h) \<Rightarrow>
     filter (\<lambda>x. Lib ManagerClient \<in> set (refs x)) h = [NonDeletingClientObj (Lib ManagerClient)] \<and>
     (\<exists>r. target_object h r = Some (NonDeletingClientObj (Lib ManagerClient)) \<and> set (concat (map client_refs h)) = {r}) \<and>
     filter is_shared h = shared_objects (allocated cfg w) \<and>
     concat (map delete_flags h) = [cfgDeleteOrphanedMirrors cfg, cfgDeleteOrphanedMirrors cfg] \<and>
     (\<exists>cl. concat (map closures h) = [cl] \<and>
        (\<forall>s. run_closure cl (map (put_state s) h) = map (put_state (run_hook ClearCaches s)) h))"
proof -
  obtain ws and h :: "'w component list" where run: "run_state (main_wiring cfg) [] = (ws, h)"
    by fastforce
  have "target_object h (Obj 1) = Some (NonDeletingClientObj (Lib ManagerClient))"
    using wired_clients(3,4) [OF run] by simp
  with wired_clients [OF run] show ?thesis
    unfolding run prod.case by blast
qed

end
