(* ===== verification/Go_Flag.thy ===== *)
theory Go_Flag
  imports Main
begin

text \<open>
  Package \<open>flag\<close> of the Go library, as main.go (cmd/replikator) uses it: \<open>flag.Parse\<close> on the flag set
  of the command line, whose errors end the process. Flags that imported packages define on the
  same set are described by a parameter.
\<close>

section \<open>strconv.ParseBool\<close>

definition strconv_ParseBool :: "string \<Rightarrow> bool option" where
  "strconv_ParseBool s =
     (if s \<in> {''1'', ''t'', ''T'', ''true'', ''TRUE'', ''True''} then Some True
      else if s \<in> {''0'', ''f'', ''F'', ''false'', ''FALSE'', ''False''} then Some False
      else None)"

section \<open>The flags of the program\<close>

record flags =
  metricsAddr :: string
  probeAddr :: string
  enableLeaderElection :: bool
  configFile :: string

definition default_flags :: flags where
  "default_flags = \<lparr>metricsAddr = '':8080'', probeAddr = '':8081'', enableLeaderElection = False, configFile = ''''\<rparr>"

text \<open>Of a flag of another package it is known whether it is boolean and which values it accepts.\<close>

type_synonym other_flags = "string \<Rightarrow> (bool \<times> (string \<Rightarrow> bool)) option"

definition IsBoolFlag :: "other_flags \<Rightarrow> string \<Rightarrow> bool option" where
  "IsBoolFlag others name =
     (if name \<in> {''metrics-bind-address'', ''health-probe-bind-address'', ''config''} then Some False
      else if name = ''leader-elect'' then Some True
      else map_option fst (others name))"

definition set_flag :: "other_flags \<Rightarrow> string \<Rightarrow> string \<Rightarrow> flags \<Rightarrow> flags option" where
  "set_flag others name v f =
     (if name = ''metrics-bind-address'' then Some (f\<lparr>metricsAddr := v\<rparr>)
      else if name = ''health-probe-bind-address'' then Some (f\<lparr>probeAddr := v\<rparr>)
      else if name = ''config'' then Some (f\<lparr>configFile := v\<rparr>)
      else if name = ''leader-elect'' then map_option (\<lambda>b. f\<lparr>enableLeaderElection := b\<rparr>) (strconv_ParseBool v)
      else (case others name of None \<Rightarrow> None | Some (_, accepts) \<Rightarrow> if accepts v then Some f else None))"

section \<open>Parse\<close>

text \<open>An argument that begins a flag, without its dashes and split at the first equals sign after the first character.\<close>

datatype argument = NotAFlag | BadSyntax | Flag string "string option"

definition split_flag :: "string \<Rightarrow> argument" where
  "split_flag s =
     (if length s < 2 \<or> s ! 0 \<noteq> CHR ''-'' \<or> s = ''--'' then NotAFlag
      else let name = (if s ! 1 = CHR ''-'' then drop 2 s else drop 1 s); rest = dropWhile (\<lambda>c. c \<noteq> CHR ''='') (tl name)
           in if hd name = CHR ''-'' \<or> hd name = CHR ''='' then BadSyntax
              else Flag (hd name # takeWhile (\<lambda>c. c \<noteq> CHR ''='') (tl name)) (if rest = [] then None else Some (tl rest)))"

text \<open>The loop of \<open>Parse\<close>: \<open>Inl\<close> is the exit code of an invalid command line or of a request for help. A boolean
  flag takes no value from the next argument.\<close>

fun flag_Parse :: "other_flags \<Rightarrow> flags \<Rightarrow> string list \<Rightarrow> nat + flags" where
  "flag_Parse others f [] = Inr f"
| "flag_Parse others f (s # args) =
     (case split_flag s of
        NotAFlag \<Rightarrow> Inr f
      | BadSyntax \<Rightarrow> Inl 2
      | Flag name v \<Rightarrow>
          (case IsBoolFlag others name of
             None \<Rightarrow> Inl (if name = ''help'' \<or> name = ''h'' then 0 else 2)
           | Some True \<Rightarrow>
               (case set_flag others name (case v of None \<Rightarrow> ''true'' | Some x \<Rightarrow> x) f of
                  None \<Rightarrow> Inl 2
                | Some f' \<Rightarrow> flag_Parse others f' args)
           | Some False \<Rightarrow>
               (case v of
                  Some x \<Rightarrow> (case set_flag others name x f of None \<Rightarrow> Inl 2 | Some f' \<Rightarrow> flag_Parse others f' args)
                | None \<Rightarrow>
                    (case args of
                       [] \<Rightarrow> Inl 2
                     | x # args' \<Rightarrow> (case set_flag others name x f of None \<Rightarrow> Inl 2 | Some f' \<Rightarrow> flag_Parse others f' args')))))"

section \<open>Properties\<close>

text \<open>What the four flags write as one argument each is read back, whatever the values are.\<close>

theorem flags_roundtrip:
  "flag_Parse others f [''--metrics-bind-address='' @ metricsAddr g, ''--health-probe-bind-address='' @ probeAddr g,
     ''--leader-elect='' @ (if enableLeaderElection g then ''true'' else ''false''), ''--config='' @ configFile g] = Inr g"
proof -
  have "split_flag (''--metrics-bind-address='' @ v) = Flag ''metrics-bind-address'' (Some v)"
    "split_flag (''--health-probe-bind-address='' @ v) = Flag ''health-probe-bind-address'' (Some v)"
    "split_flag (''--leader-elect='' @ v) = Flag ''leader-elect'' (Some v)"
    "split_flag (''--config='' @ v) = Flag ''config'' (Some v)" for v
    by (simp_all add: split_flag_def Let_def)
  then show ?thesis
    by (simp add: IsBoolFlag_def set_flag_def strconv_ParseBool_def)
qed

text \<open>A value after a boolean flag is not its value: \<open>--leader-elect false\<close> turns leader election on, and
  all arguments from \<open>false\<close> on are ignored.\<close>

theorem leader_elect_value_ignored:
  "flag_Parse others f (''--leader-elect'' # ''false'' # args) = Inr (f\<lparr>enableLeaderElection := True\<rparr>)"
  by (simp add: split_flag_def Let_def IsBoolFlag_def set_flag_def strconv_ParseBool_def)

end
