(* ===== verification/Startup.thy ===== *)
theory Startup
  imports Wiring Go_Flag
begin

text \<open>
  The start of the program: \<open>init\<close>, \<open>main\<close> and \<open>setupReconcilers\<close> of cmd/replikator/main.go and the
  registration of the rule types (apis/replication/v1/groupversion_info.go). The calls of controller-runtime,
  client-go and cert-manager are parameters, each of which may fail.
\<close>

section \<open>The scheme\<close>

record group_version =
  gv_group :: string
  gv_version :: string

text \<open>A scheme knows types by group, version and kind.\<close>

type_synonym scheme = "(group_version \<times> string) list"

definition SchemeGroupVersion :: group_version where
  "SchemeGroupVersion = \<lparr>gv_group = ''replikator.cloudresty.io'', gv_version = ''v1''\<rparr>"

text \<open>\<open>metav1.AddToGroupVersion\<close> is a function on schemes.\<close>

definition addKnownTypes :: "(group_version \<Rightarrow> scheme \<Rightarrow> scheme) \<Rightarrow> scheme \<Rightarrow> scheme" where
  "addKnownTypes addMeta s =
     addMeta SchemeGroupVersion (s @ [(SchemeGroupVersion, ''ClusterReplicationRule''), (SchemeGroupVersion, ''ClusterReplicationRuleList'')])"

definition AddToScheme :: "(group_version \<Rightarrow> scheme \<Rightarrow> scheme) \<Rightarrow> scheme \<Rightarrow> scheme" where
  "AddToScheme addMeta s = addKnownTypes addMeta s"

definition GroupResource :: "string \<Rightarrow> string \<times> string" where
  "GroupResource resource = (gv_group SchemeGroupVersion, resource)"

section \<open>The libraries\<close>

record rest_config =
  rc_Insecure :: bool
  rc_CAData :: "string option"
  rc_CAFile :: string

datatype object_kind = SecretKind | ConfigMapKind | NamespaceKind | CertificateKind | IngressKind | RuleKind

record manager_options =
  opt_Scheme :: scheme
  opt_ByObject :: "object_kind list"
  opt_BindAddress :: string
  opt_HealthProbeBindAddress :: string
  opt_LeaderElection :: bool
  opt_LeaderElectionID :: string

record controller =
  ctl_For :: object_kind
  ctl_Named :: string
  ctl_EventFilter :: "ref option"
  ctl_MaxConcurrentReconciles :: nat
  ctl_Reconciler :: ref

text \<open>\<open>Complete\<close> gets the scheme and the controllers that are registered already.\<close>

record 'w library =
  other_flags_of :: other_flags
  clientgo_AddToScheme :: "scheme \<Rightarrow> scheme"
  certmanager_AddToScheme :: "scheme \<Rightarrow> scheme"
  networking_AddToScheme :: "scheme \<Rightarrow> scheme"
  AddToGroupVersion :: "group_version \<Rightarrow> scheme \<Rightarrow> scheme"
  BuildConfigFromFlags :: "string \<Rightarrow> string \<Rightarrow> go_error + rest_config"
  NewManager :: "rest_config \<Rightarrow> manager_options \<Rightarrow> go_error + 'w client"
  Complete :: "scheme \<Rightarrow> controller list \<Rightarrow> controller \<Rightarrow> go_error option"
  AddHealthzCheck :: "string \<Rightarrow> go_error option"
  AddReadyzCheck :: "string \<Rightarrow> go_error option"

section \<open>init\<close>

definition init_scheme :: "'w library \<Rightarrow> scheme" where
  "init_scheme lib =
     AddToScheme (AddToGroupVersion lib) (networking_AddToScheme lib (certmanager_AddToScheme lib (clientgo_AddToScheme lib [])))"

section \<open>setupReconcilers\<close>

text \<open>The controllers in the order of their registration.\<close>

definition controller_table :: "wiring \<Rightarrow> ref \<Rightarrow> ref \<Rightarrow> controller list" where
  "controller_table ws sourcePred mirrorPred =
     [\<lparr>ctl_For = SecretKind, ctl_Named = ''source-secret'', ctl_EventFilter = Some sourcePred,
       ctl_MaxConcurrentReconciles = 10, ctl_Reconciler = sourceReconciler ws\<rparr>,
      \<lparr>ctl_For = ConfigMapKind, ctl_Named = ''source-configmap'', ctl_EventFilter = Some sourcePred,
       ctl_MaxConcurrentReconciles = 10, ctl_Reconciler = sourceReconciler ws\<rparr>,
      \<lparr>ctl_For = SecretKind, ctl_Named = ''mirror-secret'', ctl_EventFilter = Some mirrorPred,
       ctl_MaxConcurrentReconciles = 10, ctl_Reconciler = mirrorReconciler ws\<rparr>,
      \<lparr>ctl_For = ConfigMapKind, ctl_Named = ''mirror-configmap'', ctl_EventFilter = Some mirrorPred,
       ctl_MaxConcurrentReconciles = 10, ctl_Reconciler = mirrorReconciler ws\<rparr>,
      \<lparr>ctl_For = NamespaceKind, ctl_Named = ''namespace-watcher'', ctl_EventFilter = None,
       ctl_MaxConcurrentReconciles = 1, ctl_Reconciler = namespaceReconciler ws\<rparr>,
      \<lparr>ctl_For = CertificateKind, ctl_Named = ''certificate-watcher'', ctl_EventFilter = None,
       ctl_MaxConcurrentReconciles = 5, ctl_Reconciler = certReconciler ws\<rparr>,
      \<lparr>ctl_For = IngressKind, ctl_Named = ''ingress-watcher'', ctl_EventFilter = None,
       ctl_MaxConcurrentReconciles = 5, ctl_Reconciler = ingressReconciler ws\<rparr>,
      \<lparr>ctl_For = RuleKind, ctl_Named = ''cluster-replication-rule'', ctl_EventFilter = None,
       ctl_MaxConcurrentReconciles = 5, ctl_Reconciler = clusterRuleReconciler ws\<rparr>]"

fun register :: "(controller list \<Rightarrow> controller \<Rightarrow> go_error option) \<Rightarrow> controller list \<Rightarrow> controller list
    \<Rightarrow> go_error option \<times> controller list" where
  "register build regs [] = (None, regs)"
| "register build regs (c # cs) =
     (case build regs c of Some err \<Rightarrow> (Some err, regs) | None \<Rightarrow> register build (regs @ [c]) cs)"

definition setupReconcilers :: "(controller list \<Rightarrow> controller \<Rightarrow> go_error option) \<Rightarrow> wiring
    \<Rightarrow> ('w component list, go_error option \<times> controller list) state" where
  "setupReconcilers build ws = do {
     sourcePred \<leftarrow> new_obj (SourcePredicateObj (NewSourcePredicate (notFoundCache_ref ws)));
     mirrorPred \<leftarrow> new_obj MirrorPredicateObj;
     return (register build [] (controller_table ws sourcePred mirrorPred)) }"

section \<open>main\<close>

definition skip_tls_verify :: "Config \<Rightarrow> rest_config \<Rightarrow> rest_config" where
  "skip_tls_verify cfg rest = (if cfgSkipTlsVerify cfg then rest\<lparr>rc_Insecure := True, rc_CAData := None\<rparr> else rest)"

definition options_of :: "scheme \<Rightarrow> flags \<Rightarrow> manager_options" where
  "options_of scheme f =
     \<lparr>opt_Scheme = scheme,
      opt_ByObject = [NamespaceKind, SecretKind, ConfigMapKind, CertificateKind, IngressKind, RuleKind],
      opt_BindAddress = metricsAddr f, opt_HealthProbeBindAddress = probeAddr f,
      opt_LeaderElection = enableLeaderElection f, opt_LeaderElectionID = ''replikator-lock''\<rparr>"

record 'w operator =
  options :: manager_options
  objects_of :: "'w component list"
  controllers :: "controller list"
  webhook_paths :: "string list"
  program_of :: "'w program"

text \<open>The second half of \<open>main\<close>, from the setup of the reconcilers to the start of the manager.\<close>

definition setup_and_start :: "'w library \<Rightarrow> Config \<Rightarrow> manager_options \<Rightarrow> 'w client \<Rightarrow> wiring \<Rightarrow> 'w component list \<Rightarrow> 'w
    \<Rightarrow> nat + 'w operator" where
  "setup_and_start lib cfg opts c ws h w = (
     let ((err, ctls), h') = run_state (setupReconcilers (Complete lib (opt_Scheme opts)) ws) h in
     case err of Some _ \<Rightarrow> Inl 1 | None \<Rightarrow>
     case AddHealthzCheck lib ''healthz'' of Some _ \<Rightarrow> Inl 1 | None \<Rightarrow>
     case AddReadyzCheck lib ''readyz'' of Some _ \<Rightarrow> Inl 1 | None \<Rightarrow>
     let (ok, s) = run_state (sessionManager_StartSession (NonDeletingClient c)) (allocated cfg w) in
     Inr \<lparr>options = opts, objects_of = h', controllers = ctls,
       webhook_paths = [''/validate-replikator-cloudresty-io-v1-clusterreplicationrule''],
       program_of = \<lparr>psys = s, queue = [], crashed = \<not> ok\<rparr>\<rparr>)"

text \<open>\<open>main\<close> up to the start of the manager: the exit code, or the running operator.\<close>

definition main :: "'w library \<Rightarrow> (string \<Rightarrow> string) \<Rightarrow> string list \<Rightarrow> 'w \<Rightarrow> nat + 'w operator" where
  "main lib getenv args w = (
     case flag_Parse (other_flags_of lib) default_flags args of Inl code \<Rightarrow> Inl code | Inr f \<Rightarrow>
     let cfg = Load getenv; opts = options_of (init_scheme lib) f in
     case BuildConfigFromFlags lib '''' '''' of Inl _ \<Rightarrow> Inl 1 | Inr rest \<Rightarrow>
     case NewManager lib (skip_tls_verify cfg rest) opts of Inl _ \<Rightarrow> Inl 1 | Inr c \<Rightarrow>
     let (ws, h) = run_state (main_wiring cfg) [] in setup_and_start lib cfg opts c ws h w)"

section \<open>Delivery through the registered controllers\<close>

text \<open>An event of an object goes to each controller for its kind; the controller's predicate, if it has one, decides
  whether the request of its reconciler is queued.\<close>

definition event_filter :: "'w component list \<Rightarrow> ref option \<Rightarrow> object_event \<Rightarrow> ('w sys, bool) state" where
  "event_filter h pred ev =
     (case pred of
        None \<Rightarrow> return True
      | Some r \<Rightarrow>
          (case target_object h r of
             Some (SourcePredicateObj _) \<Rightarrow> source_filter ev
           | Some MirrorPredicateObj \<Rightarrow> return (mirror_filter ev)
           | _ \<Rightarrow> return False))"

definition requests_for :: "'w component list \<Rightarrow> ref \<Rightarrow> string \<Rightarrow> string \<Rightarrow> request list" where
  "requests_for h r ns n =
     (case target_object h r of
        Some (SourceReconcilerObj _) \<Rightarrow> [SourceRequest ns n]
      | Some (MirrorReconcilerObj _) \<Rightarrow> [MirrorRequest ns n]
      | Some (NamespaceReconcilerObj _) \<Rightarrow> [NamespaceRequest n]
      | Some (CertificateReconcilerObj _) \<Rightarrow> [CertificateRequest ns n]
      | Some (IngressReconcilerObj _) \<Rightarrow> [IngressRequest ns n]
      | Some (RuleReconcilerObj _) \<Rightarrow> [RuleRequest n]
      | _ \<Rightarrow> [])"

fun deliver_to :: "'w component list \<Rightarrow> controller list \<Rightarrow> object_kind \<Rightarrow> object_event \<Rightarrow> ('w sys, request list) state" where
  "deliver_to h [] k ev = return []"
| "deliver_to h (c # cs) k ev =
     (if ctl_For c = k
      then do {
        ok \<leftarrow> event_filter h (ctl_EventFilter c) ev;
        rest \<leftarrow> deliver_to h cs k ev;
        return ((if ok then requests_for h (ctl_Reconciler c) (Namespace (event_object ev)) (Name (event_object ev)) else []) @ rest) }
      else deliver_to h cs k ev)"

section \<open>What the libraries promise\<close>

fun gvk :: "object_kind \<Rightarrow> group_version \<times> string" where
  "gvk SecretKind = (\<lparr>gv_group = '''', gv_version = ''v1''\<rparr>, ''Secret'')"
| "gvk ConfigMapKind = (\<lparr>gv_group = '''', gv_version = ''v1''\<rparr>, ''ConfigMap'')"
| "gvk NamespaceKind = (\<lparr>gv_group = '''', gv_version = ''v1''\<rparr>, ''Namespace'')"
| "gvk CertificateKind = (\<lparr>gv_group = ''cert-manager.io'', gv_version = ''v1''\<rparr>, ''Certificate'')"
| "gvk IngressKind = (\<lparr>gv_group = ''networking.k8s.io'', gv_version = ''v1''\<rparr>, ''Ingress'')"
| "gvk RuleKind = (SchemeGroupVersion, ''ClusterReplicationRule'')"

text \<open>The registration functions add their types to a scheme and remove none; a controller can be built when the
  scheme knows its type and no other controller has its name.\<close>

definition documented :: "'w library \<Rightarrow> bool" where
  "documented lib \<longleftrightarrow>
     (\<forall>s. set s \<union> gvk ` {SecretKind, ConfigMapKind, NamespaceKind, IngressKind} \<subseteq> set (clientgo_AddToScheme lib s)) \<and>
     (\<forall>s. set s \<union> {gvk CertificateKind} \<subseteq> set (certmanager_AddToScheme lib s)) \<and>
     (\<forall>s. set s \<union> {gvk IngressKind} \<subseteq> set (networking_AddToScheme lib s)) \<and>
     (\<forall>gv s. set s \<subseteq> set (AddToGroupVersion lib gv s)) \<and>
     (\<forall>s regs c. gvk (ctl_For c) \<in> set s \<longrightarrow> ctl_Named c \<notin> ctl_Named ` set regs \<longrightarrow> Complete lib s regs c = None)"

text \<open>client-go refuses a configuration that is insecure and names certificates to verify against.\<close>

definition refuses_insecure_ca :: "'w library \<Rightarrow> bool" where
  "refuses_insecure_ca lib \<longleftrightarrow>
     (\<forall>rest opts. rc_Insecure rest \<longrightarrow> rc_CAFile rest \<noteq> '''' \<or> rc_CAData rest \<noteq> None \<longrightarrow> (\<exists>err. NewManager lib rest opts = Inl err))"

lemma init_scheme_knows: "documented lib \<Longrightarrow> gvk k \<in> set (init_scheme lib)"
  unfolding documented_def init_scheme_def AddToScheme_def addKnownTypes_def
  by (cases k) (fastforce simp: subset_iff)+

lemma register_all:
  assumes "\<And>regs c. c \<in> set cs \<Longrightarrow> ctl_Named c \<notin> ctl_Named ` set regs \<Longrightarrow> build regs c = None"
    and "distinct (map ctl_Named (regs @ cs))"
  shows "register build regs cs = (None, regs @ cs)"
  using assms
proof (induction cs arbitrary: regs)
  case (Cons c cs)
  have "build regs c = None"
    using Cons.prems by (intro Cons.prems(1)) auto
  with Cons.IH [of "regs @ [c]"] Cons.prems show ?case
    by simp
qed simp

lemma register_None: "fst (register build regs cs) = None \<Longrightarrow> snd (register build regs cs) = regs @ cs"
  by (induction cs arbitrary: regs) (force split: option.splits)+

lemma main_running:
  assumes "main lib getenv args w = Inr op" and run: "run_state (main_wiring (Load getenv)) [] = (ws, h)"
  shows "objects_of op = h @ [SourcePredicateObj (NewSourcePredicate (notFoundCache_ref ws)), MirrorPredicateObj]"
    and "controllers op = controller_table ws (Obj (length h)) (Obj (Suc (length h)))"
  using assms(1)
  by (auto simp: main_def setup_and_start_def options_of_def run setupReconcilers_def Let_def case_prod_beta dest!: register_None split: sum.splits option.splits)

lemma main_client:
  assumes "main lib getenv args w = Inr op"
  obtains rest opts c where "NewManager lib rest opts = Inr c" and "program_reach (NonDeletingClient c) (Load getenv) (program_of op)"
    and "world (psys (program_of op)) = snd (clock c w)" and "mirrors (psys (program_of op)) = []"
proof -
  obtain ws h where run: "run_state (main_wiring (Load getenv)) ([] :: 'a component list) = (ws, h)"
    by fastforce
  obtain rest f c where c: "NewManager lib (skip_tls_verify (Load getenv) rest) (options_of (init_scheme lib) f) = Inr c"
    and op: "setup_and_start lib (Load getenv) (options_of (init_scheme lib) f) c ws h w = Inr op"
    using assms by (auto simp: main_def run Let_def split: sum.splits)
  obtain ok s where start: "run_state (sessionManager_StartSession (NonDeletingClient c)) (allocated (Load getenv) w) = (ok, s)"
    by fastforce
  then have "world s = snd (clock c w)" "mirrors s = []"
    by (auto simp: sessionManager_StartSession_def time_Now_def allocated_def NonDeletingClient_def split: option.splits)
  moreover have "program_of op = \<lparr>psys = s, queue = [], crashed = \<not> ok\<rparr>"
    using op start by (auto simp: setup_and_start_def Let_def case_prod_beta split: option.splits)
  ultimately show thesis
    using that [OF c] program_start [OF start] by simp
qed

lemma wired_reconcilers:
  assumes "run_state (main_wiring cfg) [] = (ws, h)"
  shows "\<exists>r. target_object (h @ hs) (sourceReconciler ws) = Some (SourceReconcilerObj r) \<and> sr_notFoundCache r = notFoundCache_ref ws"
    and "\<exists>r. target_object (h @ hs) (mirrorReconciler ws) = Some (MirrorReconcilerObj r)"
    and "\<exists>r. target_object (h @ hs) (namespaceReconciler ws) = Some (NamespaceReconcilerObj r)"
    and "\<exists>r. target_object (h @ hs) (certReconciler ws) = Some (CertificateReconcilerObj r)"
    and "\<exists>r. target_object (h @ hs) (ingressReconciler ws) = Some (IngressReconcilerObj r)"
    and "\<exists>r. target_object (h @ hs) (clusterRuleReconciler ws) = Some (RuleReconcilerObj r)"
  using assms by (auto simp: wiring_defs nth_append)

lemma table_distinct: "distinct (map ctl_Named (controller_table ws sp mp))"
  by (simp add: controller_table_def)

lemma target_appended [simp]:
  "target_object (h @ xs) (Obj (length h + k)) = (if k < length xs then Some (xs ! k) else None)"
  by (simp add: nth_append)

lemma main_up:
  fixes lib :: "'w library"
  assumes "documented lib" and "flag_Parse (other_flags_of lib) default_flags args = Inr f"
    and "BuildConfigFromFlags lib '''' '''' = Inr rest"
    and "NewManager lib (skip_tls_verify (Load getenv) rest) (options_of (init_scheme lib) f) = Inr c"
    and "AddHealthzCheck lib ''healthz'' = None" and "AddReadyzCheck lib ''readyz'' = None"
  obtains ws h ok s where "run_state (sessionManager_StartSession (NonDeletingClient c)) (allocated (Load getenv) w) = (ok, s)"
    and "main lib getenv args w = Inr \<lparr>options = options_of (init_scheme lib) f, objects_of = h,
      controllers = controller_table ws (Obj 21) (Obj 22),
      webhook_paths = [''/validate-replikator-cloudresty-io-v1-clusterreplicationrule''],
      program_of = \<lparr>psys = s, queue = [], crashed = \<not> ok\<rparr>\<rparr>"
proof -
  obtain ws h where run: "run_state (main_wiring (Load getenv)) ([] :: 'w component list) = (ws, h)"
    by fastforce
  let ?table = "controller_table ws (Obj 21) (Obj 22)"
  have reg: "register (Complete lib (init_scheme lib)) [] ?table = (None, ?table)"
    using register_all [of ?table "Complete lib (init_scheme lib)" "[]"] table_distinct assms(1) init_scheme_knows [OF assms(1)]
    by (simp add: documented_def)
  obtain ok s where start: "run_state (sessionManager_StartSession (NonDeletingClient c)) (allocated (Load getenv) w) = (ok, s)"
    by fastforce
  show thesis
    using assms(2-) start reg run wired_clients(4) [OF run] by (intro that [OF start]) (simp add: main_def setup_and_start_def setupReconcilers_def options_of_def)
qed

section \<open>Properties\<close>

text \<open>C15. The start. When the libraries answer as documented, the command line is valid, and a cluster configuration, a
  manager and its two health checks can be made, then \<open>main\<close> comes up: all eight controllers are registered, with
  different names and the configured numbers of workers, the watch session runs, and the program is in an initial
  state of its runs, with the client that does not delete.\<close>

theorem main_starts:
  assumes "documented lib" and "flag_Parse (other_flags_of lib) default_flags args = Inr f"
    and "BuildConfigFromFlags lib '''' '''' = Inr rest"
    and "NewManager lib (skip_tls_verify (Load getenv) rest) (options_of (init_scheme lib) f) = Inr c"
    and "AddHealthzCheck lib ''healthz'' = None" and "AddReadyzCheck lib ''readyz'' = None"
  shows "\<exists>op. main lib getenv args w = Inr op \<and> opt_LeaderElection (options op) = enableLeaderElection f \<and>
     map (\<lambda>ctl. (ctl_Named ctl, ctl_For ctl, ctl_MaxConcurrentReconciles ctl)) (controllers op) =
       [(''source-secret'', SecretKind, 10), (''source-configmap'', ConfigMapKind, 10), (''mirror-secret'', SecretKind, 10),
        (''mirror-configmap'', ConfigMapKind, 10), (''namespace-watcher'', NamespaceKind, 1),
        (''certificate-watcher'', CertificateKind, 5), (''ingress-watcher'', IngressKind, 5),
        (''cluster-replication-rule'', RuleKind, 5)] \<and>
     program_reach (NonDeletingClient c) (Load getenv) (program_of op) \<and> \<not> crashed (program_of op) \<and>
     (\<exists>ses. session (sessionManager (psys (program_of op))) = Some ses \<and> running ses)"
proof -
  obtain ws h ok s where start: "run_state (sessionManager_StartSession (NonDeletingClient c)) (allocated (Load getenv) w) = (ok, s)"
    and main: "main lib getenv args w = Inr \<lparr>options = options_of (init_scheme lib) f, objects_of = h,
      controllers = controller_table ws (Obj 21) (Obj 22),
      webhook_paths = [''/validate-replikator-cloudresty-io-v1-clusterreplicationrule''],
      program_of = \<lparr>psys = s, queue = [], crashed = \<not> ok\<rparr>\<rparr>"
    by (rule main_up [OF assms, of w])
  note runs = start_runs [OF allocated_wf start]
  have "\<exists>ses. session (sessionManager s) = Some ses \<and> running ses"
    using start runs(1)
    by (auto simp: sessionManager_StartSession_def time_Now_def StartSession_def allocated_def session_defs Let_def
        split: option.splits if_splits)
  moreover have "program_reach (NonDeletingClient c) (Load getenv) \<lparr>psys = s, queue = [], crashed = \<not> ok\<rparr>"
    using start by (rule program_start)
  ultimately show ?thesis
    using main runs(1) by (simp add: options_of_def controller_table_def)
qed

lemma started_delivers:
  assumes "main lib getenv args w = Inr op"
  shows "run_state (deliver_to (objects_of op) (controllers op) k ev) s =
      (let ns = Namespace (event_object ev); n = Name (event_object ev) in
       case k of SecretKind \<Rightarrow> run_state (deliver ev) s | ConfigMapKind \<Rightarrow> run_state (deliver ev) s
       | NamespaceKind \<Rightarrow> ([NamespaceRequest n], s) | CertificateKind \<Rightarrow> ([CertificateRequest ns n], s)
       | IngressKind \<Rightarrow> ([IngressRequest ns n], s) | RuleKind \<Rightarrow> ([RuleRequest n], s))"
proof -
  obtain ws h where run: "run_state (main_wiring (Load getenv)) ([] :: 'a component list) = (ws, h)"
    by fastforce
  note op = main_running [OF assms run]
  note recs = wired_reconcilers [OF run, of "[SourcePredicateObj (NewSourcePredicate (notFoundCache_ref ws)), MirrorPredicateObj]"]
  note delivery = op controller_table_def event_filter_def requests_for_def deliver_def case_prod_beta Let_def nth_append
  show ?thesis
    using recs by (cases k) (auto simp: delivery)
qed

text \<open>C16. The events. In an operator that \<open>main\<close> has started, an event of a Secret or a ConfigMap reaches the source
  and the mirror reconciler through their predicates, exactly as \<open>deliver\<close> says, and an event of another kind always
  queues the request of its reconciler. The source predicate clears marks in the cache the source reconciler reads.\<close>

theorem events_reach_reconcilers:
  assumes "main lib getenv args w = Inr op"
  shows "run_state (deliver_to (objects_of op) (controllers op) k ev) s =
      (let ns = Namespace (event_object ev); n = Name (event_object ev) in
       case k of SecretKind \<Rightarrow> run_state (deliver ev) s | ConfigMapKind \<Rightarrow> run_state (deliver ev) s
       | NamespaceKind \<Rightarrow> ([NamespaceRequest n], s) | CertificateKind \<Rightarrow> ([CertificateRequest ns n], s)
       | IngressKind \<Rightarrow> ([IngressRequest ns n], s) | RuleKind \<Rightarrow> ([RuleRequest n], s)) \<and>
     [sp_notFoundCache p. SourcePredicateObj p \<leftarrow> objects_of op] = [sr_notFoundCache r. SourceReconcilerObj r \<leftarrow> objects_of op]"
proof -
  obtain ws h where run: "run_state (main_wiring (Load getenv)) ([] :: 'a component list) = (ws, h)"
    by fastforce
  have "[sp_notFoundCache p. SourcePredicateObj p \<leftarrow> objects_of op] = [sr_notFoundCache r. SourceReconcilerObj r \<leftarrow> objects_of op]"
    using run unfolding main_running [OF assms run] by (auto simp: wiring_defs)
  with started_delivers [OF assms] show ?thesis
    by blast
qed

text \<open>C34. Skipping the verification of certificates. Where the cluster configuration names a file of certificates, as the
  configuration inside a cluster does, the operator does not start with \<open>KUBERNETES_SKIP_TLS_VERIFY=true\<close>: \<open>main\<close> clears the
  certificates in memory but not the name of the file, and client-go refuses the combination.\<close>

theorem skip_tls_verify_exits:
  assumes "refuses_insecure_ca lib" and "flag_Parse (other_flags_of lib) default_flags args = Inr f"
    and "BuildConfigFromFlags lib '''' '''' = Inr rest" and "rc_CAFile rest \<noteq> ''''"
    and "getenv ''KUBERNETES_SKIP_TLS_VERIFY'' = ''true''"
  shows "main lib getenv args w = Inl 1"
proof -
  let ?rest = "skip_tls_verify (Load getenv) rest"
  have "rc_Insecure ?rest" "rc_CAFile ?rest \<noteq> ''''"
    using assms(4,5) by (simp_all add: skip_tls_verify_def Load_def Let_def)
  with assms(1) obtain err where "NewManager lib ?rest (options_of (init_scheme lib) f) = Inl err"
    unfolding refuses_insecure_ca_def by blast
  with assms(2,3) show ?thesis
    by (simp add: main_def)
qed

section \<open>An example\<close>

definition core_library :: "cluster library" where
  "core_library =
     \<lparr>other_flags_of = (\<lambda>name. if name = ''kubeconfig'' then Some (False, \<lambda>_. True) else None),
      clientgo_AddToScheme = (\<lambda>s. s @ map gvk [SecretKind, ConfigMapKind, NamespaceKind, IngressKind]),
      certmanager_AddToScheme = (\<lambda>s. s @ [gvk CertificateKind]),
      networking_AddToScheme = (\<lambda>s. s @ [gvk IngressKind]),
      AddToGroupVersion = (\<lambda>gv s. s @ [(gv, ''ListOptions'')]),
      BuildConfigFromFlags = (\<lambda>_ _. Inr \<lparr>rc_Insecure = False, rc_CAData = None, rc_CAFile = ''/ca.crt''\<rparr>),
      NewManager = (\<lambda>rest _. if rc_Insecure rest \<and> (rc_CAFile rest \<noteq> '''' \<or> rc_CAData rest \<noteq> None)
        then Inl (ErrorText ''specifying a root certificates file with the insecure flag is not allowed'') else Inr cluster_client),
      Complete = (\<lambda>s regs c. if gvk (ctl_For c) \<notin> set s then Some (ErrorText ''no kind is registered'')
        else if ctl_Named c \<in> ctl_Named ` set regs then Some (ErrorText ''controller names must be unique'') else None),
      AddHealthzCheck = (\<lambda>_. None), AddReadyzCheck = (\<lambda>_. None)\<rparr>"

lemma core_library_documented: "documented core_library" "refuses_insecure_ca core_library"
  by (auto simp: documented_def refuses_insecure_ca_def core_library_def)

lemma core_library_sel [simp]:
  "BuildConfigFromFlags core_library a b = Inr \<lparr>rc_Insecure = False, rc_CAData = None, rc_CAFile = ''/ca.crt''\<rparr>"
  "NewManager core_library (skip_tls_verify (Load (\<lambda>_. '''')) \<lparr>rc_Insecure = False, rc_CAData = None, rc_CAFile = ''/ca.crt''\<rparr>) opts = Inr cluster_client"
  "AddHealthzCheck core_library x = None" "AddReadyzCheck core_library x = None"
  "flag_Parse (other_flags_of core_library) default_flags [''--leader-elect''] = Inr (default_flags\<lparr>enableLeaderElection := True\<rparr>)"
  by (simp_all add: core_library_def skip_tls_verify_def Load_def Let_def IsBoolFlag_def set_flag_def strconv_ParseBool_def split_flag_def)

theorem main_starts_witness:
  "\<exists>op. main core_library (\<lambda>_. '''') [''--leader-elect''] empty_cluster = Inr op \<and> opt_LeaderElection (options op) \<and>
     length (controllers op) = 8 \<and> \<not> crashed (program_of op)"
proof -
  obtain op where op: "main core_library (\<lambda>_. '''') [''--leader-elect''] empty_cluster = Inr op" "opt_LeaderElection (options op)"
    and ctls: "length (map (\<lambda>ctl. (ctl_Named ctl, ctl_For ctl, ctl_MaxConcurrentReconciles ctl)) (controllers op)) = 8"
    and "\<not> crashed (program_of op)"
    using main_starts [OF core_library_documented(1) core_library_sel(5,1,2), of empty_cluster] by auto
  then show ?thesis
    by (intro exI [of _ op]) simp
qed

theorem events_reach_reconcilers_witness:
  "\<exists>op. main core_library (\<lambda>_. '''') [''--leader-elect''] empty_cluster = Inr op \<and>
     (\<forall>s. run_state (deliver_to (objects_of op) (controllers op) RuleKind (Created (empty_object\<lparr>Name := ''r''\<rparr>))) s = ([RuleRequest ''r''], s))"
proof -
  obtain op where op: "main core_library (\<lambda>_. '''') [''--leader-elect''] empty_cluster = Inr op"
    by (rule main_up [OF core_library_documented(1) core_library_sel(5,1,2), of empty_cluster]) simp_all
  from events_reach_reconcilers [OF op, of RuleKind "Created (empty_object\<lparr>Name := ''r''\<rparr>)"] op show ?thesis
    by (intro exI [of _ op]) (simp add: Let_def)
qed

theorem skip_tls_verify_exits_witness:
  "main core_library (\<lambda>v. if v = ''KUBERNETES_SKIP_TLS_VERIFY'' then ''true'' else '''') [''--leader-elect''] empty_cluster = Inl 1"
  by (rule skip_tls_verify_exits [OF core_library_documented(2) core_library_sel(5,1)]) simp_all

end
