(* ===== verification/Webhook.thy ===== *)
theory Webhook
  imports Cluster_Rule
begin

text \<open>
  Package \<open>webhooks\<close> (internal/webhooks/clusterreplicationrule_validator.go): the admission webhook for
  ClusterReplicationRules. Decoding the JSON of a request into a rule runs code of the Kubernetes
  libraries, so it is a parameter.
\<close>

section \<open>Error texts\<close>

text \<open>\<open>syntax.ErrorCode\<close> and \<open>(*syntax.Error).Error()\<close>. An expression that is not valid UTF-8 is
  shown with replacement characters here, with its bytes in Go.\<close>

definition re_code_text :: "re_code \<Rightarrow> string" where
  "re_code_text code =
     (case code of
        ErrInternalError \<Rightarrow> ''regexp/syntax: internal error''
      | ErrInvalidCharRange \<Rightarrow> ''invalid character class range''
      | ErrInvalidEscape \<Rightarrow> ''invalid escape sequence''
      | ErrInvalidNamedCapture \<Rightarrow> ''invalid named capture''
      | ErrInvalidPerlOp \<Rightarrow> ''invalid or unsupported Perl syntax''
      | ErrInvalidRepeatOp \<Rightarrow> ''invalid nested repetition operator''
      | ErrInvalidRepeatSize \<Rightarrow> ''invalid repeat count''
      | ErrInvalidUTF8 \<Rightarrow> ''invalid UTF-8''
      | ErrMissingBracket \<Rightarrow> ''missing closing ]''
      | ErrMissingParen \<Rightarrow> ''missing closing )''
      | ErrMissingRepeatArgument \<Rightarrow> ''missing argument to repetition operator''
      | ErrTrailingBackslash \<Rightarrow> ''trailing backslash at end of expression''
      | ErrUnexpectedParen \<Rightarrow> ''unexpected )''
      | NotModelled \<Rightarrow> '''')"

definition syntax_error_text :: "re_error \<Rightarrow> string" where
  "syntax_error_text e =
     ''error parsing regexp: '' @ re_code_text (fst e) @ '': `'' @ concat (map encode_rune (snd e)) @ ''`''"

section \<open>Validation\<close>

definition validateSelector :: "string \<Rightarrow> string option" where
  "validateSelector selector =
     (if selector = '''' then Some ''selector cannot be empty''
      else
        let s1 = (if \<not> strings_HasPrefix selector ''^'' \<and> \<not> strings_HasPrefix selector ''.*'' then ''^'' @ selector else selector);
            s2 = (if \<not> strings_HasSuffix selector ''$'' \<and> \<not> strings_HasSuffix selector ''.*'' then s1 @ ''$'' else s1)
        in (case regexp_Compile s2 of Inl err \<Rightarrow> Some (syntax_error_text err) | Inr _ \<Rightarrow> None))"

definition validateNamespacePattern :: "string \<Rightarrow> string option" where
  "validateNamespacePattern pattern = (if pattern = '''' then None else validateSelector pattern)"

definition validateResourceType :: "string \<Rightarrow> string option" where
  "validateResourceType resourceType =
     (if resourceType \<in> set [''Secret'', ''ConfigMap'', ''Certificate'', ''Ingress''] then None
      else Some (''unsupported resource type: '' @ resourceType @ '' (must be Secret, ConfigMap, Certificate, or Ingress)''))"

fun join_from :: "nat \<Rightarrow> string \<Rightarrow> string list \<Rightarrow> string" where
  "join_from i result [] = result"
| "join_from i result (e # errs) = join_from (i + 1) ((if i > 0 then result @ ''; '' else result) @ e) errs"

definition joinErrors :: "string list \<Rightarrow> string" where
  "joinErrors errors = join_from 0 '''' errors"

definition error_list :: "string option \<Rightarrow> string list" where
  "error_list err = (case err of None \<Rightarrow> [] | Some e \<Rightarrow> [e])"

definition validationErrors :: "ClusterReplicationRule \<Rightarrow> string list" where
  "validationErrors crr =
     (let spec = ruleSpec crr in
      (if specSourceNamespace spec = '''' then [''spec.sourceNamespace is required''] else []) @
      (if specSourceSelector spec = '''' then [''spec.sourceSelector is required'']
       else error_list (validateSelector (specSourceSelector spec))) @
      (if tnSelector (specTargetNamespaces spec) \<noteq> ''''
       then error_list (validateNamespacePattern (tnSelector (specTargetNamespaces spec))) else []) @
      concat (map (\<lambda>rt. error_list (validateResourceType rt)) (slice (specResourceTypes spec))))"

definition validateClusterReplicationRule :: "ClusterReplicationRule \<Rightarrow> string option" where
  "validateClusterReplicationRule crr =
     (if length (validationErrors crr) > 0 then Some (''validation failed: '' @ joinErrors (validationErrors crr)) else None)"

section \<open>The webhook\<close>

text \<open>An object handed to the validator: a rule, or another type, by its name as \<open>%T\<close> prints it.\<close>

datatype runtime_object = RuleObject ClusterReplicationRule | OtherObject string

definition ValidateCreate :: "runtime_object \<Rightarrow> string option" where
  "ValidateCreate obj =
     (case obj of
        OtherObject t \<Rightarrow> Some (''expected ClusterReplicationRule but got '' @ t)
      | RuleObject crr \<Rightarrow> validateClusterReplicationRule crr)"

definition ValidateUpdate :: "runtime_object \<Rightarrow> runtime_object \<Rightarrow> string option" where
  "ValidateUpdate oldObj newObj =
     (case newObj of
        OtherObject t \<Rightarrow> Some (''expected ClusterReplicationRule but got '' @ t)
      | RuleObject crr \<Rightarrow> validateClusterReplicationRule crr)"

definition ValidateDelete :: "runtime_object \<Rightarrow> string option" where
  "ValidateDelete obj = None"

datatype admission_response = Errored int go_error | Denied string | Allowed string

definition Handle :: "(string \<Rightarrow> go_error + ClusterReplicationRule) \<Rightarrow> string \<Rightarrow> string \<Rightarrow> admission_response" where
  "Handle unmarshal operation raw =
     (if operation = ''CREATE'' \<or> operation = ''UPDATE'' then
        (case unmarshal raw of
           Inl err \<Rightarrow> Errored 400 err
         | Inr obj \<Rightarrow>
             (case validateClusterReplicationRule obj of
                Some err \<Rightarrow> Denied err
              | None \<Rightarrow> Allowed ''validation passed''))
      else if operation = ''DELETE'' then Allowed ''deletion allowed''
      else Allowed ''operation not requiring validation'')"

section \<open>Lemmas\<close>

lemma validateSelector_compile: "validateSelector s = None \<longleftrightarrow> \<not> isl (compileSelector s)"
  by (auto simp: validateSelector_def compileSelector_def selector_regex_def Let_def split: sum.splits)

lemma join_from_Suc: "join_from (Suc i) result errs = result @ concat (map (\<lambda>e. ''; '' @ e) errs)"
  by (induction errs arbitrary: i result) simp_all

text \<open>Joining is \<open>strings.Join\<close>.\<close>

lemma joinErrors_Join: "joinErrors errs = strings_Join errs ''; ''"
proof (cases errs)
  case (Cons e rest)
  have "strings_Join (e # rest) ''; '' = e @ concat (map (\<lambda>e. ''; '' @ e) rest)"
    by (induction rest arbitrary: e) simp_all
  with Cons show ?thesis
    by (simp add: joinErrors_def join_from_Suc)
qed (simp add: joinErrors_def)

lemma admitted_iff:
  "validateClusterReplicationRule crr = None \<longleftrightarrow> specSourceNamespace (ruleSpec crr) \<noteq> '''' \<and>
     \<not> isl (compileSelector (specSourceSelector (ruleSpec crr))) \<and>
     (tnSelector (specTargetNamespaces (ruleSpec crr)) \<noteq> '''' \<longrightarrow> \<not> isl (compileSelector (tnSelector (specTargetNamespaces (ruleSpec crr))))) \<and>
     (\<forall>rt \<in> set (slice (specResourceTypes (ruleSpec crr))). rt \<in> {''Secret'', ''ConfigMap'', ''Certificate'', ''Ingress''})"
proof -
  have err: "error_list e = [] \<longleftrightarrow> e = None" for e
    by (simp add: error_list_def split: option.split)
  have "specSourceSelector (ruleSpec crr) = '''' \<Longrightarrow> isl (compileSelector (specSourceSelector (ruleSpec crr)))"
    by (simp add: compileSelector_def)
  then show ?thesis
    by (auto simp: validateClusterReplicationRule_def validationErrors_def validateNamespacePattern_def err validateSelector_compile
        validateResourceType_def Let_def)
qed

text \<open>Two of the admitted resource types do nothing: the reconciler answers \<open>Certificate\<close> and
  \<open>Ingress\<close> with an empty list, and reads only the clock.\<close>

lemma admitted_types_ignored:
  assumes "rt \<in> {''Certificate'', ''Ingress''}"
  shows "validateResourceType rt = None \<and>
     (\<exists>w. run_state (processResourceTypeWithStats c rule rt selector targets) s = (Inr ([], 0), s\<lparr>world := w\<rparr>) \<and>
          w = snd (clock c (snd (clock c (world s)))))"
  using assms by (auto simp: validateResourceType_def processResourceTypeWithStats_def time_Now_def Let_def)

section \<open>Properties\<close>


end
