(* ===== verification/Federation.thy ===== *)
theory Federation
  imports Controllers Replication
begin

text \<open>
  Package \<open>federation\<close> (internal/federation): the manager of remote clusters and the service that copies
  objects to them. main.go does not construct them yet; they keep their own state, a record here. The
  clients of remote clusters, the file system and the construction of clients from a kubeconfig are
  arbitrary functions on a world, as in \<open>K8s_Client\<close>.
\<close>

section \<open>The outside\<close>

text \<open>\<open>kubernetes.Interface\<close>, at the calls the service makes.\<close>

record 'w clientset =
  cs_get_secret :: "string \<Rightarrow> string \<Rightarrow> ('w, Secret) call"
  cs_update_secret :: "string \<Rightarrow> Secret \<Rightarrow> 'w command"
  cs_create_secret :: "string \<Rightarrow> Secret \<Rightarrow> 'w command"
  cs_delete_secret :: "string \<Rightarrow> string \<Rightarrow> 'w command"
  cs_get_configmap :: "string \<Rightarrow> string \<Rightarrow> ('w, ConfigMap) call"
  cs_update_configmap :: "string \<Rightarrow> ConfigMap \<Rightarrow> 'w command"
  cs_create_configmap :: "string \<Rightarrow> ConfigMap \<Rightarrow> 'w command"
  cs_delete_configmap :: "string \<Rightarrow> string \<Rightarrow> 'w command"

record ('w, 'c) host =
  os_CreateTemp :: "('w, string) call"
  file_Write :: "string \<Rightarrow> string \<Rightarrow> 'w command"
  file_Close :: "string \<Rightarrow> 'w command"
  os_Remove :: "string \<Rightarrow> 'w command"
  BuildConfigFromFlags :: "string \<Rightarrow> ('w, 'c) call"
  NewForConfig :: "'c \<Rightarrow> ('w, 'w clientset) call"
  host_clock :: "'w \<Rightarrow> gotime \<times> 'w"
  name_order :: "'w \<Rightarrow> (string \<Rightarrow> nat) \<times> 'w"

section \<open>RemoteClusterManager\<close>

record 'w ClusterConfig =
  ccClient :: "'w clientset option"
  ccKubeconfig :: string
  ccLastSyncTime :: int

record 'w federation =
  fed_world :: 'w
  clusters :: "(string \<times> 'w ClusterConfig) list"
  fed_metrics :: "metric_op list"

definition outside :: "('w \<Rightarrow> 'a \<times> 'w) \<Rightarrow> ('w federation, 'a) state" where
  "outside call = State (\<lambda>s. let (r, w) = call (fed_world s) in (r, s\<lparr>fed_world := w\<rparr>))"

definition fed_get :: "('w federation \<Rightarrow> 'a) \<Rightarrow> ('w federation, 'a) state" where
  "fed_get f = State (\<lambda>s. (f s, s))"

definition fed_modify :: "('w federation \<Rightarrow> 'w federation) \<Rightarrow> ('w federation, unit) state" where
  "fed_modify f = State (\<lambda>s. ((), f s))"

definition NewRemoteClusterManager :: "'w \<Rightarrow> 'w federation" where
  "NewRemoteClusterManager w = \<lparr>fed_world = w, clusters = [], fed_metrics = []\<rparr>"

definition writeTempKubeconfig :: "('w, 'c) host \<Rightarrow> string \<Rightarrow> ('w federation, go_error + string) state" where
  "writeTempKubeconfig h kubeconfig = do {
     r \<leftarrow> outside (os_CreateTemp h);
     case r of
       Inl err \<Rightarrow> return (Inl (Wrapped ''failed to create temp file'' err))
     | Inr path \<Rightarrow> do {
         err \<leftarrow> outside (file_Write h path kubeconfig);
         case err of
           Some e \<Rightarrow> do {
             _ \<leftarrow> outside (file_Close h path);
             _ \<leftarrow> outside (os_Remove h path);
             return (Inl (Wrapped ''failed to write kubeconfig'' e)) }
         | None \<Rightarrow> do {
             err2 \<leftarrow> outside (file_Close h path);
             case err2 of
               Some e \<Rightarrow> do {
                 _ \<leftarrow> outside (os_Remove h path);
                 return (Inl (Wrapped ''failed to close temp file'' e)) }
             | None \<Rightarrow> return (Inr path) } } }"

text \<open>The deferred removal of the file runs on every return after it was written.\<close>

definition AddCluster :: "('w, 'c) host \<Rightarrow> string \<Rightarrow> string \<Rightarrow> ('w federation, go_error option) state" where
  "AddCluster h name kubeconfig = do {
     r \<leftarrow> writeTempKubeconfig h kubeconfig;
     case r of
       Inl err \<Rightarrow> return (Some (Wrapped ''failed to write temp kubeconfig'' err))
     | Inr tmpPath \<Rightarrow> do {
         result \<leftarrow> (do {
           rc \<leftarrow> outside (BuildConfigFromFlags h tmpPath);
           case rc of
             Inl err \<Rightarrow> return (Some (Wrapped ''failed to build config'' err))
           | Inr cfg \<Rightarrow> do {
               rl \<leftarrow> outside (NewForConfig h cfg);
               case rl of
                 Inl err \<Rightarrow> return (Some (Wrapped ''failed to create client'' err))
               | Inr cl \<Rightarrow> do {
                   fed_modify (\<lambda>s. s\<lparr>clusters := AList.update name
                     \<lparr>ccClient = Some cl, ccKubeconfig = kubeconfig, ccLastSyncTime = 0\<rparr> (clusters s)\<rparr>);
                   return None } } });
         _ \<leftarrow> outside (os_Remove h tmpPath);
         return result } }"

text \<open>The client of a registered cluster; the outer \<open>None\<close> is \<open>ok = false\<close>, the inner one a nil client.\<close>

definition GetClient :: "string \<Rightarrow> ('w federation, 'w clientset option option) state" where
  "GetClient name = fed_get (\<lambda>s. map_option ccClient (map_of (clusters s) name))"

definition RemoveCluster :: "string \<Rightarrow> ('w federation, unit) state" where
  "RemoveCluster name = fed_modify (\<lambda>s. s\<lparr>clusters := AList.delete name (clusters s)\<rparr>)"

definition HealthCheck :: "('w federation, string \<rightharpoonup> bool) state" where
  "HealthCheck = fed_get (\<lambda>s. map_of (map (\<lambda>(name, cfg). (name, ccClient cfg \<noteq> None)) (clusters s)))"

definition UpdateLastSync :: "('w, 'c) host \<Rightarrow> string \<Rightarrow> ('w federation, unit) state" where
  "UpdateLastSync h name = do {
     found \<leftarrow> fed_get (\<lambda>s. map_of (clusters s) name);
     case found of
       None \<Rightarrow> return ()
     | Some cfg \<Rightarrow> do {
         now \<leftarrow> outside (host_clock h);
         fed_modify (\<lambda>s. s\<lparr>clusters := AList.update name (cfg\<lparr>ccLastSyncTime := now div 1000000000\<rparr>) (clusters s)\<rparr>) } }"

definition ListClusters :: "('w, 'c) host \<Rightarrow> ('w federation, string list) state" where
  "ListClusters h = do {
     rank \<leftarrow> outside (name_order h);
     fed_get (\<lambda>s. map fst (go_range rank (clusters s))) }"

section \<open>CrossClusterSyncService\<close>

definition not_available :: "string \<Rightarrow> go_error" where
  "not_available clusterName = ErrorText (''cluster '' @ clusterName @ '' not available'')"

definition record_fed :: "metric_op list \<Rightarrow> ('w federation, unit) state" where
  "record_fed ops = fed_modify (\<lambda>s. s\<lparr>fed_metrics := fed_metrics s @ ops\<rparr>)"

text \<open>The end of both synchronisations: the metrics and the time of the synchronisation.\<close>

definition sync_result ::
  "('w, 'c) host \<Rightarrow> string \<Rightarrow> string \<Rightarrow> 'a k8s_object_scheme \<Rightarrow> string \<Rightarrow> gotime \<Rightarrow> go_error option \<Rightarrow> ('w federation, outcome) state"
where
  "sync_result h kind clusterName obj targetNamespace start err =
     (case err of
        Some e \<Rightarrow> do {
          record_fed (RecordReflectionError (Namespace obj) (Name obj) targetNamespace ''cross_cluster_sync_failed'');
          return (Returns (Some (Wrapped (''failed to sync '' @ kind @ '' to cluster '' @ clusterName) e))) }
      | None \<Rightarrow> do {
          UpdateLastSync h clusterName;
          since \<leftarrow> outside (host_clock h);
          now \<leftarrow> outside (host_clock h);
          record_fed (RecordReflectionSuccess now (Namespace obj) (Name obj) (clusterName @ '':'' @ targetNamespace) (time_Sub since start));
          return (Returns None) })"

definition SyncSecretToCluster :: "('w, 'c) host \<Rightarrow> string \<Rightarrow> Secret \<Rightarrow> string \<Rightarrow> ('w federation, outcome) state" where
  "SyncSecretToCluster h clusterName secret targetNamespace = do {
     found \<leftarrow> GetClient clusterName;
     case found of
       None \<Rightarrow> return (Returns (Some (not_available clusterName)))
     | Some cl \<Rightarrow> do {
         start \<leftarrow> outside (host_clock h);
         case cl of
           None \<Rightarrow> return Panic
         | Some cs \<Rightarrow> do {
             r \<leftarrow> outside (cs_get_secret cs targetNamespace (Name secret));
             err \<leftarrow> (case r of
               Inr existing \<Rightarrow> outside (cs_update_secret cs targetNamespace
                 (existing\<lparr>Data := Data secret, Type := Type secret, Labels := Labels secret, Annotations := Annotations secret\<rparr>))
             | Inl err \<Rightarrow>
                 if IsNotFound err then outside (cs_create_secret cs targetNamespace
                   (secret\<lparr>Namespace := targetNamespace, ResourceVersion := '''', UID := ''''\<rparr>))
                 else return (Some err));
             sync_result h ''secret'' clusterName secret targetNamespace start err } } }"

definition SyncConfigMapToCluster :: "('w, 'c) host \<Rightarrow> string \<Rightarrow> ConfigMap \<Rightarrow> string \<Rightarrow> ('w federation, outcome) state" where
  "SyncConfigMapToCluster h clusterName cm targetNamespace = do {
     found \<leftarrow> GetClient clusterName;
     case found of
       None \<Rightarrow> return (Returns (Some (not_available clusterName)))
     | Some cl \<Rightarrow> do {
         start \<leftarrow> outside (host_clock h);
         case cl of
           None \<Rightarrow> return Panic
         | Some cs \<Rightarrow> do {
             r \<leftarrow> outside (cs_get_configmap cs targetNamespace (Name cm));
             err \<leftarrow> (case r of
               Inr existing \<Rightarrow> outside (cs_update_configmap cs targetNamespace
                 (existing\<lparr>cmData := cmData cm, BinaryData := BinaryData cm, Labels := Labels cm, Annotations := Annotations cm\<rparr>))
             | Inl err \<Rightarrow>
                 if IsNotFound err then outside (cs_create_configmap cs targetNamespace
                   (cm\<lparr>Namespace := targetNamespace, ResourceVersion := '''', UID := ''''\<rparr>))
                 else return (Some err));
             sync_result h ''configmap'' clusterName cm targetNamespace start err } } }"

text \<open>Both deletions, with the call of the object's type.\<close>

definition delete_from_cluster ::
  "string \<Rightarrow> ('w clientset \<Rightarrow> string \<Rightarrow> string \<Rightarrow> 'w command) \<Rightarrow> string \<Rightarrow> string \<Rightarrow> string \<Rightarrow> ('w federation, outcome) state"
where
  "delete_from_cluster kind del clusterName namespace name = do {
     found \<leftarrow> GetClient clusterName;
     case found of
       None \<Rightarrow> return (Returns (Some (not_available clusterName)))
     | Some None \<Rightarrow> return Panic
     | Some (Some cs) \<Rightarrow> do {
         err \<leftarrow> outside (del cs namespace name);
         case err of
           Some e \<Rightarrow>
             if \<not> IsNotFound e
             then return (Returns (Some (Wrapped (''failed to delete '' @ kind @ '' from cluster '' @ clusterName) e)))
             else return (Returns None)
         | None \<Rightarrow> return (Returns None) } }"

definition DeleteSecretFromCluster :: "string \<Rightarrow> string \<Rightarrow> string \<Rightarrow> ('w federation, outcome) state" where
  "DeleteSecretFromCluster = delete_from_cluster ''secret'' cs_delete_secret"

definition DeleteConfigMapFromCluster :: "string \<Rightarrow> string \<Rightarrow> string \<Rightarrow> ('w federation, outcome) state" where
  "DeleteConfigMapFromCluster = delete_from_cluster ''configmap'' cs_delete_configmap"

definition Service_HealthCheck :: "('w federation, string \<rightharpoonup> bool) state" where
  "Service_HealthCheck = HealthCheck"

section \<open>Reachable states\<close>

inductive fed_reach :: "('w, 'c) host \<Rightarrow> 'w federation \<Rightarrow> bool" for h where
  fed_new: "fed_reach h (NewRemoteClusterManager w)"
| fed_outside: "fed_reach h s \<Longrightarrow> fed_reach h (s\<lparr>fed_world := w\<rparr>)"
| fed_add: "fed_reach h s \<Longrightarrow> fed_reach h (snd (run_state (AddCluster h name kubeconfig) s))"
| fed_remove: "fed_reach h s \<Longrightarrow> fed_reach h (snd (run_state (RemoveCluster name) s))"
| fed_sync: "fed_reach h s \<Longrightarrow> fed_reach h (snd (run_state (SyncSecretToCluster h name secret ns) s))"
| fed_sync_configmap: "fed_reach h s \<Longrightarrow> fed_reach h (snd (run_state (SyncConfigMapToCluster h name cm ns) s))"
| fed_delete: "fed_reach h s \<Longrightarrow> fed_reach h (snd (run_state (DeleteSecretFromCluster name ns n) s))"
| fed_delete_configmap: "fed_reach h s \<Longrightarrow> fed_reach h (snd (run_state (DeleteConfigMapFromCluster name ns n) s))"

definition wf_fed :: "'w federation \<Rightarrow> bool" where
  "wf_fed s \<longleftrightarrow> distinct (map fst (clusters s)) \<and> (\<forall>name cfg. map_of (clusters s) name = Some cfg \<longrightarrow> ccClient cfg \<noteq> None)"

lemma run_fed [simp]:
  "run_state (outside call) s = (fst (call (fed_world s)), s\<lparr>fed_world := snd (call (fed_world s))\<rparr>)"
  "run_state (fed_get f) s = (f s, s)" "run_state (fed_modify g) s = ((), g s)"
  by (simp_all add: outside_def fed_get_def fed_modify_def case_prod_beta Let_def)

lemma wf_fed_simps [simp]: "wf_fed (s\<lparr>fed_world := w\<rparr>) = wf_fed s" "wf_fed (s\<lparr>fed_metrics := ms\<rparr>) = wf_fed s"
  "wf_fed (NewRemoteClusterManager w)"
  by (simp_all add: wf_fed_def NewRemoteClusterManager_def)

lemma wf_fed_update:
  "wf_fed s \<Longrightarrow> ccClient cfg \<noteq> None \<Longrightarrow> wf_fed (s\<lparr>fed_world := w, clusters := AList.update name cfg (clusters s)\<rparr>)"
  by (auto simp: wf_fed_def distinct_update map_of_update)

lemma wf_fed_client: "wf_fed s \<Longrightarrow> map_of (clusters s) name = Some cfg \<Longrightarrow> ccClient cfg \<noteq> None"
  by (simp add: wf_fed_def)

lemma io_fed_prims:
  "state_io_rel (keeps wf_fed) (outside call)" "state_io_rel (keeps wf_fed) (fed_get f)"
  "state_io_rel (keeps wf_fed) (record_fed ops)" "state_io_rel (keeps wf_fed) (RemoveCluster name)"
  "state_io_rel (keeps wf_fed) (fed_modify (\<lambda>s. s\<lparr>clusters := AList.update name
     \<lparr>ccClient = Some cl, ccKubeconfig = k, ccLastSyncTime = t\<rparr> (clusters s)\<rparr>))"
  by (auto simp: state_io_rel_def keeps_def record_fed_def RemoveCluster_def wf_fed_def distinct_update distinct_delete
      map_of_update map_of_delete)

lemma io_fed_last_sync: "state_io_rel (keeps wf_fed) (UpdateLastSync h name)"
  unfolding UpdateLastSync_def
  by (auto simp: state_io_rel_def keeps_def split: option.split dest: wf_fed_client intro!: wf_fed_update)

lemma io_fed_ops:
  "state_io_rel (keeps wf_fed) (AddCluster h name kubeconfig)"
  "state_io_rel (keeps wf_fed) (SyncSecretToCluster h name secret ns)"
  "state_io_rel (keeps wf_fed) (SyncConfigMapToCluster h name cm ns)"
  "state_io_rel (keeps wf_fed) (delete_from_cluster kind del name ns n)"
  unfolding AddCluster_def writeTempKubeconfig_def SyncSecretToCluster_def SyncConfigMapToCluster_def delete_from_cluster_def
    sync_result_def GetClient_def
  by (intro io_bind io_case_sum io_case_option io_if io_return io_fed_prims io_fed_last_sync frame_keeps)+

lemma fed_reach_wf: "fed_reach h s \<Longrightarrow> wf_fed s"
  by (induction rule: fed_reach.induct)
    (auto simp: DeleteSecretFromCluster_def DeleteConfigMapFromCluster_def intro: io_keepsD io_fed_ops io_fed_prims)

lemma sync_result_no_panic [simp]: "fst (run_state (sync_result h kind name obj ns t err) u) \<noteq> Panic"
  by (simp add: sync_result_def UpdateLastSync_def record_fed_def Let_def case_prod_beta split: option.split)

section \<open>Properties\<close>

text \<open>C36. The federation service never uses a nil client, and its health check is none. In every state that the
  manager and the service reach, no synchronisation or deletion panics, and \<open>HealthCheck\<close> answers
  true for exactly the registered clusters, whether or not they can be reached.\<close>

theorem federation_safe:
  assumes "fed_reach h s"
  shows "fst (run_state (SyncSecretToCluster h name secret ns) s) \<noteq> Panic \<and>
     fst (run_state (SyncConfigMapToCluster h name cm ns) s) \<noteq> Panic \<and>
     fst (run_state (DeleteSecretFromCluster name ns n) s) \<noteq> Panic \<and>
     fst (run_state (DeleteConfigMapFromCluster name ns n) s) \<noteq> Panic \<and>
     fst (run_state HealthCheck s) = (\<lambda>k. if k \<in> set (fst (run_state (ListClusters h) s)) then Some True else None)"
proof -
  have wf: "wf_fed s"
    using assms by (rule fed_reach_wf)
  have client: "map_option ccClient (map_of (clusters s) name) \<noteq> Some None"
    using wf_fed_client [OF wf, of name] by auto
  have "map_of (map (\<lambda>(name, cfg). (name, ccClient cfg \<noteq> None)) cs) k =
      (if k \<in> fst ` set cs then Some True else None)" if "\<forall>(n, cfg) \<in> set cs. ccClient cfg \<noteq> None" for cs :: "(string \<times> 'a ClusterConfig) list" and k
    using that by (induction cs) auto
  moreover have "\<forall>(n, cfg) \<in> set (clusters s). ccClient cfg \<noteq> None"
    using wf by (auto simp: wf_fed_def)
  ultimately have "fst (run_state HealthCheck s) = (\<lambda>k. if k \<in> set (fst (run_state (ListClusters h) s)) then Some True else None)"
    by (auto simp: HealthCheck_def ListClusters_def)
  moreover have "fst (run_state (SyncSecretToCluster h name secret ns) s) \<noteq> Panic"
    using client by (auto simp: SyncSecretToCluster_def GetClient_def Let_def case_prod_beta split: option.split)
  moreover have "fst (run_state (SyncConfigMapToCluster h name cm ns) s) \<noteq> Panic"
    using client by (auto simp: SyncConfigMapToCluster_def GetClient_def Let_def case_prod_beta split: option.split)
  moreover have "fst (run_state (delete_from_cluster kind del name ns n) s) \<noteq> Panic" for kind del
    using client by (auto simp: delete_from_cluster_def GetClient_def Let_def case_prod_beta split: option.split)
  ultimately show ?thesis
    by (simp add: DeleteSecretFromCluster_def DeleteConfigMapFromCluster_def)
qed

text \<open>A remote API server: the laws of the local one, at the calls of a clientset.\<close>

definition remote_server :: "'w clientset \<Rightarrow> ('w \<Rightarrow> string \<times> string \<Rightarrow> Secret option) \<Rightarrow> bool" where
  "remote_server cs view \<longleftrightarrow>
     (\<forall>ns n w. fst (cs_get_secret cs ns n w) = (case view w (ns, n) of None \<Rightarrow> Inl (ApiNotFound n) | Some obj \<Rightarrow> Inr obj) \<and>
        view (snd (cs_get_secret cs ns n w)) = view w \<and>
        (\<forall>obj. view w (ns, n) = Some obj \<longrightarrow> Namespace obj = ns \<and> Name obj = n)) \<and>
     (\<forall>obj w. view w (Namespace obj, Name obj) = None \<longrightarrow> fst (cs_create_secret cs (Namespace obj) obj w) = None \<and>
        (\<exists>obj'. kept obj obj' \<and>
           view (snd (cs_create_secret cs (Namespace obj) obj w)) = (view w)((Namespace obj, Name obj) \<mapsto> obj'))) \<and>
     (\<forall>obj w. view w (Namespace obj, Name obj) \<noteq> None \<longrightarrow> fst (cs_update_secret cs (Namespace obj) obj w) = None \<and>
        (\<exists>obj'. kept obj obj' \<and>
           view (snd (cs_update_secret cs (Namespace obj) obj w)) = (view w)((Namespace obj, Name obj) \<mapsto> obj')))"

lemma sync_result_success:
  assumes "map_of (clusters u) name = Some cfg" "\<forall>w. view (snd (host_clock h w)) = view w"
  shows "(let (r, u') = run_state (sync_result h kind name obj ns t None) u in
     r = Returns None \<and> view (fed_world u') = view (fed_world u) \<and> (\<exists>k. map_of (clusters u') name = Some (cfg\<lparr>ccLastSyncTime := k\<rparr>)))"
  using assms by (simp add: sync_result_def UpdateLastSync_def record_fed_def map_of_update Let_def case_prod_beta) (metis fun_upd_same)


text \<open>A remote cluster that is a table of Secrets, and a host on which every call succeeds.\<close>

type_synonym table = "string \<times> string \<Rightarrow> Secret option"

definition table_view :: "table \<Rightarrow> table" where
  "table_view w = (\<lambda>(ns, n). map_option (\<lambda>obj. obj\<lparr>Namespace := ns, Name := n\<rparr>) (w (ns, n)))"

definition table_clientset :: "table clientset" where
  "table_clientset =
     \<lparr>cs_get_secret = (\<lambda>ns n w. (not_found n (table_view w (ns, n)), w)),
      cs_update_secret = (\<lambda>ns obj w. (None, w((ns, Name obj) \<mapsto> obj))),
      cs_create_secret = (\<lambda>ns obj w. (None, w((ns, Name obj) \<mapsto> obj))),
      cs_delete_secret = (\<lambda>ns n w. (None, w((ns, n) := None))),
      cs_get_configmap = (\<lambda>ns n w. (Inl (ApiNotFound n), w)),
      cs_update_configmap = (\<lambda>ns obj w. (None, w)), cs_create_configmap = (\<lambda>ns obj w. (None, w)),
      cs_delete_configmap = (\<lambda>ns n w. (None, w))\<rparr>"

definition table_host :: "(table, unit) host" where
  "table_host =
     \<lparr>os_CreateTemp = (\<lambda>w. (Inr ''/tmp/kubeconfig-1'', w)), file_Write = (\<lambda>p b w. (None, w)), file_Close = (\<lambda>p w. (None, w)),
      os_Remove = (\<lambda>p w. (None, w)), BuildConfigFromFlags = (\<lambda>p w. (Inr (), w)), NewForConfig = (\<lambda>u w. (Inr table_clientset, w)),
      host_clock = (\<lambda>w. (0, w)), name_order = (\<lambda>w. ((\<lambda>_. 0), w))\<rparr>"

definition example_federation :: "table federation" where
  "example_federation = snd (run_state (AddCluster table_host ''eu'' ''config'') (NewRemoteClusterManager Map.empty))"

lemma table_remote_server: "remote_server table_clientset table_view"
proof -
  note refl = kept_refl
  have "table_view (w((Namespace obj, Name obj) \<mapsto> obj)) = (table_view w)((Namespace obj, Name obj) \<mapsto> obj)" for w obj
    by (auto simp: table_view_def fun_eq_iff)
  then show ?thesis
    using refl unfolding remote_server_def
    by (auto simp: table_clientset_def not_found_def split: option.split) (auto simp: table_view_def)
qed

lemma example_federation_clusters:
  "clusters example_federation = [(''eu'', \<lparr>ccClient = Some table_clientset, ccKubeconfig = ''config'', ccLastSyncTime = 0\<rparr>)]"
  "fed_world example_federation = Map.empty"
  by (simp_all add: example_federation_def AddCluster_def writeTempKubeconfig_def table_host_def NewRemoteClusterManager_def)

theorem federation_safe_witness:
  "fst (run_state HealthCheck example_federation) ''eu'' = Some True \<and>
   fst (run_state (DeleteSecretFromCluster ''eu'' ''dev'' ''db'') example_federation) \<noteq> Panic"
proof -
  have "fed_reach table_host example_federation"
    unfolding example_federation_def by (intro fed_add fed_new)
  from federation_safe [OF this, of "''eu''" _ "''dev''" _ "''db''"] show ?thesis
    by (simp add: ListClusters_def example_federation_clusters)
qed


end
